(* ===== verification/LDAP_Prelude.thy ===== *)
theory LDAP_Prelude
  imports Main
begin

text \<open>
  Shared vocabulary of the development: the names of the model's types, the
  collections of rewrite rules the component theories register their
  characteristic equations in, and generic facts about the Go idioms the
  client repeats (filling a \<open>map[string]string\<close> attribute by attribute,
  appending to a call trace, counting events in it).
\<close>

named_theorems world_simps
  "characteristic equations of the directory-protocol collaborator"

named_theorems client_simps
  "characteristic equations of the client's operations"

type_synonym attr_map = "string \<rightharpoonup> string"
  \<comment> \<open>Go \<open>map[string]string\<close>, keyed by attribute name\<close>

subsection \<open>Filling a map key by key\<close>

text \<open>
  The Go loop \<^verbatim>\<open>for _, k := range ks { m[k] = f(k) }\<close> is a left fold of map
  updates; later keys overwrite earlier ones, which matters only when a key
  repeats, and then both writes store the same value.
\<close>

definition fill_map :: "('k \<Rightarrow> 'v) \<Rightarrow> 'k list \<Rightarrow> ('k \<rightharpoonup> 'v) \<Rightarrow> ('k \<rightharpoonup> 'v)" where
  "fill_map f ks m = fold (\<lambda>k acc. acc(k \<mapsto> f k)) ks m"

lemma fill_map_Nil [simp]: "fill_map f [] m = m"
  by (simp add: fill_map_def)

lemma fill_map_Cons [simp]: "fill_map f (k # ks) m = fill_map f ks (m(k \<mapsto> f k))"
  by (simp add: fill_map_def)

lemma fill_map_lookup:
  "fill_map f ks m k = (if k \<in> set ks then Some (f k) else m k)"
  by (induction ks arbitrary: m) auto

lemma dom_fill_map [simp]: "dom (fill_map f ks m) = dom m \<union> set ks"
  by (auto simp: fill_map_lookup split: if_splits)

lemma fill_map_cong:
  "(\<And>k. k \<in> set ks \<Longrightarrow> f k = g k) \<Longrightarrow> fill_map f ks m = fill_map g ks m"
  by (rule ext) (simp add: fill_map_lookup)

lemma fill_map_append [simp]:
  "fill_map f (ks @ ks') m = fill_map f ks' (fill_map f ks m)"
  by (simp add: fill_map_def)

subsection \<open>Counting events\<close>

lemma length_filter_append_single:
  "length (filter P (xs @ [x])) = length (filter P xs) + (if P x then 1 else 0)"
  by simp

end
