(* ===== verification/Go_Fmt.thy ===== *)
theory Go_Fmt
  imports LDAP_Prelude
begin

text \<open>
  The part of Go's \<open>fmt.Sprintf\<close> the client relies on: the filter templates
  \<open>UserFilter\<close> and \<open>GroupFilter\<close> are formatted with one string argument, and the
  server address with \<^verbatim>\<open>"%s:%d"\<close>. The model follows \<open>fmt/print.go\<close>
  (\<open>doPrintf\<close>): the verbs \<open>%s\<close>, \<open>%v\<close>, \<open>%d\<close> and \<open>%%\<close>, a verb without
  an argument (\<open>%!s(MISSING)\<close>), a verb that does not fit its argument
  (\<open>%!d(string=x)\<close>), a trailing \<open>%\<close> (\<open>%!(NOVERB)\<close>) and arguments left over
  (\<open>%!(EXTRA string=x)\<close>). Flags, widths, precisions, explicit argument indexes and
  the verbs \<open>%q\<close>, \<open>%x\<close>, \<open>%X\<close> of strings are not modelled: such verbs are
  rendered as a verb that does not fit.
\<close>

datatype go_arg = Go_String string | Go_Int int

subsection \<open>Decimal printing (\<open>%d\<close>)\<close>

text \<open>As \<open>strconv.formatBits\<close> does, a digit is read off the string of digits.\<close>

definition digit_char :: "nat \<Rightarrow> char" where
  "digit_char d = ''0123456789'' ! d"

fun nat_digits :: "nat \<Rightarrow> string" where
  "nat_digits n = (if n < 10 then [digit_char n] else nat_digits (n div 10) @ [digit_char (n mod 10)])"

declare nat_digits.simps [simp del]

definition go_itoa :: "int \<Rightarrow> string" where
  "go_itoa i = (if i < 0 then CHR ''-'' # nat_digits (nat (- i)) else nat_digits (nat i))"

definition go_type_value :: "go_arg \<Rightarrow> string" where
  "go_type_value a = (case a of Go_String s \<Rightarrow> ''string='' @ s | Go_Int i \<Rightarrow> ''int='' @ go_itoa i)"

definition go_fmt_verb :: "char \<Rightarrow> go_arg \<Rightarrow> string" where
  "go_fmt_verb v a =
     (case a of
        Go_String s \<Rightarrow> if v = CHR ''s'' \<or> v = CHR ''v'' then s
                       else ''%!'' @ [v] @ ''('' @ go_type_value a @ '')''
      | Go_Int i \<Rightarrow> if v = CHR ''d'' \<or> v = CHR ''v'' then go_itoa i
                    else ''%!'' @ [v] @ ''('' @ go_type_value a @ '')'')"

fun go_extra_list :: "go_arg list \<Rightarrow> string" where
  "go_extra_list [] = []"
| "go_extra_list [a] = go_type_value a"
| "go_extra_list (a # as) = go_type_value a @ '', '' @ go_extra_list as"

definition go_extra :: "go_arg list \<Rightarrow> string" where
  "go_extra args = (if args = [] then [] else ''%!(EXTRA '' @ go_extra_list args @ '')'')"

fun do_printf :: "string \<Rightarrow> go_arg list \<Rightarrow> string" where
  "do_printf [] args = go_extra args"
| "do_printf (c # cs) args =
     (if c \<noteq> CHR ''%'' then c # do_printf cs args
      else (case cs of
              [] \<Rightarrow> ''%!(NOVERB)'' @ go_extra args
            | v # cs' \<Rightarrow>
                if v = CHR ''%'' then CHR ''%'' # do_printf cs' args
                else (case args of
                        [] \<Rightarrow> ''%!'' @ [v] @ ''(MISSING)'' @ do_printf cs' []
                      | a # as \<Rightarrow> go_fmt_verb v a @ do_printf cs' as)))"

definition go_sprintf :: "string \<Rightarrow> go_arg list \<Rightarrow> string" where
  "go_sprintf fmt args = do_printf fmt args"

subsection \<open>Lemmas\<close>

lemma nat_digits_nonempty [simp]: "nat_digits n \<noteq> []"
  by (subst nat_digits.simps) simp

text \<open>Text without a \<open>%\<close> is copied to the output unchanged.\<close>

lemma do_printf_plain_prefix:
  "CHR ''%'' \<notin> set p \<Longrightarrow> do_printf (p @ rest) args = p @ do_printf rest args"
  by (induction p) auto

lemma do_printf_plain [simp]: "CHR ''%'' \<notin> set p \<Longrightarrow> do_printf p [] = p"
  using do_printf_plain_prefix [of p "[]" "[]"] by (simp add: go_extra_def)

text \<open>A template with one \<open>%s\<close> and no other \<open>%\<close> splices its argument in verbatim.\<close>

lemma go_sprintf_one_s:
  assumes "CHR ''%'' \<notin> set p" and "CHR ''%'' \<notin> set q"
  shows "go_sprintf (p @ ''%s'' @ q) [Go_String u] = p @ u @ q"
  using assms by (simp add: go_sprintf_def do_printf_plain_prefix go_fmt_verb_def)


text \<open>A template without a verb prints itself and then its unused argument.\<close>

lemma go_sprintf_no_verb:
  "CHR ''%'' \<notin> set p \<Longrightarrow> go_sprintf p [Go_String u] = p @ ''%!(EXTRA string='' @ u @ '')''"
  using do_printf_plain_prefix [of p "[]" "[Go_String u]"]
  by (simp add: go_sprintf_def go_extra_def go_type_value_def)


text \<open>A template with two \<open>%s\<close> and one argument: the second verb finds no
argument and prints \<open>%!s(MISSING)\<close>.\<close>

lemma go_sprintf_two_s:
  assumes "CHR ''%'' \<notin> set p" and "CHR ''%'' \<notin> set q" and "CHR ''%'' \<notin> set r"
  shows "go_sprintf (p @ ''%s'' @ q @ ''%s'' @ r) [Go_String u] = p @ u @ q @ ''%!s(MISSING)'' @ r"
  using assms by (simp add: go_sprintf_def do_printf_plain_prefix go_fmt_verb_def)

end
