(* ===== verification/Ldap_Filter.thy ===== *)
theory Ldap_Filter
  imports LDAP_Prelude "HOL-Library.List_Lexorder" "HOL-Library.Char_ord" "HOL-Library.Sublist"
begin

text \<open>The string search filters of the directory protocol (RFC 4515) as the
client library compiles them before a search is sent (ldap.v2, filter.go:
CompileFilter, compileFilter, compileFilterSet, escapedStringToEncodedBytes),
and the server-side meaning of a compiled filter (RFC 4511, 4.5.1.7).
Compilation is a recursive-descent parser over the remaining input; its
recursion is bounded by a fuel argument, and the lemmas show that the
length of the input plus one is always enough fuel, so the compiler always
returns a filter or a compile error.\<close>

datatype filt =
    F_And "filt list"
  | F_Or "filt list"
  | F_Not filt
  | F_Equal string string
  | F_Present string
  | F_Substrings string string "string list" string
  | F_GreaterOrEqual string string
  | F_LessOrEqual string string
  | F_Approx string string

definition err_unexpected_end :: string where
  "err_unexpected_end = ''ldap: unexpected end of filter''"

definition err_parsing :: string where
  "err_parsing = ''ldap: error parsing filter''"

definition err_extensible :: string where
  "err_extensible = ''ldap: extensible match filters are not supported''"

definition err_escape_missing :: string where
  "err_escape_missing = ''ldap: missing characters for escape in filter''"

definition err_escape_invalid :: string where
  "err_escape_invalid = ''ldap: invalid characters for escape in filter''"

definition err_no_paren :: string where
  "err_no_paren = ''ldap: filter does not start with an '' @ [CHR 0x27, CHR ''('', CHR 0x27]"

definition err_extra :: string where
  "err_extra = ''ldap: finished compiling filter with extra at end: ''"

text \<open>Hexadecimal digits as encoding/hex decodes them.\<close>

definition hex_val :: "char \<Rightarrow> nat option" where
  "hex_val c =
     (let n = of_char c :: nat in
      if 48 \<le> n \<and> n \<le> 57 then Some (n - 48)
      else if 97 \<le> n \<and> n \<le> 102 then Some (n - 87)
      else if 65 \<le> n \<and> n \<le> 70 then Some (n - 55)
      else None)"

text \<open>escapedStringToEncodedBytes: a backslash must be followed by two
hexadecimal digits, which stand for the byte they spell.\<close>

fun unescape :: "string \<Rightarrow> string + string" where
  "unescape [] = Inr []"
| "unescape (c # cs) =
     (if c = CHR 0x5C then
        (case cs of
           a # b # rest \<Rightarrow>
             (case (hex_val a, hex_val b) of
                (Some x, Some y) \<Rightarrow> map_sum id (Cons (char_of (16 * x + y))) (unescape rest)
              | _ \<Rightarrow> Inl err_escape_invalid)
         | _ \<Rightarrow> Inl err_escape_missing)
      else map_sum id (Cons c) (unescape cs))"

text \<open>The attribute description of a simple item: everything up to the
first \<open>=\<close>, \<open>>=\<close>, \<open><=\<close>, \<open>~=\<close> or \<open>)\<close>.\<close>

fun split_attr :: "string \<Rightarrow> string \<times> string" where
  "split_attr [] = ([], [])"
| "split_attr (c # cs) =
     (if c = CHR '')'' \<or> c = CHR ''='' \<or> c = CHR '':'' \<or>
         (c \<in> {CHR ''>'', CHR ''<'', CHR ''~''} \<and> cs \<noteq> [] \<and> hd cs = CHR ''='')
      then ([], c # cs)
      else (case split_attr cs of (a, r) \<Rightarrow> (c # a, r)))"

text \<open>The substring assertion of a condition holding a star: the pieces
between the stars, the first one the initial and the last one the final
substring, the empty pieces dropped (strings.Split on \<open>*\<close>).\<close>

fun split_star :: "string \<Rightarrow> string list" where
  "split_star [] = [[]]"
| "split_star (c # cs) =
     (if c = CHR ''*'' then [] # split_star cs
      else (case split_star cs of p # ps \<Rightarrow> (c # p) # ps | [] \<Rightarrow> [[c]]))"

definition unescape_all :: "string list \<Rightarrow> string + string list" where
  "unescape_all ps = fold (\<lambda>p acc. case acc of Inl e \<Rightarrow> Inl e
       | Inr qs \<Rightarrow> map_sum id (\<lambda>q. qs @ [q]) (unescape p)) ps (Inr [])"

definition substrings_filter :: "string \<Rightarrow> string \<Rightarrow> string + filt" where
  "substrings_filter a cond =
     (let ps = split_star cond in
      case unescape_all ps of
        Inl e \<Rightarrow> Inl e
      | Inr qs \<Rightarrow> Inr (F_Substrings a (hd qs) (filter (\<lambda>q. q \<noteq> []) (butlast (tl qs))) (last qs)))"

text \<open>The filter an item stands for, from its attribute, the operator it
was read with and its condition.\<close>

definition item_filter :: "string \<Rightarrow> string \<Rightarrow> string \<Rightarrow> string + filt" where
  "item_filter a op cond =
     (if op = ''='' \<and> cond = ''*'' then Inr (F_Present a)
      else if op = ''='' \<and> CHR ''*'' \<in> set cond then substrings_filter a cond
      else (case unescape cond of
              Inl e \<Rightarrow> Inl e
            | Inr v \<Rightarrow> Inr (if op = ''='' then F_Equal a v
                          else if op = ''>='' then F_GreaterOrEqual a v
                          else if op = ''<='' then F_LessOrEqual a v
                          else F_Approx a v)))"

text \<open>The default branch of compileFilter: an item, read up to and
including its closing parenthesis.\<close>

definition compile_item :: "string \<Rightarrow> string + (filt \<times> string)" where
  "compile_item s =
     (case split_attr s of
        (a, []) \<Rightarrow> Inl err_unexpected_end
      | (a, c # r) \<Rightarrow>
          (if c = CHR '')'' then Inl err_parsing
           else if c = CHR '':'' then Inl err_extensible
           else
             (let op = (if c = CHR ''='' then [c] else [c, hd r]);
                  r' = (if c = CHR ''='' then r else tl r);
                  cond = takeWhile (\<lambda>x. x \<noteq> CHR '')'') r';
                  rest = dropWhile (\<lambda>x. x \<noteq> CHR '')'') r'
              in if rest = [] then Inl err_unexpected_end
                 else map_sum id (\<lambda>f. (f, tl rest)) (item_filter a op cond))))"

text \<open>compileFilter and compileFilterSet, on the input that follows an
opening parenthesis; None is running out of fuel.\<close>

fun compile_filt :: "nat \<Rightarrow> string \<Rightarrow> (string + (filt \<times> string)) option"
and compile_set :: "nat \<Rightarrow> string \<Rightarrow> (string + (filt list \<times> string)) option" where
  "compile_filt 0 cs = None"
| "compile_filt (Suc n) [] = Some (Inl err_unexpected_end)"
| "compile_filt (Suc n) (c # cs) =
     (if c = CHR ''('' then
        (case compile_filt n cs of
           Some (Inr (f, r)) \<Rightarrow>
             (case r of [] \<Rightarrow> Some (Inl err_unexpected_end) | _ # r' \<Rightarrow> Some (Inr (f, r')))
         | x \<Rightarrow> x)
      else if c = CHR ''&'' then
        map_option (map_sum id (\<lambda>(fs, r). (F_And fs, r))) (compile_set n cs)
      else if c = CHR ''|'' then
        map_option (map_sum id (\<lambda>(fs, r). (F_Or fs, r))) (compile_set n cs)
      else if c = CHR ''!'' then
        map_option (map_sum id (\<lambda>(f, r). (F_Not f, r))) (compile_filt n cs)
      else Some (compile_item (c # cs)))"
| "compile_set 0 cs = None"
| "compile_set (Suc n) [] = Some (Inl err_unexpected_end)"
| "compile_set (Suc n) (c # cs) =
     (if c = CHR ''('' then
        (case compile_filt n cs of
           Some (Inr (f, r)) \<Rightarrow> map_option (map_sum id (\<lambda>(fs, r'). (f # fs, r'))) (compile_set n r)
         | Some (Inl e) \<Rightarrow> Some (Inl e)
         | None \<Rightarrow> None)
      else Some (Inr ([], cs)))"

text \<open>CompileFilter: the filter must open with a parenthesis and be used up
exactly.\<close>

definition compile_filter :: "string \<Rightarrow> string + filt" where
  "compile_filter s =
     (case s of
        c # cs \<Rightarrow>
          (if c = CHR ''('' then
             (case compile_filt (Suc (length cs)) cs of
                Some (Inr (f, [])) \<Rightarrow> Inr f
              | Some (Inr (f, r)) \<Rightarrow> Inl (err_extra @ r)
              | Some (Inl e) \<Rightarrow> Inl e
              | None \<Rightarrow> Inl err_unexpected_end)
           else Inl err_no_paren)
      | [] \<Rightarrow> Inl err_no_paren)"

text \<open>The characters a plain attribute description of an item avoids.\<close>

definition filter_special :: "char \<Rightarrow> bool" where
  "filter_special c \<longleftrightarrow> c \<in> set ''()&|!=<>~:*'' \<or> c = CHR 0x5C"

subsection \<open>Escaping\<close>

text \<open>EscapeFilter: the bytes that are special in a filter value (the
parentheses, the star, the backslash, NUL, and every byte above 127) are
written as a backslash and two lower-case hexadecimal digits.\<close>

definition hexchars :: string where
  "hexchars = ''0123456789abcdef''"

definition must_escape :: "char \<Rightarrow> bool" where
  "must_escape c \<longleftrightarrow> 127 < (of_char c :: nat) \<or> c = CHR ''('' \<or> c = CHR '')'' \<or>
     c = CHR 0x5C \<or> c = CHR ''*'' \<or> c = CHR 0x00"

definition escape_char :: "char \<Rightarrow> string" where
  "escape_char c =
     (if must_escape c
      then [CHR 0x5C, hexchars ! (of_char c div 16), hexchars ! (of_char c mod 16)]
      else [c])"

definition escape_filter :: "string \<Rightarrow> string" where
  "escape_filter s = concat (map escape_char s)"

subsection \<open>Evaluation on the server\<close>

text \<open>The rest of the input after the leftmost occurrence of a substring.\<close>

fun after_sub :: "string \<Rightarrow> string \<Rightarrow> string option" where
  "after_sub p [] = (if p = [] then Some [] else None)"
| "after_sub p (c # cs) =
     (if prefix p (c # cs) then Some (drop (length p) (c # cs)) else after_sub p cs)"

text \<open>The any-substrings in order, each at its leftmost place after the
previous one, and the final substring at the end.\<close>

fun subs_match :: "string list \<Rightarrow> string \<Rightarrow> string \<Rightarrow> bool" where
  "subs_match [] fin r = suffix fin r"
| "subs_match (a # as) fin r =
     (case after_sub a r of None \<Rightarrow> False | Some r' \<Rightarrow> subs_match as fin r')"

definition substr_match :: "string \<Rightarrow> string list \<Rightarrow> string \<Rightarrow> string \<Rightarrow> bool" where
  "substr_match ini anys fin v \<longleftrightarrow> prefix ini v \<and> subs_match anys fin (drop (length ini) v)"

text \<open>The reference meaning of a substring assertion: the value is the
initial substring, then each any-substring in order with arbitrary text
around it, then the final substring.\<close>

fun glob_ref :: "string list \<Rightarrow> string \<Rightarrow> string \<Rightarrow> bool" where
  "glob_ref [] fin r \<longleftrightarrow> suffix fin r"
| "glob_ref (a # as) fin r \<longleftrightarrow> (\<exists>u w. r = u @ a @ w \<and> glob_ref as fin w)"

text \<open>A filter on an entry, given the values of each attribute of the entry.
Equality, ordering and approximate match compare the strings exactly; the
server's matching rules (case folding) and the undefined truth value of
RFC 4511 are not modelled.\<close>

fun filt_eval :: "(string \<Rightarrow> string list) \<Rightarrow> filt \<Rightarrow> bool" where
  "filt_eval vals (F_And fs) = (\<forall>f\<in>set fs. filt_eval vals f)"
| "filt_eval vals (F_Or fs) = (\<exists>f\<in>set fs. filt_eval vals f)"
| "filt_eval vals (F_Not f) = (\<not> filt_eval vals f)"
| "filt_eval vals (F_Equal a v) = (v \<in> set (vals a))"
| "filt_eval vals (F_Present a) = (vals a \<noteq> [])"
| "filt_eval vals (F_Substrings a ini anys fin) = (\<exists>x\<in>set (vals a). substr_match ini anys fin x)"
| "filt_eval vals (F_GreaterOrEqual a v) = (\<exists>x\<in>set (vals a). v \<le> x)"
| "filt_eval vals (F_LessOrEqual a v) = (\<exists>x\<in>set (vals a). x \<le> v)"
| "filt_eval vals (F_Approx a v) = (v \<in> set (vals a))"


subsection \<open>The compiler always returns\<close>

text \<open>Every successful step of the compiler consumes input, so the length
of the input plus one is enough fuel: \<open>compile_filter\<close> never takes its
out-of-fuel branch.\<close>

lemma map_sum_Inr_iff: "map_sum f g x = Inr y \<longleftrightarrow> (\<exists>z. x = Inr z \<and> y = g z)"
  by (cases x) auto

lemma split_attr_append: "split_attr s = (a, r) \<Longrightarrow> s = a @ r"
  by (induction s arbitrary: a rule: split_attr.induct) (auto split: if_splits prod.splits)

lemma compile_item_Inr:
  assumes "compile_item s = Inr (f, r)"
  obtains a c r0 where "split_attr s = (a, c # r0)" "c \<noteq> CHR '')''" "c \<noteq> CHR '':''"
    "dropWhile (\<lambda>x. x \<noteq> CHR '')'') (if c = CHR ''='' then r0 else tl r0) \<noteq> []"
    "r = tl (dropWhile (\<lambda>x. x \<noteq> CHR '')'') (if c = CHR ''='' then r0 else tl r0))"
    "item_filter a (if c = CHR ''='' then [c] else [c, hd r0])
       (takeWhile (\<lambda>x. x \<noteq> CHR '')'') (if c = CHR ''='' then r0 else tl r0)) = Inr f"
proof -
  obtain a rest where sa: "split_attr s = (a, rest)" by fastforce
  show ?thesis
  proof (cases rest)
    case Nil
    then show ?thesis using assms sa by (simp add: compile_item_def)
  next
    case (Cons c r0)
    show ?thesis
      using assms sa Cons that
      by (simp add: compile_item_def Let_def map_sum_Inr_iff split: if_splits)
  qed
qed

lemma compile_item_shorter:
  assumes "compile_item s = Inr (f, r)" shows "length r < length s"
proof -
  obtain a c r0 where sa: "split_attr s = (a, c # r0)"
    and r: "r = tl (dropWhile (\<lambda>x. x \<noteq> CHR '')'') (if c = CHR ''='' then r0 else tl r0))"
    using compile_item_Inr [OF assms] by metis
  have "length (dropWhile (\<lambda>x. x \<noteq> CHR '')'') (if c = CHR ''='' then r0 else tl r0)) \<le> length r0"
    using length_dropWhile_le [of "\<lambda>x. x \<noteq> CHR '')''" r0]
      length_dropWhile_le [of "\<lambda>x. x \<noteq> CHR '')''" "tl r0"]
    by (cases "c = CHR ''=''") simp_all
  moreover have "s = a @ c # r0" using split_attr_append [OF sa] .
  ultimately show ?thesis using r by simp
qed

lemma compile_shorter:
  "(compile_filt n cs = Some (Inr (f, r)) \<longrightarrow> length r < length cs) \<and>
   (compile_set n cs = Some (Inr (fs, r)) \<longrightarrow> length r < length cs)"
proof (induction n arbitrary: cs f fs r)
  case 0
  then show ?case by simp
next
  case (Suc n)
  have ih: "compile_filt n xs = Some (Inr (g, q)) \<Longrightarrow> length q < length xs"
    "compile_set n xs = Some (Inr (gs, q)) \<Longrightarrow> length q < length xs" for xs g gs q
    using Suc.IH by blast+
  show ?case
  proof (cases cs)
    case Nil
    then show ?thesis by simp
  next
    case (Cons c cs')
    have filt: "length r < length (c # cs')" if a: "compile_filt (Suc n) (c # cs') = Some (Inr (f, r))"
    proof -
      consider "c = CHR ''(''" | "c = CHR ''&''" | "c = CHR ''|''" | "c = CHR ''!''"
        | "c \<notin> set ''(&|!''" by auto
      then show ?thesis
      proof cases
        case 1
        then obtain r1 where "compile_filt n cs' = Some (Inr (f, r1))" "r1 \<noteq> []" "r = tl r1"
          using a by (auto split: option.splits sum.splits list.splits prod.splits)
        then show ?thesis using ih(1) by fastforce
      next
        case 2
        then obtain gs where "compile_set n cs' = Some (Inr (gs, r))"
          using a by (auto simp: map_sum_Inr_iff split: option.splits prod.splits)
        then show ?thesis using ih(2) by fastforce
      next
        case 3
        then obtain gs where "compile_set n cs' = Some (Inr (gs, r))"
          using a by (auto simp: map_sum_Inr_iff split: option.splits prod.splits)
        then show ?thesis using ih(2) by fastforce
      next
        case 4
        then obtain g where "compile_filt n cs' = Some (Inr (g, r))"
          using a by (auto simp: map_sum_Inr_iff split: option.splits prod.splits)
        then show ?thesis using ih(1) by fastforce
      next
        case 5
        then have "compile_item (c # cs') = Inr (f, r)" using a by auto
        then show ?thesis by (rule compile_item_shorter)
      qed
    qed
    have set: "length r < length (c # cs')" if a: "compile_set (Suc n) (c # cs') = Some (Inr (fs, r))"
    proof (cases "c = CHR ''(''")
      case True
      then obtain g r1 gs where "compile_filt n cs' = Some (Inr (g, r1))"
        "compile_set n r1 = Some (Inr (gs, r))"
        using a by (auto simp: map_sum_Inr_iff split: option.splits sum.splits prod.splits)
      then show ?thesis using ih by fastforce
    next
      case False
      then show ?thesis using a by auto
    qed
    show ?thesis using filt set Cons by blast
  qed
qed

text \<open>
  The filter compiler always returns: with more fuel than the length of its
  input, neither \<open>compileFilter\<close> nor \<open>compileFilterSet\<close> runs out, so
  \<open>compile_filter\<close>, which gives one more than the length, never takes its
  out-of-fuel branch.
\<close>

lemma compile_enough_fuel:
  "length cs < n \<Longrightarrow> compile_filt n cs \<noteq> None \<and> compile_set n cs \<noteq> None"
proof (induction n arbitrary: cs)
  case 0
  then show ?case by simp
next
  case (Suc n)
  show ?case
  proof (cases cs)
    case Nil
    then show ?thesis by simp
  next
    case (Cons c cs')
    have ih: "compile_filt n cs' \<noteq> None" "compile_set n cs' \<noteq> None"
      using Suc Cons by auto
    have "compile_set n r \<noteq> None" if "compile_filt n cs' = Some (Inr (g, r))" for g r
    proof -
      have "length r < length cs'" using compile_shorter [of n cs' g r] that by blast
      then show ?thesis using Suc.IH [of r] Suc.prems Cons by simp
    qed
    then show ?thesis using ih Cons
      by (auto split: option.splits sum.splits list.splits prod.splits)
  qed
qed

subsection \<open>Escaping round trip\<close>

lemma hex_val_hexchars: "d < 16 \<Longrightarrow> hex_val (hexchars ! d) = Some d"
proof -
  have "\<forall>d\<in>set [0..<16]. hex_val (hexchars ! d) = Some d"
    by (simp add: hexchars_def hex_val_def upt_rec)
  then show "d < 16 \<Longrightarrow> ?thesis" by simp
qed

lemma char_of_hex_digits: "char_of (16 * (of_char c div 16) + of_char c mod 16 :: nat) = c"
  by simp

lemma of_char_div_16: "(of_char c :: nat) div 16 < 16"
  using nat_of_char_less_256 [of c] by (simp add: less_mult_imp_div_less)

lemma unescape_escape_char: "unescape (escape_char c @ s) = map_sum id (Cons c) (unescape s)"
proof -
  have hi: "(of_char c :: nat) div 16 < 16" by (rule of_char_div_16)
  have lo: "(of_char c :: nat) mod 16 < 16" by simp
  show ?thesis
    by (simp add: escape_char_def must_escape_def hex_val_hexchars [OF hi] hex_val_hexchars [OF lo])
qed

lemma unescape_escape_filter: "unescape (escape_filter s) = Inr s"
  by (induction s) (simp_all add: escape_filter_def unescape_escape_char [simplified escape_filter_def])


subsection \<open>Compiling a plain item\<close>

lemma split_attr_plain:
  "\<forall>x\<in>set a. \<not> filter_special x \<Longrightarrow> split_attr (a @ CHR ''='' # r) = (a, CHR ''='' # r)"
  by (induction a) (auto simp: filter_special_def)

lemma compile_filt_item:
  "c \<notin> set ''(&|!'' \<Longrightarrow> compile_filt (Suc n) (c # cs) = Some (compile_item (c # cs))"
  by simp


lemma compile_filter_item:
  assumes "\<forall>x\<in>set a. \<not> filter_special x" "CHR '')'' \<notin> set v"
  shows "compile_filter (CHR ''('' # a @ CHR ''='' # v @ '')'') = item_filter a ''='' v"
proof -
  let ?cs = "a @ CHR ''='' # v @ '')''"
  have hd: "\<exists>c cs'. ?cs = c # cs' \<and> c \<notin> set ''(&|!''"
    using assms(1) by (cases a) (auto simp: filter_special_def)
  have tw: "takeWhile (\<lambda>x. x \<noteq> CHR '')'') (v @ '')'') = v"
    using assms(2) by (subst takeWhile_append2) auto
  have dw: "dropWhile (\<lambda>x. x \<noteq> CHR '')'') (v @ '')'') = '')''"
    using assms(2) by (subst dropWhile_append2) auto
  have item: "compile_item ?cs = map_sum id (\<lambda>f. (f, [])) (item_filter a ''='' v)"
    by (simp add: compile_item_def split_attr_plain [OF assms(1)] tw dw Let_def)
  obtain c cs' where "?cs = c # cs'" "c \<notin> set ''(&|!''" using hd by blast
  then have "compile_filt (Suc (length ?cs)) ?cs = Some (compile_item ?cs)"
    by (simp del: compile_filt.simps add: compile_filt_item)
  then show ?thesis
    by (cases "item_filter a ''='' v") (simp_all add: compile_filter_def item)
qed

subsection \<open>The substring matcher meets its reference\<close>

lemma after_sub_Some: "after_sub p r = Some r' \<Longrightarrow> \<exists>u. r = u @ p @ r'"
proof (induction p r rule: after_sub.induct)
  case (1 p)
  then show ?case by (simp split: if_splits)
next
  case (2 p c cs)
  show ?case
  proof (cases "prefix p (c # cs)")
    case True
    then show ?thesis using 2 by (auto simp: prefix_def)
  next
    case False
    then obtain u where "cs = u @ p @ r'" using 2 by auto
    then show ?thesis by (metis append_Cons)
  qed
qed

lemma after_sub_leftmost:
  "r = u @ p @ w \<Longrightarrow> \<exists>r'. after_sub p r = Some r' \<and> suffix w r'"
proof (induction p r arbitrary: u rule: after_sub.induct)
  case (1 p)
  then show ?case by simp
next
  case (2 p c cs)
  show ?case
  proof (cases "prefix p (c # cs)")
    case True
    have "suffix w (c # cs)" using "2.prems" by (simp add: suffix_def)
    moreover have "suffix (drop (length p) (c # cs)) (c # cs)" by (rule suffix_drop)
    moreover have "length w \<le> length (drop (length p) (c # cs))"
      using "2.prems" by (metis append_eq_conv_conj diff_le_mono le_add2 length_append length_drop)
    ultimately have "suffix w (drop (length p) (c # cs))"
      by (metis suffix_length_suffix suffix_same_cases)
    then show ?thesis using True by simp
  next
    case False
    then obtain u' where "cs = u' @ p @ w"
      using "2.prems" by (cases u) (auto simp: prefix_def)
    then show ?thesis using "2.IH" False by simp
  qed
qed

lemma glob_ref_suffix_mono: "glob_ref as fin w \<Longrightarrow> suffix w w' \<Longrightarrow> glob_ref as fin w'"
proof (induction as arbitrary: w w')
  case Nil
  then show ?case using suffix_order.trans by auto
next
  case (Cons a as)
  then obtain u v where "w = u @ a @ v" "glob_ref as fin v" by auto
  moreover obtain t where "w' = t @ w" using Cons.prems(2) by (auto simp: suffix_def)
  ultimately show ?case by (metis append.assoc glob_ref.simps(2))
qed

lemma subs_match_glob_ref: "subs_match as fin r \<longleftrightarrow> glob_ref as fin r"
proof (induction as arbitrary: r)
  case Nil
  then show ?case by simp
next
  case (Cons a as)
  show ?case
  proof
    assume "subs_match (a # as) fin r"
    then obtain r' where "after_sub a r = Some r'" "subs_match as fin r'"
      by (auto split: option.splits)
    then show "glob_ref (a # as) fin r" using after_sub_Some Cons.IH by fastforce
  next
    assume "glob_ref (a # as) fin r"
    then obtain u w where "r = u @ a @ w" "glob_ref as fin w" by auto
    then obtain r' where "after_sub a r = Some r'" "suffix w r'"
      using after_sub_leftmost by blast
    then show "subs_match (a # as) fin r"
      using glob_ref_suffix_mono [OF \<open>glob_ref as fin w\<close>] Cons.IH by simp
  qed
qed

text \<open>
  The server's substring matcher, which places each any-substring at its
  leftmost occurrence, decides exactly the reference meaning of a substring
  assertion: initial substring, the any-substrings in order, final substring.
\<close>

lemma substr_match_ref:
  "substr_match ini anys fin v \<longleftrightarrow> (\<exists>w. v = ini @ w \<and> glob_ref anys fin w)"
  by (auto simp: substr_match_def subs_match_glob_ref prefix_def)

lemma item_filter_equal:
  "CHR ''*'' \<notin> set v \<Longrightarrow> item_filter a ''='' v = map_sum id (F_Equal a) (unescape v)"
  by (cases "unescape v") (auto simp: item_filter_def)

lemma item_filter_present: "item_filter a ''='' ''*'' = Inr (F_Present a)"
  by (simp add: item_filter_def)

lemma escape_char_plain: "CHR '')'' \<notin> set (escape_char c) \<and> CHR ''*'' \<notin> set (escape_char c)"
proof (cases "must_escape c")
  case True
  have hex: "x \<in> set hexchars \<Longrightarrow> x \<noteq> CHR '')'' \<and> x \<noteq> CHR ''*''" for x
    by (auto simp: hexchars_def)
  have "hexchars ! (of_char c div 16) \<in> set hexchars" "hexchars ! (of_char c mod 16) \<in> set hexchars"
    using of_char_div_16 [of c] by (simp_all add: hexchars_def nth_mem del: nth_Cons_numeral set_simps)
  then show ?thesis using True hex [of "hexchars ! (of_char c div 16)"] hex [of "hexchars ! (of_char c mod 16)"]
    by (simp add: escape_char_def) (metis (no_types))
next
  case False
  then show ?thesis by (auto simp: escape_char_def must_escape_def)
qed

lemma escape_filter_plain: "CHR '')'' \<notin> set (escape_filter s) \<and> CHR ''*'' \<notin> set (escape_filter s)"
  using escape_char_plain by (simp add: escape_filter_def)

subsection \<open>Text after a complete filter\<close>

text \<open>A successful parse does not look past the text it consumes, and more fuel
never changes a result: a complete filter followed by more text is the
compile error "extra at end".\<close>

lemma split_attr_ext: "split_attr s = (a, r) \<Longrightarrow> r \<noteq> [] \<Longrightarrow> split_attr (s @ x) = (a, r @ x)"
proof (induction s arbitrary: a)
  case Nil
  then show ?case by simp
next
  case (Cons c cs)
  show ?case
  proof (cases "c = CHR '')'' \<or> c = CHR ''='' \<or> c = CHR '':'' \<or>
                (c \<in> {CHR ''>'', CHR ''<'', CHR ''~''} \<and> cs \<noteq> [] \<and> hd cs = CHR ''='')")
    case True
    then show ?thesis using Cons.prems by auto
  next
    case False
    then obtain a' where a': "split_attr cs = (a', r)" "a = c # a'"
      using Cons.prems by (auto split: prod.splits)
    have "cs \<noteq> []" using a' Cons.prems(2) by auto
    then show ?thesis using False a' Cons.IH [OF a'(1) Cons.prems(2)] by auto
  qed
qed

lemma compile_item_ext:
  assumes "compile_item s = Inr (f, r)" shows "compile_item (s @ x) = Inr (f, r @ x)"
proof -
  obtain a rest where sa: "split_attr s = (a, rest)" by fastforce
  then obtain c r0 where r0: "rest = c # r0"
    using assms by (cases rest) (auto simp: compile_item_def)
  define r' where "r' = (if c = CHR ''='' then r0 else tl r0)"
  have ne: "dropWhile (\<lambda>x. x \<noteq> CHR '')'') r' \<noteq> []" and c: "c \<noteq> CHR '')''" "c \<noteq> CHR '':''"
    using assms sa r0 by (auto simp: compile_item_def r'_def Let_def map_sum_Inr_iff split: if_splits)
  have r0ne: "c \<noteq> CHR ''='' \<Longrightarrow> r0 \<noteq> []" using ne by (auto simp: r'_def)
  have ext: "split_attr (s @ x) = (a, c # r0 @ x)" using split_attr_ext [OF sa] r0 by simp
  have tw: "takeWhile (\<lambda>x. x \<noteq> CHR '')'') (r' @ x) = takeWhile (\<lambda>x. x \<noteq> CHR '')'') r'"
    and dw: "dropWhile (\<lambda>x. x \<noteq> CHR '')'') (r' @ x) = dropWhile (\<lambda>x. x \<noteq> CHR '')'') r' @ x"
    using ne by (auto simp: takeWhile_append1 dropWhile_append1 dropWhile_eq_Nil_conv)
  have tl_r': "(if c = CHR ''='' then r0 @ x else tl (r0 @ x)) = r' @ x"
    using r0ne by (auto simp: r'_def)
  show ?thesis
    using assms sa r0 c ext tw dw ne
    by (simp add: compile_item_def Let_def r'_def [symmetric] tl_r' hd_append r0ne map_sum_Inr_iff
        split: if_splits)
qed

lemma compile_ext:
  "(compile_filt n cs = Some (Inr (f, r)) \<longrightarrow> compile_filt n (cs @ x) = Some (Inr (f, r @ x))) \<and>
   (compile_set n cs = Some (Inr (fs, r)) \<longrightarrow> compile_set n (cs @ x) = Some (Inr (fs, r @ x)))"
proof (induction n arbitrary: cs f fs r)
  case 0
  then show ?case by simp
next
  case (Suc n)
  show ?case
  proof (cases cs)
    case Nil
    then show ?thesis by simp
  next
    case (Cons c cs')
    have filt: "compile_filt (Suc n) (c # cs' @ x) = Some (Inr (f, r @ x))"
      if a: "compile_filt (Suc n) (c # cs') = Some (Inr (f, r))"
    proof -
      consider "c = CHR ''(''" | "c = CHR ''&''" | "c = CHR ''|''" | "c = CHR ''!''"
        | "c \<notin> set ''(&|!''" by auto
      then show ?thesis
      proof cases
        case 1
        then obtain r1 where "compile_filt n cs' = Some (Inr (f, r1))" "r1 \<noteq> []" "r = tl r1"
          using a by (auto split: option.splits sum.splits list.splits prod.splits)
        then show ?thesis using 1 Suc.IH by (cases r1) auto
      next
        case 2
        then obtain fs where "compile_set n cs' = Some (Inr (fs, r))" "f = F_And fs"
          using a by (auto simp: map_sum_Inr_iff split: option.splits prod.splits)
        then show ?thesis using 2 Suc.IH by auto
      next
        case 3
        then obtain fs where "compile_set n cs' = Some (Inr (fs, r))" "f = F_Or fs"
          using a by (auto simp: map_sum_Inr_iff split: option.splits prod.splits)
        then show ?thesis using 3 Suc.IH by auto
      next
        case 4
        then obtain g where "compile_filt n cs' = Some (Inr (g, r))" "f = F_Not g"
          using a by (auto simp: map_sum_Inr_iff split: option.splits prod.splits)
        then show ?thesis using 4 Suc.IH by auto
      next
        case 5
        then have "compile_item (c # cs') = Inr (f, r)" using a by auto
        then show ?thesis using 5 compile_item_ext [of "c # cs'"] by auto
      qed
    qed
    have set: "compile_set (Suc n) (c # cs' @ x) = Some (Inr (fs, r @ x))"
      if a: "compile_set (Suc n) (c # cs') = Some (Inr (fs, r))"
    proof (cases "c = CHR ''(''")
      case True
      then obtain g r1 gs where "compile_filt n cs' = Some (Inr (g, r1))"
        "compile_set n r1 = Some (Inr (gs, r))" "fs = g # gs"
        using a by (auto simp: map_sum_Inr_iff split: option.splits sum.splits prod.splits)
      then show ?thesis using True Suc.IH by auto
    next
      case False
      then show ?thesis using a by auto
    qed
    show ?thesis using filt set Cons by auto
  qed
qed

lemma compile_fuel_mono:
  "n \<le> m \<Longrightarrow> (compile_filt n cs = Some v \<longrightarrow> compile_filt m cs = Some v) \<and>
              (compile_set n cs = Some vs \<longrightarrow> compile_set m cs = Some vs)"
proof (induction n arbitrary: m cs v vs)
  case 0
  then show ?case by simp
next
  case (Suc n)
  then obtain m' where m: "m = Suc m'" "n \<le> m'" by (cases m) auto
  have filt: "compile_filt n xs = Some u \<Longrightarrow> compile_filt m' xs = Some u" for xs u
    using Suc.IH [OF m(2)] by blast
  have set: "compile_set n xs = Some us \<Longrightarrow> compile_set m' xs = Some us" for xs us
    using Suc.IH [OF m(2)] by blast
  show ?case
  proof (cases cs)
    case Nil
    then show ?thesis using m by simp
  next
    case (Cons c cs')
    show ?thesis
      using filt set unfolding Cons m
      by (auto split: option.splits sum.splits list.splits prod.splits if_splits
          simp del: compile_filt.simps(1) compile_set.simps(1))
  qed
qed

text \<open>A filter followed by more text is rejected with that text as the extra.\<close>

lemma compile_filter_extra:
  assumes "compile_filter p = Inr f" and "x \<noteq> []"
  shows "compile_filter (p @ x) = Inl (err_extra @ x)"
proof -
  obtain cs where p: "p = CHR ''('' # cs" and c: "compile_filt (Suc (length cs)) cs = Some (Inr (f, []))"
    using assms(1)
    by (auto simp: compile_filter_def split: list.splits if_splits option.splits sum.splits prod.splits)
  have "compile_filt (Suc (length cs)) (cs @ x) = Some (Inr (f, x))"
    using compile_ext [of "Suc (length cs)" cs f "[]"] c by simp
  then have "compile_filt (Suc (length (cs @ x))) (cs @ x) = Some (Inr (f, x))"
    using compile_fuel_mono [of "Suc (length cs)" "Suc (length (cs @ x))"] by simp
  then show ?thesis using assms(2) p by (cases x) (simp_all add: compile_filter_def)
qed

text \<open>Equality items on a plain attribute, followed by any text: the parse of
an item does not depend on what follows it.\<close>

lemma unescape_plain: "CHR 0x5C \<notin> set t \<Longrightarrow> unescape t = Inr t"
  by (induction t) auto

lemma compile_item_equal_rest:
  assumes "\<forall>x\<in>set a. \<not> filter_special x"
    and "CHR '')'' \<notin> set v" and "CHR ''*'' \<notin> set v" and "CHR 0x5C \<notin> set v"
  shows "compile_item (a @ CHR ''='' # v @ CHR '')'' # r) = Inr (F_Equal a v, r)"
proof -
  have tw: "takeWhile (\<lambda>x. x \<noteq> CHR '')'') (v @ CHR '')'' # r) = v"
    using assms(2) by (subst takeWhile_append2) auto
  have dw: "dropWhile (\<lambda>x. x \<noteq> CHR '')'') (v @ CHR '')'' # r) = CHR '')'' # r"
    using assms(2) by (subst dropWhile_append2) auto
  have "v \<noteq> ''*''" using assms(3) by auto
  then show ?thesis
    using assms(3) by (simp add: compile_item_def split_attr_plain [OF assms(1)] tw dw Let_def item_filter_def
        unescape_plain [OF assms(4)])
qed

text \<open>An equality item at any fuel, for the first character of a plain attribute.\<close>

lemma compile_filt_equal:
  assumes "\<forall>x\<in>set a. \<not> filter_special x"
    and "CHR '')'' \<notin> set v" and "CHR ''*'' \<notin> set v" and "CHR 0x5C \<notin> set v"
  shows "compile_filt (Suc n) (a @ CHR ''='' # v @ CHR '')'' # r) = Some (Inr (F_Equal a v, r))"
proof -
  have "\<exists>c cs. a @ CHR ''='' # v @ CHR '')'' # r = c # cs \<and> c \<notin> set ''(&|!''"
    using assms(1) by (cases a) (auto simp: filter_special_def)
  then show ?thesis using compile_filt_item compile_item_equal_rest [OF assms] by (metis (no_types))
qed

lemma plain_value:
  assumes "\<forall>x\<in>set v. \<not> filter_special x"
  shows "CHR '')'' \<notin> set v" and "CHR ''*'' \<notin> set v" and "CHR 0x5C \<notin> set v"
  using assms by (auto simp: filter_special_def)

text \<open>A disjunction of two equality items; the second value may hold an opening
parenthesis.\<close>

lemma compile_filter_or_pair:
  assumes "\<forall>x\<in>set a. \<not> filter_special x" and "\<forall>x\<in>set u. \<not> filter_special x"
    and "\<forall>x\<in>set b. \<not> filter_special x"
    and "CHR '')'' \<notin> set v" and "CHR ''*'' \<notin> set v" and "CHR 0x5C \<notin> set v"
  shows "compile_filter (CHR ''('' # CHR ''|'' # CHR ''('' # a @ CHR ''='' # u @ CHR '')'' #
                           CHR ''('' # b @ CHR ''='' # v @ ''))'') =
           Inr (F_Or [F_Equal a u, F_Equal b v])"
proof -
  have i1: "compile_filt (Suc n) (a @ CHR ''='' # u @ CHR '')'' # CHR ''('' # b @ CHR ''='' # v @ ''))'') =
              Some (Inr (F_Equal a u, CHR ''('' # b @ CHR ''='' # v @ ''))''))" for n
    by (rule compile_filt_equal [OF assms(1) plain_value [OF assms(2)]])
  have i2: "compile_filt (Suc n) (b @ CHR ''='' # v @ ''))'') = Some (Inr (F_Equal b v, '')''))" for n
    using compile_filt_equal [OF assms(3-6), of n "'')''"] by simp
  show ?thesis by (simp add: compile_filter_def i1 i2)
qed

end
