(* ===== verification/Ldap_Lib.thy ===== *)
theory Ldap_Lib
  imports Go_Fmt Ldap_Filter
begin

text \<open>
  The collaborator the client calls: the session object of \<open>gopkg.in/ldap.v2\<close>
  (\<open>Dial\<close>, \<open>DialTLS\<close>, \<open>StartTLS\<close>, \<open>Bind\<close>, \<open>Search\<close>, \<open>Close\<close>,
  \<open>NewSearchRequest\<close>, \<open>Entry.GetAttributeValue\<close>), the directory server behind it,
  and the two effects of the Go runtime the retry loop uses (\<open>log.Printf\<close>,
  \<open>time.Sleep\<close>). None of this is code of the repository; it is modelled from the
  external interface of the specification (section 6) and the library's documented
  behaviour, so that the client's operations can be stated over it.

  Everything the collaborator does is a function on a \<open>world\<close>: the server, the
  table of connections opened so far (a connection handle is its index, as a
  \<open>*ldap.Conn\<close> pointer names one connection) and the trace of every call in the
  order it was issued. The trace is what a test double records; properties about
  the number of dials, the backoff sleeps and the order of binds are read off it.
\<close>

subsection \<open>Errors, entries, search requests\<close>

datatype error =
    Ldap_Error nat string  \<comment> \<open>\<open>*ldap.Error\<close>: result code and message\<close>
  | Errors_New string      \<comment> \<open>\<open>errors.New(text)\<close>\<close>
  | Go_Panic string        \<comment> \<open>a run-time panic (nil pointer dereference)\<close>

definition err_network :: "string \<Rightarrow> error" where
  "err_network msg = Ldap_Error 200 msg"   \<comment> \<open>\<open>ldap.ErrorNetwork\<close>\<close>

definition err_closed :: error where
  "err_closed = err_network ''ldap: connection closed''"

record entry =
  entry_dn :: string
  entry_attributes :: "(string \<times> string list) list"  \<comment> \<open>\<open>[]*EntryAttribute{Name, Values}\<close>\<close>

text \<open>\<open>Entry.GetAttributeValues\<close> and \<open>Entry.GetAttributeValue\<close> (ldap.v2 \<open>search.go\<close>).\<close>

definition get_attribute_values :: "entry \<Rightarrow> string \<Rightarrow> string list" where
  "get_attribute_values e a =
     (case find (\<lambda>(n, _). n = a) (entry_attributes e) of None \<Rightarrow> [] | Some (_, vs) \<Rightarrow> vs)"

definition get_attribute_value :: "entry \<Rightarrow> string \<Rightarrow> string" where
  "get_attribute_value e a = (case get_attribute_values e a of [] \<Rightarrow> [] | v # _ \<Rightarrow> v)"

datatype scope = ScopeBaseObject | ScopeSingleLevel | ScopeWholeSubtree

datatype deref_aliases = NeverDerefAliases | DerefInSearching | DerefFindingBaseObj | DerefAlways

record search_request =
  sr_BaseDN :: string
  sr_Scope :: scope
  sr_DerefAliases :: deref_aliases
  sr_SizeLimit :: int
  sr_TimeLimit :: int
  sr_TypesOnly :: bool
  sr_Filter :: string
  sr_Attributes :: "string list"

definition new_search_request ::
  "string \<Rightarrow> scope \<Rightarrow> deref_aliases \<Rightarrow> int \<Rightarrow> int \<Rightarrow> bool \<Rightarrow> string \<Rightarrow> string list \<Rightarrow> search_request" where
  "new_search_request b s d sl tml t f attrs =
     \<lparr>sr_BaseDN = b, sr_Scope = s, sr_DerefAliases = d, sr_SizeLimit = sl, sr_TimeLimit = tml,
      sr_TypesOnly = t, sr_Filter = f, sr_Attributes = attrs\<rparr>"

subsection \<open>The server\<close>

text \<open>
  The server listens on one address, may or may not grant StartTLS, presents a
  certificate for a list of host names, holds a list of entries and the passwords of
  some DNs, decides whether a simple bind with an empty password (an
  \<^emph>\<open>unauthenticated bind\<close>, RFC 4513 section 5.1.2) succeeds, evaluates the
  compiled filter of a request on each entry (\<open>Ldap_Filter.filt_eval\<close>), and answers the search requests whose index (counting
  every search on every connection from 0) is in \<open>srv_busy\<close> with the transient
  result \<open>busy\<close> (51), and likewise the bind requests whose index is in
  \<open>srv_bind_busy\<close>. Access control and DN case-folding are not modelled.
\<close>

record server =
  srv_address :: string
  srv_start_tls :: bool
  srv_cert_names :: "string list"
  srv_entries :: "entry list"
  srv_passwords :: "(string \<times> string) list"
  srv_unauth_bind :: bool
  srv_busy :: "nat set"
  srv_bind_busy :: "nat set"

definition ends_with :: "string \<Rightarrow> string \<Rightarrow> bool" where
  "ends_with s suf \<longleftrightarrow> length suf \<le> length s \<and> drop (length s - length suf) s = suf"

definition in_scope :: "string \<Rightarrow> scope \<Rightarrow> string \<Rightarrow> bool" where
  "in_scope base sc dn =
     (case sc of
        ScopeBaseObject \<Rightarrow> dn = base
      | ScopeSingleLevel \<Rightarrow> ends_with dn (CHR '','' # base)
           \<and> CHR '','' \<notin> set (take (length dn - Suc (length base)) dn)
      | ScopeWholeSubtree \<Rightarrow> base = [] \<or> dn = base \<or> ends_with dn (CHR '','' # base))"

text \<open>The server returns only the requested attributes; none requested, or \<open>*\<close>, means all.\<close>

definition project :: "string list \<Rightarrow> entry \<Rightarrow> entry" where
  "project attrs e =
     (if attrs = [] \<or> ''*'' \<in> set attrs then e
      else e\<lparr>entry_attributes := filter (\<lambda>(n, _). n \<in> set attrs) (entry_attributes e)\<rparr>)"

text \<open>The server receives the compiled filter: a filter string selects the entries
its compilation holds for, and nothing when it does not compile (such a request is
never sent, see \<open>ldap_search\<close>).\<close>

definition filter_matches :: "string \<Rightarrow> entry \<Rightarrow> bool" where
  "filter_matches fs e =
     (case compile_filter fs of Inl _ \<Rightarrow> False | Inr f \<Rightarrow> filt_eval (get_attribute_values e) f)"

definition filter_ok :: "string \<Rightarrow> bool" where
  "filter_ok fs = (case compile_filter fs of Inl _ \<Rightarrow> False | Inr _ \<Rightarrow> True)"

definition matching_entries :: "server \<Rightarrow> string \<Rightarrow> scope \<Rightarrow> string \<Rightarrow> entry list" where
  "matching_entries s base sc filt =
     filter (\<lambda>e. in_scope base sc (entry_dn e) \<and> filter_matches filt e) (srv_entries s)"

definition server_search :: "server \<Rightarrow> search_request \<Rightarrow> entry list" where
  "server_search s req =
     map (project (sr_Attributes req)) (matching_entries s (sr_BaseDN req) (sr_Scope req) (sr_Filter req))"

definition bind_ok :: "server \<Rightarrow> string \<Rightarrow> string \<Rightarrow> bool" where
  "bind_ok s dn pw = (if pw = [] then srv_unauth_bind s else map_of (srv_passwords s) dn = Some pw)"

text \<open>\<open>crypto/tls\<close>: with an empty \<open>ServerName\<close> the host part of the address is verified.\<close>

definition host_of :: "string \<Rightarrow> string" where
  "host_of addr = (case dropWhile (\<lambda>c. c \<noteq> CHR '':'') (rev addr) of [] \<Rightarrow> addr | _ # r \<Rightarrow> rev r)"

subsection \<open>Connections, events, the world\<close>

record conn_st =
  cs_open :: bool
  cs_tls :: bool
  cs_bound :: "string option"   \<comment> \<open>DN of the last successful bind; \<open>None\<close>: anonymous\<close>

datatype event =
    Ev_Dial string                  \<comment> \<open>\<open>ldap.Dial("tcp", addr)\<close>\<close>
  | Ev_StartTLS nat bool            \<comment> \<open>\<open>l.StartTLS(&tls.Config{InsecureSkipVerify: b})\<close>\<close>
  | Ev_DialTLS string bool string   \<comment> \<open>\<open>ldap.DialTLS("tcp", addr, config)\<close>\<close>
  | Ev_Bind nat string string       \<comment> \<open>\<open>l.Bind(dn, password)\<close>\<close>
  | Ev_Search nat search_request    \<comment> \<open>\<open>l.Search(req)\<close>\<close>
  | Ev_Log_Retry search_request int \<comment> \<open>\<open>log.Printf("Retrying: [%s:%d] \n", req, retry)\<close>\<close>
  | Ev_Sleep int                    \<comment> \<open>\<open>time.Sleep(d)\<close>, d in nanoseconds\<close>
  | Ev_Close nat                    \<comment> \<open>\<open>l.Close()\<close>\<close>

record world =
  srv :: server
  conns :: "conn_st list"
  trace :: "event list"

definition emit :: "event \<Rightarrow> world \<Rightarrow> world" where
  "emit ev w = w\<lparr>trace := trace w @ [ev]\<rparr>"

definition conn_open :: "world \<Rightarrow> nat \<Rightarrow> bool" where
  "conn_open w h \<longleftrightarrow> h < length (conns w) \<and> cs_open (conns w ! h)"

definition new_conn :: "bool \<Rightarrow> world \<Rightarrow> nat \<times> world" where
  "new_conn tls w =
     (length (conns w), w\<lparr>conns := conns w @ [\<lparr>cs_open = True, cs_tls = tls, cs_bound = None\<rparr>]\<rparr>)"

definition set_conn :: "nat \<Rightarrow> (conn_st \<Rightarrow> conn_st) \<Rightarrow> world \<Rightarrow> world" where
  "set_conn h f w = w\<lparr>conns := (conns w)[h := f (conns w ! h)]\<rparr>"

fun is_search :: "event \<Rightarrow> bool" where
  "is_search (Ev_Search _ _) = True"
| "is_search _ = False"

fun is_dial :: "event \<Rightarrow> bool" where
  "is_dial (Ev_Dial _) = True"
| "is_dial (Ev_DialTLS _ _ _) = True"
| "is_dial _ = False"

fun is_bind :: "event \<Rightarrow> bool" where
  "is_bind (Ev_Bind _ _ _) = True"
| "is_bind _ = False"

definition search_count :: "world \<Rightarrow> nat" where
  "search_count w = length (filter is_search (trace w))"

definition bind_count :: "world \<Rightarrow> nat" where
  "bind_count w = length (filter is_bind (trace w))"

text \<open>Whether the next bind on an open connection succeeds, and its error if not.\<close>

definition bind_succeeds :: "world \<Rightarrow> string \<Rightarrow> string \<Rightarrow> bool" where
  "bind_succeeds w dn pw \<longleftrightarrow> bind_count w \<notin> srv_bind_busy (srv w) \<and> bind_ok (srv w) dn pw"

subsection \<open>The session primitives\<close>

definition ldap_dial :: "string \<Rightarrow> world \<Rightarrow> (error + nat) \<times> world" where
  "ldap_dial addr w =
     (let w1 = emit (Ev_Dial addr) w in
      if addr = srv_address (srv w) then (case new_conn False w1 of (h, w2) \<Rightarrow> (Inr h, w2))
      else (Inl (err_network (''dial tcp '' @ addr @ '': connection refused'')), w1))"

definition ldap_start_tls :: "nat \<Rightarrow> bool \<Rightarrow> world \<Rightarrow> (error + unit) \<times> world" where
  "ldap_start_tls h insecure w =
     (let w1 = emit (Ev_StartTLS h insecure) w in
      if \<not> conn_open w h then (Inl err_closed, w1)
      else if cs_tls (conns w ! h) then (Inl (err_network ''ldap: already encrypted''), w1)
      else if \<not> srv_start_tls (srv w) then (Inl (Ldap_Error 2 ''ldap: cannot StartTLS''), w1)
      else if \<not> insecure then
        (Inl (err_network ''TLS handshake failed''), set_conn h (\<lambda>c. c\<lparr>cs_open := False\<rparr>) w1)
      else (Inr (), set_conn h (\<lambda>c. c\<lparr>cs_tls := True\<rparr>) w1))"

definition ldap_dial_tls :: "string \<Rightarrow> bool \<Rightarrow> string \<Rightarrow> world \<Rightarrow> (error + nat) \<times> world" where
  "ldap_dial_tls addr insecure name w =
     (let w1 = emit (Ev_DialTLS addr insecure name) w;
          sni = (if name = [] then host_of addr else name) in
      if addr \<noteq> srv_address (srv w) then
        (Inl (err_network (''dial tcp '' @ addr @ '': connection refused'')), w1)
      else if \<not> insecure \<and> sni \<notin> set (srv_cert_names (srv w)) then
        (Inl (err_network (''x509: certificate is not valid for '' @ sni)), w1)
      else (case new_conn True w1 of (h, w2) \<Rightarrow> (Inr h, w2)))"

definition busy_err :: error where
  "busy_err = Ldap_Error 51 ''Busy''"

definition invalid_credentials :: error where
  "invalid_credentials = Ldap_Error 49 ''Invalid Credentials''"

definition set_bound :: "nat \<Rightarrow> string option \<Rightarrow> world \<Rightarrow> world" where
  "set_bound h b w = set_conn h (\<lambda>c. c\<lparr>cs_bound := b\<rparr>) w"

text \<open>A failed bind leaves the connection anonymous (RFC 4513 section 4).\<close>

definition ldap_bind :: "nat \<Rightarrow> string \<Rightarrow> string \<Rightarrow> world \<Rightarrow> (error + unit) \<times> world" where
  "ldap_bind h dn pw w =
     (let w1 = emit (Ev_Bind h dn pw) w in
      if \<not> conn_open w h then (Inl err_closed, w1)
      else if bind_count w \<in> srv_bind_busy (srv w) then (Inl busy_err, set_bound h None w1)
      else if bind_ok (srv w) dn pw then (Inr (), set_bound h (Some dn) w1)
      else (Inl invalid_credentials, set_bound h None w1))"

text \<open>\<open>Conn.Search\<close> encodes the request before sending it: a filter that does
not compile fails with \<open>ErrorFilterCompile\<close> (201) whatever the state of the
connection.\<close>

definition filter_error :: "string \<Rightarrow> error" where
  "filter_error msg = Ldap_Error 201 msg"

definition ldap_search :: "nat \<Rightarrow> search_request \<Rightarrow> world \<Rightarrow> (error + entry list) \<times> world" where
  "ldap_search h req w =
     (let w1 = emit (Ev_Search h req) w in
      case compile_filter (sr_Filter req) of
        Inl msg \<Rightarrow> (Inl (filter_error msg), w1)
      | Inr _ \<Rightarrow>
          if \<not> conn_open w h then (Inl err_closed, w1)
          else if search_count w \<in> srv_busy (srv w) then (Inl busy_err, w1)
          else (Inr (server_search (srv w) req), w1))"

definition ldap_close :: "nat \<Rightarrow> world \<Rightarrow> world" where
  "ldap_close h w = set_conn h (\<lambda>c. c\<lparr>cs_open := False\<rparr>) (emit (Ev_Close h) w)"

definition go_log_retry :: "search_request \<Rightarrow> int \<Rightarrow> world \<Rightarrow> world" where
  "go_log_retry req retry w = emit (Ev_Log_Retry req retry) w"

definition time_Second :: int where
  "time_Second = 1000000000"

definition go_sleep :: "int \<Rightarrow> world \<Rightarrow> world" where
  "go_sleep d w = emit (Ev_Sleep d) w"

subsection \<open>Attribute lookup through the projection\<close>

lemma find_filter_weaker:
  "(\<And>x. P x \<Longrightarrow> Q x) \<Longrightarrow> find P (filter Q xs) = find P xs"
  by (induction xs) auto

text \<open>An attribute the request asked for reads the same in the returned entry.\<close>

lemma get_attribute_value_project:
  "a \<in> set attrs \<Longrightarrow> get_attribute_value (project attrs e) a = get_attribute_value e a"
  using find_filter_weaker [of "\<lambda>(n, _). n = a" "\<lambda>(n, _). n \<in> set attrs" "entry_attributes e"]
  by (auto simp: project_def get_attribute_values_def get_attribute_value_def)

subsection \<open>Host names\<close>

subsection \<open>Frame lemmas\<close>

text \<open>
  Each primitive appends its own event to the trace, leaves the server alone, and
  only ever adds connections (a dial) or updates one in place.
\<close>

lemma emit_simps [simp]:
  "trace (emit ev w) = trace w @ [ev]" "srv (emit ev w) = srv w" "conns (emit ev w) = conns w"
  by (simp_all add: emit_def)

lemma set_conn_simps [simp]:
  "trace (set_conn h f w) = trace w" "srv (set_conn h f w) = srv w"
  "length (conns (set_conn h f w)) = length (conns w)"
  by (simp_all add: set_conn_def)

lemma new_conn_simps [simp]:
  "trace (snd (new_conn b w)) = trace w" "srv (snd (new_conn b w)) = srv w"
  "length (conns (snd (new_conn b w))) = Suc (length (conns w))"
  by (simp_all add: new_conn_def)

lemma conn_open_set_conn:
  "conn_open (set_conn h f w) h' =
     (if h' = h then h < length (conns w) \<and> cs_open (f (conns w ! h)) else conn_open w h')"
  by (auto simp: conn_open_def set_conn_def nth_list_update)

text \<open>A search changes nothing but the trace.\<close>

lemma snd_ldap_search [simp]: "snd (ldap_search h req w) = emit (Ev_Search h req) w"
  by (simp add: ldap_search_def Let_def split: sum.splits)

lemma trace_prims [world_simps]:
  "trace (snd (ldap_dial addr w)) = trace w @ [Ev_Dial addr]"
  "trace (snd (ldap_start_tls h b w)) = trace w @ [Ev_StartTLS h b]"
  "trace (snd (ldap_dial_tls addr b n w)) = trace w @ [Ev_DialTLS addr b n]"
  "trace (snd (ldap_bind h dn pw w)) = trace w @ [Ev_Bind h dn pw]"
  "trace (snd (ldap_search h req w)) = trace w @ [Ev_Search h req]"
  "trace (ldap_close h w) = trace w @ [Ev_Close h]"
  "trace (go_log_retry req r w) = trace w @ [Ev_Log_Retry req r]"
  "trace (go_sleep d w) = trace w @ [Ev_Sleep d]"
  by (simp_all add: ldap_dial_def ldap_start_tls_def ldap_dial_tls_def ldap_bind_def
      ldap_close_def go_log_retry_def go_sleep_def Let_def new_conn_def set_bound_def)

lemma srv_prims [world_simps]:
  "srv (snd (ldap_dial addr w)) = srv w"
  "srv (snd (ldap_start_tls h b w)) = srv w"
  "srv (snd (ldap_dial_tls addr b n w)) = srv w"
  "srv (snd (ldap_bind h dn pw w)) = srv w"
  "srv (snd (ldap_search h req w)) = srv w"
  "srv (ldap_close h w) = srv w"
  "srv (go_log_retry req r w) = srv w"
  "srv (go_sleep d w) = srv w"
  by (simp_all add: ldap_dial_def ldap_start_tls_def ldap_dial_tls_def ldap_bind_def
      ldap_close_def go_log_retry_def go_sleep_def Let_def new_conn_def set_bound_def)

lemma conns_prims [world_simps]:
  "conns (snd (ldap_search h req w)) = conns w"
  "conns (go_log_retry req r w) = conns w"
  "conns (go_sleep d w) = conns w"
  "length (conns (snd (ldap_start_tls h b w))) = length (conns w)"
  "length (conns (snd (ldap_bind h dn pw w))) = length (conns w)"
  "length (conns (ldap_close h w)) = length (conns w)"
  by (simp_all add: ldap_start_tls_def ldap_bind_def ldap_close_def
      go_log_retry_def go_sleep_def Let_def set_bound_def)

text \<open>A successful dial returns the handle of a new, open connection.\<close>

lemma ldap_dial_Inr:
  "ldap_dial addr w = (Inr h, w') \<Longrightarrow> h = length (conns w) \<and> conn_open w' h \<and> length (conns w') = Suc h"
  by (auto simp: ldap_dial_def Let_def new_conn_def conn_open_def split: if_splits)

lemma ldap_dial_tls_Inr:
  "ldap_dial_tls addr b n w = (Inr h, w') \<Longrightarrow> h = length (conns w) \<and> conn_open w' h \<and> length (conns w') = Suc h"
  by (auto simp: ldap_dial_tls_def Let_def new_conn_def conn_open_def split: if_splits)

lemma ldap_dial_Inl: "ldap_dial addr w = (Inl e, w') \<Longrightarrow> conns w' = conns w"
  by (auto simp: ldap_dial_def Let_def split: if_splits prod.splits)

lemma ldap_dial_tls_Inl: "ldap_dial_tls addr b n w = (Inl e, w') \<Longrightarrow> conns w' = conns w"
  by (auto simp: ldap_dial_tls_def Let_def split: if_splits prod.splits)

lemma length_conns_dials [world_simps]:
  "length (conns w) \<le> length (conns (snd (ldap_dial addr w)))"
  "length (conns w) \<le> length (conns (snd (ldap_dial_tls addr b n w)))"
  by (simp_all add: ldap_dial_def ldap_dial_tls_def Let_def new_conn_def)

lemma ldap_search_open:
  "filter_ok (sr_Filter req) \<Longrightarrow> conn_open w h \<Longrightarrow> search_count w \<notin> srv_busy (srv w) \<Longrightarrow>
   ldap_search h req w = (Inr (server_search (srv w) req), emit (Ev_Search h req) w)"
  by (simp add: ldap_search_def filter_ok_def split: sum.splits)

lemma ldap_search_busy:
  "filter_ok (sr_Filter req) \<Longrightarrow> conn_open w h \<Longrightarrow> search_count w \<in> srv_busy (srv w) \<Longrightarrow>
   ldap_search h req w = (Inl busy_err, emit (Ev_Search h req) w)"
  by (simp add: ldap_search_def filter_ok_def split: sum.splits)

lemma ldap_search_closed:
  "filter_ok (sr_Filter req) \<Longrightarrow> \<not> conn_open w h \<Longrightarrow> ldap_search h req w = (Inl err_closed, emit (Ev_Search h req) w)"
  by (simp add: ldap_search_def filter_ok_def split: sum.splits)

lemma ldap_search_bad_filter:
  "compile_filter (sr_Filter req) = Inl msg \<Longrightarrow>
   ldap_search h req w = (Inl (filter_error msg), emit (Ev_Search h req) w)"
  by (simp add: ldap_search_def filter_ok_def)

lemma filter_ok_matches: "filter_matches fs e \<Longrightarrow> filter_ok fs"
  by (simp add: filter_matches_def filter_ok_def split: sum.splits)

lemma ldap_search_world: "ldap_search h req w = (r, w') \<Longrightarrow> w' = emit (Ev_Search h req) w"
  using snd_ldap_search [of h req w] by simp

lemma search_count_emit [simp]:
  "search_count (emit ev w) = search_count w + (if is_search ev then 1 else 0)"
  by (simp add: search_count_def)

lemma conn_open_emit [simp]: "conn_open (emit ev w) h = conn_open w h"
  by (simp add: conn_open_def)

lemma bind_count_emit [simp]:
  "bind_count (emit ev w) = bind_count w + (if is_bind ev then 1 else 0)"
  by (simp add: bind_count_def)

lemma counts_set_conn [simp]:
  "search_count (set_conn h f w) = search_count w" "bind_count (set_conn h f w) = bind_count w"
  by (simp_all add: search_count_def bind_count_def)

text \<open>A bind on an open connection, by its outcome; the connection stays open.\<close>

lemma ldap_bind_open:
  assumes "conn_open w h"
  shows "ldap_bind h dn pw w =
    (if bind_succeeds w dn pw then (Inr (), set_bound h (Some dn) (emit (Ev_Bind h dn pw) w))
     else (Inl (if bind_count w \<in> srv_bind_busy (srv w) then busy_err else invalid_credentials),
           set_bound h None (emit (Ev_Bind h dn pw) w)))"
  using assms by (simp add: ldap_bind_def bind_succeeds_def Let_def)

lemma set_bound_simps [simp]:
  "conn_open (set_bound h b w) h' = conn_open w h'"
  "search_count (set_bound h b w) = search_count w" "bind_count (set_bound h b w) = bind_count w"
  "srv (set_bound h b w) = srv w" "trace (set_bound h b w) = trace w"
  "length (conns (set_bound h b w)) = length (conns w)"
  by (cases "h = h'"; cases "h' < length (conns w)")
     (simp_all add: set_bound_def conn_open_def set_conn_def search_count_def bind_count_def)

lemma cs_bound_set_bound [simp]:
  "h < length (conns w) \<Longrightarrow> cs_bound (conns (set_bound h b w) ! h) = b"
  by (simp add: set_bound_def set_conn_def)

end
