(* ===== verification/Client_Connect.thy ===== *)
theory Client_Connect
  imports Ldap_Lib
begin

text \<open>
  The client object \<open>LDAPClient\<close> of \<open>src/ldap-client.go\<close> and its connection
  lifecycle: \<open>Connect\<close> (lazy, plaintext dial upgraded by StartTLS without
  certificate verification, or a verified TLS dial) and \<open>Close\<close>. A method with a
  pointer receiver returns the updated client next to the world; a Go \<open>error\<close> result
  is an \<open>error option\<close>, \<open>None\<close> for \<open>nil\<close>.
\<close>

record ldap_client =
  Conn :: "nat option"   \<comment> \<open>\<open>*ldap.Conn\<close>; \<open>None\<close> is \<open>nil\<close>\<close>
  Host :: string
  Port :: int
  UseSSL :: bool
  BindDN :: string
  BindPassword :: string
  GroupFilter :: string
  UserFilter :: string
  Base :: string
  Attributes :: "string list"
  ServerName :: string

definition server_address :: "ldap_client \<Rightarrow> string" where
  "server_address lc = go_sprintf ''%s:%d'' [Go_String (Host lc), Go_Int (Port lc)]"

text \<open>The body of \<open>Connect\<close> that obtains \<open>l\<close>: both branches with their early returns.\<close>

definition dial_conn :: "ldap_client \<Rightarrow> world \<Rightarrow> (error + nat) \<times> world" where
  "dial_conn lc w =
     (let address = server_address lc in
      if \<not> UseSSL lc then
        (case ldap_dial address w of
           (Inl err, w1) \<Rightarrow> (Inl err, w1)
         | (Inr l, w1) \<Rightarrow>
             (case ldap_start_tls l True w1 of
                (Inl err, w2) \<Rightarrow> (Inl err, w2)
              | (Inr _, w2) \<Rightarrow> (Inr l, w2)))
      else
        (case ldap_dial_tls address False (ServerName lc) w of
           (Inl err, w1) \<Rightarrow> (Inl err, w1)
         | (Inr l, w1) \<Rightarrow> (Inr l, w1)))"

definition connect :: "ldap_client \<Rightarrow> world \<Rightarrow> error option \<times> ldap_client \<times> world" where
  "connect lc w =
     (if Conn lc = None then
        (case dial_conn lc w of
           (Inl err, w1) \<Rightarrow> (Some err, lc, w1)
         | (Inr l, w1) \<Rightarrow> (None, lc\<lparr>Conn := Some l\<rparr>, w1))
      else (None, lc, w))"

definition close :: "ldap_client \<Rightarrow> world \<Rightarrow> ldap_client \<times> world" where
  "close lc w = (case Conn lc of None \<Rightarrow> (lc, w) | Some h \<Rightarrow> (lc, ldap_close h w))"

text \<open>The name the verified TLS dial checks the certificate against.\<close>

definition tls_name :: "ldap_client \<Rightarrow> string" where
  "tls_name lc = (if ServerName lc = [] then host_of (server_address lc) else ServerName lc)"

text \<open>
  The client invariant: a connection the client holds is one the world has
  opened. Only \<open>Connect\<close> writes \<open>Conn\<close>, and only with a handle a dial returned.
\<close>

definition client_inv :: "ldap_client \<Rightarrow> world \<Rightarrow> bool" where
  "client_inv lc w \<longleftrightarrow> (case Conn lc of None \<Rightarrow> True | Some h \<Rightarrow> h < length (conns w))"

text \<open>Everything of the client but \<open>Conn\<close> is its configuration.\<close>

definition same_config :: "ldap_client \<Rightarrow> ldap_client \<Rightarrow> bool" where
  "same_config lc lc' \<longleftrightarrow> lc' = lc\<lparr>Conn := Conn lc'\<rparr>"

subsection \<open>Lemmas\<close>

lemma same_config_refl [simp]: "same_config lc lc"
  by (simp add: same_config_def)

lemma same_config_Conn [simp]: "same_config lc (lc\<lparr>Conn := c\<rparr>)"
  by (simp add: same_config_def)

lemma same_config_trans: "same_config a b \<Longrightarrow> same_config b c \<Longrightarrow> same_config a c"
  by (simp add: same_config_def) (metis ldap_client.update_convs(1) ldap_client.surjective)

lemma same_config_fields:
  "same_config lc lc' \<Longrightarrow>
     Host lc' = Host lc \<and> Port lc' = Port lc \<and> UseSSL lc' = UseSSL lc \<and> BindDN lc' = BindDN lc \<and>
     BindPassword lc' = BindPassword lc \<and> GroupFilter lc' = GroupFilter lc \<and>
     UserFilter lc' = UserFilter lc \<and> Base lc' = Base lc \<and> Attributes lc' = Attributes lc \<and>
     ServerName lc' = ServerName lc"
  by (simp add: same_config_def) (metis ldap_client.select_convs ldap_client.surjective ldap_client.update_convs(1))

lemma connect_Some [client_simps]: "Conn lc = Some h \<Longrightarrow> connect lc w = (None, lc, w)"
  by (simp add: connect_def)

lemma connect_None [client_simps]:
  "Conn lc = None \<Longrightarrow> connect lc w =
     (case dial_conn lc w of (Inl err, w1) \<Rightarrow> (Some err, lc, w1) | (Inr l, w1) \<Rightarrow> (None, lc\<lparr>Conn := Some l\<rparr>, w1))"
  by (simp add: connect_def)

lemma dial_conn_Inr:
  assumes "dial_conn lc w = (Inr h, w')"
  shows "h = length (conns w) \<and> length (conns w') = Suc h"
proof (cases "UseSSL lc")
  case True
  with assms show ?thesis
    by (auto simp: dial_conn_def Let_def dest: ldap_dial_tls_Inr split: prod.splits sum.splits)
next
  case False
  with assms obtain w1 u where d: "ldap_dial (server_address lc) w = (Inr h, w1)"
    and s: "ldap_start_tls h True w1 = (Inr u, w')"
    by (auto simp: dial_conn_def Let_def split: prod.splits sum.splits)
  from s have "length (conns w') = length (conns w1)"
    using conns_prims(4) [of h True w1] by simp
  with ldap_dial_Inr [OF d] show ?thesis by simp
qed

lemma dial_conn_conns_mono:
  assumes "dial_conn lc w = (r, w')"
  shows "length (conns w) \<le> length (conns w')"
proof (cases "UseSSL lc")
  case True
  then have "w' = snd (ldap_dial_tls (server_address lc) False (ServerName lc) w)"
    using assms by (auto simp: dial_conn_def split: prod.splits sum.splits)
  then show ?thesis by (simp add: world_simps)
next
  case False
  obtain r1 w1 where d: "ldap_dial (server_address lc) w = (r1, w1)" by fastforce
  have "length (conns w) \<le> length (conns w1)"
    using length_conns_dials(1) [of w "server_address lc"] d by simp
  moreover have "w' = w1 \<or> (\<exists>h. w' = snd (ldap_start_tls h True w1))"
    using assms False d by (auto simp: dial_conn_def split: prod.splits sum.splits) (metis snd_conv)+
  ultimately show ?thesis by (auto simp: world_simps)
qed

lemma connect_result:
  assumes "connect lc w = (r, lc', w')"
  shows "same_config lc lc' \<and> length (conns w) \<le> length (conns w') \<and>
         (r = None \<longrightarrow> (\<exists>h. Conn lc' = Some h)) \<and>
         (Conn lc' = None \<longrightarrow> Conn lc = None)"
  using assms
  by (cases "Conn lc")
     (auto simp: connect_def split: prod.splits sum.splits dest: dial_conn_Inr dial_conn_conns_mono)

lemma dial_count_prims [world_simps]:
  "length (filter is_dial (trace (snd (ldap_dial a w)))) = Suc (length (filter is_dial (trace w)))"
  "length (filter is_dial (trace (snd (ldap_dial_tls a b n w)))) = Suc (length (filter is_dial (trace w)))"
  "length (filter is_dial (trace (snd (ldap_start_tls h b w)))) = length (filter is_dial (trace w))"
  by (simp_all add: world_simps)

lemma dial_conn_dials:
  "length (filter is_dial (trace (snd (dial_conn lc w)))) = Suc (length (filter is_dial (trace w)))"
  by (auto simp: dial_conn_def Let_def world_simps split: prod.splits sum.splits)
     (metis dial_count_prims snd_conv)+

lemma ldap_dial_tls_outcome:
  "addr = srv_address (srv w) \<Longrightarrow>
   isl (fst (ldap_dial_tls addr False n w)) \<longleftrightarrow>
     (if n = [] then host_of addr else n) \<notin> set (srv_cert_names (srv w))"
  by (simp add: ldap_dial_tls_def Let_def new_conn_def)

subsection \<open>Properties\<close>

text \<open>
  Claim C14. \<open>Connect\<close> is idempotent: once it has succeeded, calling it again
  changes nothing and issues no call, so two calls in succession dial exactly once.
\<close>

theorem connect_twice:
  assumes "connect lc w = (None, lc1, w1)"
  shows "connect lc1 w1 = (None, lc1, w1) \<and>
         length (filter is_dial (trace w1)) =
           length (filter is_dial (trace w)) + (if Conn lc = None then 1 else 0)"
proof (cases "Conn lc")
  case None
  with assms obtain h where d: "dial_conn lc w = (Inr h, w1)" and lc1: "lc1 = lc\<lparr>Conn := Some h\<rparr>"
    by (auto simp: connect_def split: prod.splits sum.splits)
  have "length (filter is_dial (trace w1)) = Suc (length (filter is_dial (trace w)))"
    using dial_conn_dials [of lc w] d by simp
  with None lc1 show ?thesis by (simp add: connect_Some)
next
  case (Some h)
  with assms show ?thesis by (simp add: connect_Some)
qed

text \<open>
  Claim C15. When the plaintext dial succeeds but the StartTLS upgrade is refused,
  \<open>Connect\<close> returns the error, the client keeps no connection, and the dialled
  connection is left open: it is never closed (a leaked connection per failure).
\<close>

theorem connect_starttls_leak:
  assumes "Conn lc = None" and "\<not> UseSSL lc" and "server_address lc = srv_address (srv w)"
    and "\<not> srv_start_tls (srv w)"
  shows "fst (connect lc w) \<noteq> None \<and> Conn (fst (snd (connect lc w))) = None \<and>
         conn_open (snd (snd (connect lc w))) (length (conns w))"
  using assms
  by (simp add: connect_None dial_conn_def ldap_dial_def ldap_start_tls_def new_conn_def conn_open_def Let_def)

text \<open>
  Claim C16. With \<open>UseSSL\<close> set, \<open>Connect\<close> to the server's address succeeds exactly
  when the certificate is valid for \<open>ServerName\<close> (or, when that is empty, for the
  host part of the address); without \<open>UseSSL\<close> it succeeds whenever the server
  grants StartTLS, whatever the certificate: the upgrade skips verification.
\<close>

theorem connect_certificate_check:
  assumes "Conn lc = None" and "server_address lc = srv_address (srv w)"
  shows "fst (connect lc w) = None \<longleftrightarrow>
           (if UseSSL lc then tls_name lc \<in> set (srv_cert_names (srv w)) else srv_start_tls (srv w))"
  using assms
  by (auto simp: connect_None dial_conn_def ldap_dial_def ldap_start_tls_def ldap_dial_tls_def
      new_conn_def conn_open_def tls_name_def Let_def)

end
