(* ===== verification/Client_Search.thy ===== *)
theory Client_Search
  imports Client_Connect
begin

text \<open>
  The three query methods of \<open>LDAPClient\<close> built on one search primitive and the
  retry loop they share: \<open>SearchUser\<close>, \<open>GetGroupsOfUser\<close>, \<open>FindUsers\<close>. Each
  connects first, formats its filter template with the search term, searches the
  whole subtree under \<open>Base\<close>, retries a failed search, and interprets the entries.
\<close>

subsection \<open>The retry loop\<close>

text \<open>
  The loop of lines 83--89 (repeated verbatim at 188--194 and 222--228):
  \<^verbatim>\<open>retry := 3
  for err != nil && retry <= 3 {
    sr, err = lc.Conn.Search(searchRequest)
    log.Printf("Retrying: [%s:%d] \n", searchRequest, retry)
    time.Sleep(time.Second * time.Duration(retry))
    retry++
  }\<close>
  The counter is a Go \<open>int\<close>; it starts at 3 and the loop stops once it exceeds 3,
  so \<open>4 - retry\<close> decreases in every iteration.
\<close>

function retry_search ::
  "nat \<Rightarrow> search_request \<Rightarrow> int \<Rightarrow> error + entry list \<Rightarrow> world \<Rightarrow> (error + entry list) \<times> world" where
  "retry_search h req retry r w =
     (if isl r \<and> retry \<le> 3 then
        (case ldap_search h req w of
           (r', w1) \<Rightarrow> retry_search h req (retry + 1) r'
                         (go_sleep (time_Second * retry) (go_log_retry req retry w1)))
      else (r, w))"
  by pat_completeness auto
termination
  by (relation "measure (\<lambda>(h, req, retry, r, w). nat (4 - retry))") auto

declare retry_search.simps [simp del]

definition search_with_retry :: "nat \<Rightarrow> search_request \<Rightarrow> world \<Rightarrow> (error + entry list) \<times> world" where
  "search_with_retry h req w = (case ldap_search h req w of (r, w1) \<Rightarrow> retry_search h req 3 r w1)"

subsection \<open>Interpreting the entries\<close>

text \<open>Lines 95--101 (and 141--147 of \<open>Authenticate\<close>): exactly one entry is wanted.\<close>

definition one_entry :: "entry list \<Rightarrow> error + entry" where
  "one_entry es =
     (if length es < 1 then Inl (Errors_New ''User does not exist'')
      else if length es > 1 then Inl (Errors_New ''Too many entries returned'')
      else Inr (es ! 0))"

text \<open>Lines 103--106: one map entry per configured attribute, \<open>""\<close> when it is absent.\<close>

definition user_of_entry :: "string list \<Rightarrow> entry \<Rightarrow> attr_map" where
  "user_of_entry attrs e = fill_map (get_attribute_value e) attrs Map.empty"

text \<open>Lines 199--202: the \<open>cn\<close> of every entry, in the order of the response.\<close>

definition groups_of_entries :: "entry list \<Rightarrow> string list" where
  "groups_of_entries es = fold (\<lambda>e groups. groups @ [get_attribute_value e ''cn'']) es []"

text \<open>Lines 238--245: one attribute map per entry, in the order of the response.\<close>

definition users_of_entries :: "string list \<Rightarrow> entry list \<Rightarrow> attr_map list" where
  "users_of_entries attrs es = fold (\<lambda>e users. users @ [user_of_entry attrs e]) es []"

subsection \<open>The operations\<close>

definition user_search_request :: "ldap_client \<Rightarrow> string \<Rightarrow> string list \<Rightarrow> search_request" where
  "user_search_request lc term attrs =
     new_search_request (Base lc) ScopeWholeSubtree NeverDerefAliases 0 0 False
       (go_sprintf (UserFilter lc) [Go_String term]) attrs"

definition group_search_request :: "ldap_client \<Rightarrow> string \<Rightarrow> search_request" where
  "group_search_request lc username =
     new_search_request (Base lc) ScopeWholeSubtree NeverDerefAliases 0 0 False
       (go_sprintf (GroupFilter lc) [Go_String username]) [''cn'']"

definition nil_deref :: error where
  "nil_deref = Go_Panic ''runtime error: invalid memory address or nil pointer dereference''"

text \<open>
  The common skeleton of the three methods: \<open>Connect\<close>, then the search with
  retries on \<open>lc.Conn\<close>, then \<open>k\<close> on the entries. \<open>lc.Conn\<close> is never \<open>nil\<close>
  after a successful \<open>Connect\<close> (\<open>connect_result\<close>); the panic branch is the one
  Go would take if it were.
\<close>

definition query ::
  "(ldap_client \<Rightarrow> search_request) \<Rightarrow> (ldap_client \<Rightarrow> entry list \<Rightarrow> error + 'a) \<Rightarrow>
   ldap_client \<Rightarrow> world \<Rightarrow> (error + 'a) \<times> ldap_client \<times> world" where
  "query mk k lc w =
     (case connect lc w of
        (Some err, lc1, w1) \<Rightarrow> (Inl err, lc1, w1)
      | (None, lc1, w1) \<Rightarrow>
          (case Conn lc1 of
             None \<Rightarrow> (Inl nil_deref, lc1, w1)
           | Some h \<Rightarrow>
               (case search_with_retry h (mk lc1) w1 of
                  (Inl err, w2) \<Rightarrow> (Inl err, lc1, w2)
                | (Inr es, w2) \<Rightarrow> (k lc1 es, lc1, w2))))"

definition search_user :: "ldap_client \<Rightarrow> string \<Rightarrow> world \<Rightarrow> (error + attr_map) \<times> ldap_client \<times> world" where
  "search_user lc username =
     query (\<lambda>lc. user_search_request lc username (Attributes lc))
       (\<lambda>lc es. case one_entry es of Inl err \<Rightarrow> Inl err | Inr e \<Rightarrow> Inr (user_of_entry (Attributes lc) e))
       lc"

definition get_groups_of_user :: "ldap_client \<Rightarrow> string \<Rightarrow> world \<Rightarrow> (error + string list) \<times> ldap_client \<times> world" where
  "get_groups_of_user lc username =
     query (\<lambda>lc. group_search_request lc username) (\<lambda>lc es. Inr (groups_of_entries es)) lc"

definition find_users :: "ldap_client \<Rightarrow> string \<Rightarrow> world \<Rightarrow> (error + attr_map list) \<times> ldap_client \<times> world" where
  "find_users lc search =
     query (\<lambda>lc. user_search_request lc search (Attributes lc))
       (\<lambda>lc es. if length es < 1 then Inl (Errors_New ''User does not exist'')
                else Inr (users_of_entries (Attributes lc) es))
       lc"

subsection \<open>Vocabulary of the contracts\<close>

text \<open>The entries a user search with term \<open>t\<close> selects on the server.\<close>

definition user_matches :: "ldap_client \<Rightarrow> string \<Rightarrow> world \<Rightarrow> entry list" where
  "user_matches lc t w =
     matching_entries (srv w) (Base lc) ScopeWholeSubtree (go_sprintf (UserFilter lc) [Go_String t])"

definition group_matches :: "ldap_client \<Rightarrow> string \<Rightarrow> world \<Rightarrow> entry list" where
  "group_matches lc u w =
     matching_entries (srv w) (Base lc) ScopeWholeSubtree (go_sprintf (GroupFilter lc) [Go_String u])"

text \<open>
  The three contracts on a connected client whose connection is open, when at least
  one of the (at most two) search attempts is answered.
\<close>

abbreviation answered :: "world \<Rightarrow> bool" where
  "answered w \<equiv> \<not> (search_count w \<in> srv_busy (srv w) \<and> Suc (search_count w) \<in> srv_busy (srv w))"

subsection \<open>The retry loop: unrolled, bounded\<close>

lemma retry_search_stop:
  "\<not> (isl r \<and> retry \<le> 3) \<Longrightarrow> retry_search h req retry r w = (r, w)"
  by (subst retry_search.simps) auto

lemma retry_search_step:
  "isl r \<Longrightarrow> retry \<le> 3 \<Longrightarrow> retry_search h req retry r w =
     (case ldap_search h req w of
        (r', w1) \<Rightarrow> retry_search h req (retry + 1) r' (go_sleep (time_Second * retry) (go_log_retry req retry w1)))"
  by (subst retry_search.simps) simp

text \<open>
  Started at 3, the loop body runs at most once: the loop is equivalent to one
  conditional retry, followed by the log line and a sleep of three seconds.
\<close>

lemma search_with_retry_unfold:
  "search_with_retry h req w =
     (case ldap_search h req w of
        (Inr es, w1) \<Rightarrow> (Inr es, w1)
      | (Inl e, w1) \<Rightarrow>
          (case ldap_search h req w1 of
             (r2, w2) \<Rightarrow> (r2, go_sleep (time_Second * 3) (go_log_retry req 3 w2))))"
  by (auto simp: search_with_retry_def retry_search_step retry_search_stop split: prod.splits sum.splits)

lemma search_with_retry_open:
  assumes "filter_ok (sr_Filter req)" and "conn_open w h"
  shows "search_with_retry h req w =
    (let n = search_count w; w1 = emit (Ev_Search h req) w in
     if n \<notin> srv_busy (srv w) then (Inr (server_search (srv w) req), w1)
     else (if Suc n \<notin> srv_busy (srv w) then Inr (server_search (srv w) req) else Inl busy_err,
           go_sleep (time_Second * 3) (go_log_retry req 3 (emit (Ev_Search h req) w1))))"
  using assms by (simp add: search_with_retry_unfold ldap_search_open ldap_search_busy Let_def)

text \<open>
  A filter that does not compile fails both attempts with the same compile error:
  the loop retries an error no retry can cure, logging and sleeping three seconds
  first, whatever the state of the connection.
\<close>

lemma search_with_retry_bad_filter:
  assumes "compile_filter (sr_Filter req) = Inl msg"
  shows "search_with_retry h req w =
    (Inl (filter_error msg),
     go_sleep (time_Second * 3) (go_log_retry req 3 (emit (Ev_Search h req) (emit (Ev_Search h req) w))))"
  using assms by (simp add: search_with_retry_unfold ldap_search_bad_filter)

subsection \<open>The operations on a connected client\<close>

lemma query_connected:
  "Conn lc = Some h \<Longrightarrow> query mk k lc w =
     (case search_with_retry h (mk lc) w of
        (Inl err, w2) \<Rightarrow> (Inl err, lc, w2)
      | (Inr es, w2) \<Rightarrow> (k lc es, lc, w2))"
  by (simp add: query_def connect_Some)

lemma user_of_entry_project:
  "set attrs \<subseteq> set ras \<Longrightarrow> user_of_entry attrs (project ras e) = user_of_entry attrs e"
  unfolding user_of_entry_def
  by (rule fill_map_cong) (auto simp: get_attribute_value_project)

lemma groups_of_entries_map: "groups_of_entries es = map (\<lambda>e. get_attribute_value e ''cn'') es"
proof -
  have "fold (\<lambda>e groups. groups @ [get_attribute_value e ''cn'']) es acc
        = acc @ map (\<lambda>e. get_attribute_value e ''cn'') es" for acc
    by (induction es arbitrary: acc) auto
  then show ?thesis by (simp add: groups_of_entries_def)
qed

lemma users_of_entries_map: "users_of_entries attrs es = map (user_of_entry attrs) es"
proof -
  have "fold (\<lambda>e users. users @ [user_of_entry attrs e]) es acc = acc @ map (user_of_entry attrs) es" for acc
    by (induction es arbitrary: acc) auto
  then show ?thesis by (simp add: users_of_entries_def)
qed

lemma one_entry_cases:
  "one_entry es = (case es of [] \<Rightarrow> Inl (Errors_New ''User does not exist'')
                   | [e] \<Rightarrow> Inr e | _ \<Rightarrow> Inl (Errors_New ''Too many entries returned''))"
  by (auto simp: one_entry_def split: list.splits)

lemma one_entry_map:
  "one_entry (map f es) = map_sum id f (one_entry es)"
  by (simp add: one_entry_cases split: list.splits)

lemma query_open:
  assumes "Conn lc = Some h" and "filter_ok (sr_Filter (mk lc))" and "conn_open w h"
    and "\<not> (search_count w \<in> srv_busy (srv w) \<and> Suc (search_count w) \<in> srv_busy (srv w))"
  shows "fst (query mk k lc w) = k lc (server_search (srv w) (mk lc))"
  using assms by (auto simp: query_connected search_with_retry_open Let_def)

lemma query_busy_twice:
  assumes "Conn lc = Some h" and "filter_ok (sr_Filter (mk lc))" and "conn_open w h"
    and "search_count w \<in> srv_busy (srv w)" and "Suc (search_count w) \<in> srv_busy (srv w)"
  shows "fst (query mk k lc w) = Inl busy_err"
  using assms by (simp add: query_connected search_with_retry_open Let_def)

text \<open>An answered query on an open connection: the compile error of its filter,
or the continuation applied to the entries the server returns.\<close>

lemma query_answered:
  assumes "Conn lc = Some h" and "conn_open w h" and "answered w"
  shows "fst (query mk k lc w) =
    (case compile_filter (sr_Filter (mk lc)) of
       Inl msg \<Rightarrow> Inl (filter_error msg)
     | Inr _ \<Rightarrow> k lc (server_search (srv w) (mk lc)))"
  using assms by (auto simp: query_connected search_with_retry_open search_with_retry_bad_filter
      filter_ok_def Let_def split: sum.splits)

lemma query_bad_filter:
  assumes "Conn lc = Some h" and "compile_filter (sr_Filter (mk lc)) = Inl msg"
  shows "fst (query mk k lc w) = Inl (filter_error msg)"
  using assms by (simp add: query_connected search_with_retry_bad_filter)

lemma query_trace:
  assumes "Conn lc = Some h"
  shows "trace (snd (snd (query mk k lc w))) = trace (snd (search_with_retry h (mk lc) w))"
  using assms by (simp add: query_connected split: prod.splits sum.splits)

lemma sr_simps [simp]:
  "sr_Attributes (user_search_request lc t attrs) = attrs"
  "sr_BaseDN (user_search_request lc t attrs) = Base lc"
  "sr_Scope (user_search_request lc t attrs) = ScopeWholeSubtree"
  "sr_Filter (user_search_request lc t attrs) = go_sprintf (UserFilter lc) [Go_String t]"
  "sr_Attributes (group_search_request lc u) = [''cn'']"
  "sr_BaseDN (group_search_request lc u) = Base lc"
  "sr_Scope (group_search_request lc u) = ScopeWholeSubtree"
  "sr_Filter (group_search_request lc u) = go_sprintf (GroupFilter lc) [Go_String u]"
  by (simp_all add: user_search_request_def group_search_request_def new_search_request_def)

lemma server_search_user:
  "server_search (srv w) (user_search_request lc t (Attributes lc)) =
     map (project (Attributes lc)) (user_matches lc t w)"
  by (simp add: server_search_def user_matches_def)

lemma server_search_group:
  "server_search (srv w) (group_search_request lc u) = map (project [''cn'']) (group_matches lc u w)"
  by (simp add: server_search_def group_matches_def)

lemma user_of_entry_project_self [simp]:
  "user_of_entry attrs (project attrs e) = user_of_entry attrs e"
  by (rule user_of_entry_project) simp

lemma cn_project [simp]: "get_attribute_value (project [''cn''] e) ''cn'' = get_attribute_value e ''cn''"
  by (rule get_attribute_value_project) simp

subsection \<open>Properties\<close>

text \<open>
  Claim C1. \<open>SearchUser\<close> on a connected client whose connection is open, when at
  least one of its search attempts is answered: no matching entry gives the error
  "User does not exist", exactly one gives that entry's value of every configured
  attribute (the empty string where the entry has none), and more than one gives
  "Too many entries returned".
\<close>

theorem search_user_contract:
  assumes "Conn lc = Some h" and "conn_open w h" and "answered w"
  shows "fst (search_user lc u w) =
    (case compile_filter (go_sprintf (UserFilter lc) [Go_String u]) of
       Inl msg \<Rightarrow> Inl (filter_error msg)
     | Inr _ \<Rightarrow>
        (case user_matches lc u w of
           [] \<Rightarrow> Inl (Errors_New ''User does not exist'')
         | [e] \<Rightarrow> Inr (user_of_entry (Attributes lc) e)
         | _ \<Rightarrow> Inl (Errors_New ''Too many entries returned'')))"
proof -
  have "fst (search_user lc u w) =
          (case compile_filter (go_sprintf (UserFilter lc) [Go_String u]) of
             Inl msg \<Rightarrow> Inl (filter_error msg)
           | Inr _ \<Rightarrow>
              (case one_entry (server_search (srv w) (user_search_request lc u (Attributes lc))) of
                 Inl err \<Rightarrow> Inl err | Inr e \<Rightarrow> Inr (user_of_entry (Attributes lc) e)))"
    unfolding search_user_def by (subst query_answered [OF assms]) simp
  then show ?thesis
    by (simp add: server_search_user one_entry_map one_entry_cases split: list.splits sum.splits)
qed

text \<open>
  Claim C2. The retry loop shared by \<open>SearchUser\<close>, \<open>GetGroupsOfUser\<close> and
  \<open>FindUsers\<close> issues the search once, and, only when that attempt fails, once
  more, followed by one log line and one sleep of three seconds: never more than
  two attempts and never the backoff of one and two seconds.
\<close>

theorem search_with_retry_trace:
  "trace (snd (search_with_retry h req w)) =
     trace w @ [Ev_Search h req] @
     (if isl (fst (ldap_search h req w))
      then [Ev_Search h req, Ev_Log_Retry req 3, Ev_Sleep (time_Second * 3)] else [])"
  by (auto simp: search_with_retry_unfold world_simps split: prod.splits sum.splits dest!: ldap_search_world)

text \<open>
  Claim C3. A collaborator that fails twice and would then succeed makes
  \<open>SearchUser\<close> fail with the second failure: the third attempt is never made.
\<close>

theorem search_user_busy_twice:
  assumes "Conn lc = Some h" and "filter_ok (go_sprintf (UserFilter lc) [Go_String u])" and "conn_open w h"
    and "search_count w \<in> srv_busy (srv w)" and "Suc (search_count w) \<in> srv_busy (srv w)"
    and "Suc (Suc (search_count w)) \<notin> srv_busy (srv w)"
  shows "fst (search_user lc u w) = Inl busy_err"
  using query_busy_twice [of lc h "\<lambda>lc. user_search_request lc u (Attributes lc)"] assms
  by (simp add: search_user_def)

text \<open>
  Claim C4. \<open>GetGroupsOfUser\<close> on a connected client whose connection is open, when
  one of its search attempts is answered, returns the \<open>cn\<close> of every entry the
  group filter selects, in the directory's order; no match is the empty list.
\<close>

theorem get_groups_of_user_contract:
  assumes "Conn lc = Some h" and "conn_open w h" and "answered w"
  shows "fst (get_groups_of_user lc u w) =
    (case compile_filter (go_sprintf (GroupFilter lc) [Go_String u]) of
       Inl msg \<Rightarrow> Inl (filter_error msg)
     | Inr _ \<Rightarrow> Inr (map (\<lambda>e. get_attribute_value e ''cn'') (group_matches lc u w)))"
  unfolding get_groups_of_user_def
  by (subst query_answered [OF assms]) (simp add: server_search_group groups_of_entries_map split: sum.splits)

text \<open>
  Claim C5. \<open>FindUsers\<close> on a connected client whose connection is open, when one
  of its search attempts is answered, fails with "User does not exist" when nothing
  matches and otherwise returns one attribute map per matching entry, in order.
\<close>

theorem find_users_contract:
  assumes "Conn lc = Some h" and "conn_open w h" and "answered w"
  shows "fst (find_users lc t w) =
    (case compile_filter (go_sprintf (UserFilter lc) [Go_String t]) of
       Inl msg \<Rightarrow> Inl (filter_error msg)
     | Inr _ \<Rightarrow>
        (if user_matches lc t w = [] then Inl (Errors_New ''User does not exist'')
         else Inr (map (user_of_entry (Attributes lc)) (user_matches lc t w))))"
  unfolding find_users_def
  by (subst query_answered [OF assms]) (simp add: server_search_user users_of_entries_map comp_def split: sum.splits)

text \<open>
  Claim C6. Whatever the counter starts at, the retry loop issues at most
  \<open>4 - retry\<close> searches: it terminates with a bounded number of attempts.
\<close>

theorem retry_search_bounded:
  "search_count (snd (retry_search h req retry r w)) \<le> search_count w + nat (4 - retry)"
proof (induction h req retry r w rule: retry_search.induct)
  case (1 h req retry r w)
  show ?case
  proof (cases "isl r \<and> retry \<le> 3")
    case True
    obtain r' w1 where s: "ldap_search h req w = (r', w1)" by fastforce
    have w1: "search_count w1 = Suc (search_count w)"
      using trace_prims(5) [of h req w] s by (simp add: search_count_def)
    have "search_count (snd (retry_search h req (retry + 1) r'
            (go_sleep (time_Second * retry) (go_log_retry req retry w1))))
          \<le> search_count w1 + nat (4 - (retry + 1))"
      using "1.IH" [OF True s [symmetric]]
      by (simp add: search_count_def world_simps)
    moreover have "nat (4 - retry) = Suc (nat (3 - retry))"
      using True by arith
    ultimately show ?thesis using True w1 s by (simp add: retry_search_step)
  next
    case False
    then show ?thesis by (simp add: retry_search_stop)
  qed
qed

text \<open>
  Claim C21. An attribute that is configured but absent from the entry is present in
  the returned map with the empty string, and only configured attributes are keys.
\<close>

theorem user_of_entry_missing:
  assumes "a \<in> set attrs" and "a \<notin> fst ` set (entry_attributes e)"
  shows "user_of_entry attrs e a = Some [] \<and> dom (user_of_entry attrs e) = set attrs"
proof -
  have "\<forall>x \<in> set (entry_attributes e). fst x \<noteq> a"
    using assms(2) by force
  then have "find (\<lambda>(n, _). n = a) (entry_attributes e) = None"
    by (auto simp: find_None_iff split_beta)
  then show ?thesis
    using assms(1)
    by (simp add: user_of_entry_def fill_map_lookup get_attribute_value_def get_attribute_values_def)
qed

text \<open>
  Claim C22. \<open>SearchUser\<close> is \<open>FindUsers\<close> followed by the uniqueness check: on
  every client and world the two send the same calls, and \<open>SearchUser\<close> returns the
  single map \<open>FindUsers\<close> would return in a list, or "Too many entries returned"
  where \<open>FindUsers\<close> returns several.
\<close>

theorem search_user_find_users:
  "search_user lc u w =
     (case find_users lc u w of
        (Inr [m], lc', w') \<Rightarrow> (Inr m, lc', w')
      | (Inr ms, lc', w') \<Rightarrow> (Inl (Errors_New ''Too many entries returned''), lc', w')
      | (Inl err, lc', w') \<Rightarrow> (Inl err, lc', w'))"
  by (auto simp: search_user_def find_users_def query_def one_entry_cases users_of_entries_map
      split: prod.splits option.splits sum.splits list.splits)

end
