(* ===== verification/Client_Auth.thy ===== *)
theory Client_Auth
  imports Client_Search
begin

text \<open>
  \<open>LDAPClient.Authenticate\<close> (lines 112--170): connect; bind as the read-only
  identity when both \<open>BindDN\<close> and \<open>BindPassword\<close> are set; search for the user
  once, without the retry loop; require exactly one entry; bind as that entry's DN
  with the given password; rebind as the read-only identity. The Go result
  \<open>(bool, map[string]string, error)\<close> is a triple whose map is \<open>None\<close> for \<open>nil\<close>.
\<close>

type_synonym auth_result = "bool \<times> attr_map option \<times> error option"

text \<open>The condition of lines 119 and 162.\<close>

definition privileged :: "ldap_client \<Rightarrow> bool" where
  "privileged lc \<longleftrightarrow> BindDN lc \<noteq> [] \<and> BindPassword lc \<noteq> []"

text \<open>The bind of lines 119--124 and 162--167; without credentials it does nothing.\<close>

definition bind_read_only :: "ldap_client \<Rightarrow> nat \<Rightarrow> world \<Rightarrow> (error + unit) \<times> world" where
  "bind_read_only lc h w =
     (if privileged lc then ldap_bind h (BindDN lc) (BindPassword lc) w else (Inr (), w))"

text \<open>Lines 126--134: the configured attributes with \<open>"dn"\<close> appended.\<close>

definition auth_search_request :: "ldap_client \<Rightarrow> string \<Rightarrow> search_request" where
  "auth_search_request lc username = user_search_request lc username (Attributes lc @ [''dn''])"

text \<open>Lines 149--169: from the one entry found to the result.\<close>

definition auth_check ::
  "ldap_client \<Rightarrow> nat \<Rightarrow> entry \<Rightarrow> string \<Rightarrow> world \<Rightarrow> auth_result \<times> world" where
  "auth_check lc h e password w =
     (let userDN = entry_dn e; user = user_of_entry (Attributes lc) e in
      case ldap_bind h userDN password w of
        (Inl err, w1) \<Rightarrow> ((False, Some user, Some err), w1)
      | (Inr _, w1) \<Rightarrow>
          (case bind_read_only lc h w1 of
             (Inl err, w2) \<Rightarrow> ((True, Some user, Some err), w2)
           | (Inr _, w2) \<Rightarrow> ((True, Some user, None), w2)))"

definition authenticate ::
  "ldap_client \<Rightarrow> string \<Rightarrow> string \<Rightarrow> world \<Rightarrow> auth_result \<times> ldap_client \<times> world" where
  "authenticate lc username password w =
     (case connect lc w of
        (Some err, lc1, w1) \<Rightarrow> ((False, None, Some err), lc1, w1)
      | (None, lc1, w1) \<Rightarrow>
          (case Conn lc1 of
             None \<Rightarrow> ((False, None, Some nil_deref), lc1, w1)
           | Some h \<Rightarrow>
               (case bind_read_only lc1 h w1 of
                  (Inl err, w2) \<Rightarrow> ((False, None, Some err), lc1, w2)
                | (Inr _, w2) \<Rightarrow>
                    (case ldap_search h (auth_search_request lc1 username) w2 of
                       (Inl err, w3) \<Rightarrow> ((False, None, Some err), lc1, w3)
                     | (Inr es, w3) \<Rightarrow>
                         (case one_entry es of
                            Inl err \<Rightarrow> ((False, None, Some err), lc1, w3)
                          | Inr e \<Rightarrow>
                              (case auth_check lc1 h e password w3 of
                                 (res, w4) \<Rightarrow> (res, lc1, w4)))))))"

subsection \<open>Lemmas\<close>

lemma bind_read_only_open:
  "conn_open w h \<Longrightarrow> bind_read_only lc h w =
     (if \<not> privileged lc then (Inr (), w)
      else if bind_succeeds w (BindDN lc) (BindPassword lc)
      then (Inr (), set_bound h (Some (BindDN lc)) (emit (Ev_Bind h (BindDN lc) (BindPassword lc)) w))
      else (Inl (if bind_count w \<in> srv_bind_busy (srv w) then busy_err else invalid_credentials),
            set_bound h None (emit (Ev_Bind h (BindDN lc) (BindPassword lc)) w)))"
  by (simp add: bind_read_only_def ldap_bind_open)

lemma auth_search_matches:
  "server_search (srv w) (auth_search_request lc u) =
     map (project (Attributes lc @ [''dn''])) (user_matches lc u w)"
  by (simp add: server_search_def user_matches_def auth_search_request_def)

lemma auth_sr_filter [simp]:
  "sr_Filter (auth_search_request lc u) = go_sprintf (UserFilter lc) [Go_String u]"
  by (simp add: auth_search_request_def)

text \<open>An entry can only match a filter that compiled.\<close>

lemma user_matches_filter_ok:
  "user_matches lc u w \<noteq> [] \<Longrightarrow> filter_ok (go_sprintf (UserFilter lc) [Go_String u])"
  by (auto simp: user_matches_def matching_entries_def filter_empty_conv intro: filter_ok_matches)

lemma user_of_entry_project_dn [simp]:
  "user_of_entry attrs (project (attrs @ [''dn'']) e) = user_of_entry attrs e"
  by (rule user_of_entry_project) auto

lemma entry_dn_project [simp]: "entry_dn (project attrs e) = entry_dn e"
  by (simp add: project_def)

lemma authenticate_connected:
  "Conn lc = Some h \<Longrightarrow> authenticate lc u p w =
     (case bind_read_only lc h w of
        (Inl err, w2) \<Rightarrow> ((False, None, Some err), lc, w2)
      | (Inr _, w2) \<Rightarrow>
          (case ldap_search h (auth_search_request lc u) w2 of
             (Inl err, w3) \<Rightarrow> ((False, None, Some err), lc, w3)
           | (Inr es, w3) \<Rightarrow>
               (case one_entry es of
                  Inl err \<Rightarrow> ((False, None, Some err), lc, w3)
                | Inr e \<Rightarrow> (case auth_check lc h e p w3 of (res, w4) \<Rightarrow> (res, lc, w4)))))"
  by (simp add: authenticate_def connect_Some)

lemmas auth_open_simps = authenticate_connected bind_read_only_open ldap_search_open
  auth_search_matches one_entry_map one_entry_cases auth_check_def ldap_bind_open Let_def

text \<open>What a successful step tells about the server, and the frames of the steps
before the search.\<close>

lemma ldap_bind_Inr: "ldap_bind h dn pw w = (Inr x, w') \<Longrightarrow> bind_ok (srv w) dn pw"
  by (simp add: ldap_bind_def Let_def split: if_splits)

lemma ldap_search_Inr: "ldap_search h req w = (Inr es, w') \<Longrightarrow> es = server_search (srv w) req"
  by (simp add: ldap_search_def Let_def split: sum.splits if_splits)

lemma srv_bind_read_only: "bind_read_only lc h w = (r, w') \<Longrightarrow> srv w' = srv w"
  by (auto simp: bind_read_only_def split: if_splits dest: arg_cong [where f = "\<lambda>p. srv (snd p)"]
      simp add: world_simps)

lemma srv_dial_conn: "srv (snd (dial_conn lc w)) = srv w"
proof (cases "UseSSL lc")
  case True
  then show ?thesis using srv_prims(3) [of "server_address lc" False "ServerName lc" w]
    by (auto simp: dial_conn_def split: prod.splits sum.splits)
next
  case False
  obtain r1 w1 where d: "ldap_dial (server_address lc) w = (r1, w1)" by fastforce
  have s1: "srv w1 = srv w" using srv_prims(1) [of "server_address lc" w] d by simp
  have "ldap_start_tls h True w1 = (r2, w2) \<Longrightarrow> srv w2 = srv w1" for h r2 w2
    using srv_prims(2) [of h True w1] by simp
  then show ?thesis using False d s1 by (auto simp: dial_conn_def split: prod.splits sum.splits)
qed

lemma srv_connect: "connect lc w = (r, lc', w') \<Longrightarrow> srv w' = srv w"
  by (cases "Conn lc") (auto simp: connect_def srv_dial_conn [of lc w, symmetric] split: prod.splits sum.splits)

lemma user_matches_same_config: "same_config lc lc' \<Longrightarrow> user_matches lc' u w' = user_matches lc u w'"
  using same_config_fields [of lc lc'] by (simp add: user_matches_def)

subsection \<open>Properties\<close>

text \<open>
  Claim C7. On an open connection where every bind is answered and the search is
  answered, with the read-only credentials (if configured) valid and exactly one
  entry matching: the right password authenticates, returns the entry's attributes
  and no error.
\<close>

theorem authenticate_correct_password:
  assumes "Conn lc = Some h" and "conn_open w h" and "srv_bind_busy (srv w) = {}"
    and "search_count w \<notin> srv_busy (srv w)"
    and "privileged lc \<longrightarrow> bind_ok (srv w) (BindDN lc) (BindPassword lc)"
    and "user_matches lc u w = [e]" and "bind_ok (srv w) (entry_dn e) p"
  shows "fst (authenticate lc u p w) = (True, Some (user_of_entry (Attributes lc) e), None)"
  using assms user_matches_filter_ok [of lc u w] by (cases "privileged lc") (simp_all add: auth_open_simps bind_succeeds_def)

text \<open>
  Claim C8. Under the same conditions a wrong password is reported as
  \<open>authenticated = false\<close> with the user's attributes already filled in and the
  bind error \<open>Invalid Credentials\<close>, which tells it apart from an unknown user.
\<close>

theorem authenticate_wrong_password:
  assumes "Conn lc = Some h" and "conn_open w h" and "srv_bind_busy (srv w) = {}"
    and "search_count w \<notin> srv_busy (srv w)"
    and "privileged lc \<longrightarrow> bind_ok (srv w) (BindDN lc) (BindPassword lc)"
    and "user_matches lc u w = [e]" and "\<not> bind_ok (srv w) (entry_dn e) p"
  shows "fst (authenticate lc u p w) =
           (False, Some (user_of_entry (Attributes lc) e), Some invalid_credentials)"
  using assms user_matches_filter_ok [of lc u w] by (cases "privileged lc") (simp_all add: auth_open_simps bind_succeeds_def)

text \<open>
  Claim C9. When the credential bind succeeds but the rebind as the read-only
  identity fails, \<open>Authenticate\<close> reports \<open>authenticated = true\<close> with the user's
  attributes together with the rebind's error.
\<close>

theorem authenticate_rebind_fails:
  assumes "Conn lc = Some h" and "conn_open w h" and "privileged lc"
    and "bind_count w \<notin> srv_bind_busy (srv w)" and "Suc (bind_count w) \<notin> srv_bind_busy (srv w)"
    and "Suc (Suc (bind_count w)) \<in> srv_bind_busy (srv w)"
    and "search_count w \<notin> srv_busy (srv w)" and "bind_ok (srv w) (BindDN lc) (BindPassword lc)"
    and "user_matches lc u w = [e]" and "bind_ok (srv w) (entry_dn e) p"
  shows "fst (authenticate lc u p w) = (True, Some (user_of_entry (Attributes lc) e), Some busy_err)"
  using assms user_matches_filter_ok [of lc u w] by (simp add: auth_open_simps bind_succeeds_def)

text \<open>
  Claim C10. The search of \<open>Authenticate\<close> is not retried: a transient failure of
  its one search attempt fails the authentication, even when the next attempt
  would have been answered.
\<close>

theorem authenticate_search_not_retried:
  assumes "Conn lc = Some h" and "conn_open w h" and "srv_bind_busy (srv w) = {}"
    and "privileged lc \<longrightarrow> bind_ok (srv w) (BindDN lc) (BindPassword lc)"
    and "filter_ok (go_sprintf (UserFilter lc) [Go_String u])"
    and "search_count w \<in> srv_busy (srv w)" and "Suc (search_count w) \<notin> srv_busy (srv w)"
  shows "fst (authenticate lc u p w) = (False, None, Some busy_err)"
  using assms by (cases "privileged lc") (simp_all add: auth_open_simps bind_succeeds_def ldap_search_busy)


text \<open>
  Claim C12. A user name that matches no entry fails the authentication with
  "User does not exist" and no attributes; one that matches several fails with
  "Too many entries returned". No credential bind is attempted in either case.
\<close>

theorem authenticate_lookup_errors:
  assumes "Conn lc = Some h" and "conn_open w h" and "srv_bind_busy (srv w) = {}"
    and "search_count w \<notin> srv_busy (srv w)"
    and "privileged lc \<longrightarrow> bind_ok (srv w) (BindDN lc) (BindPassword lc)"
    and "filter_ok (go_sprintf (UserFilter lc) [Go_String u])" and "length (user_matches lc u w) \<noteq> 1"
  shows "fst (authenticate lc u p w) =
           (False, None, Some (Errors_New (if user_matches lc u w = [] then ''User does not exist''
                                           else ''Too many entries returned'')))
       \<and> bind_count (snd (snd (authenticate lc u p w))) = bind_count w + (if privileged lc then 1 else 0)"
  using assms
  by (cases "privileged lc"; cases "user_matches lc u w" rule: remdups_adj.cases)
     (simp_all add: auth_open_simps bind_succeeds_def)

text \<open>
  Claim C13. When the read-only bind fails, \<open>Authenticate\<close> fails with that error
  before searching: no search request is sent.
\<close>

theorem authenticate_privileged_bind_fails:
  assumes "Conn lc = Some h" and "conn_open w h" and "privileged lc"
    and "\<not> bind_succeeds w (BindDN lc) (BindPassword lc)"
  shows "fst (fst (authenticate lc u p w)) = False \<and> fst (snd (fst (authenticate lc u p w))) = None
       \<and> search_count (snd (snd (authenticate lc u p w))) = search_count w"
  using assms by (simp add: authenticate_connected bind_read_only_open)


text \<open>
  Claim C32. \<open>Authenticate\<close> is sound: whatever the state of the client, the
  connection and the server, it reports \<open>true\<close> only when the search for the name
  found exactly one entry under the base and the server accepts the password for that
  entry's DN, and the attributes it returns are that entry's.
\<close>

theorem authenticate_sound:
  assumes "fst (fst (authenticate lc u p w))"
  shows "\<exists>e. user_matches lc u w = [e] \<and> bind_ok (srv w) (entry_dn e) p \<and>
             fst (snd (fst (authenticate lc u p w))) = Some (user_of_entry (Attributes lc) e)"
proof -
  obtain r lc1 w1 where c: "connect lc w = (r, lc1, w1)" by (metis prod.exhaust)
  have sc: "same_config lc lc1" and s1: "srv w1 = srv w"
    using connect_result [OF c] srv_connect [OF c] by auto
  from assms c obtain h x w2 es w3 e' where r: "r = None" and h: "Conn lc1 = Some h"
    and b: "bind_read_only lc1 h w1 = (Inr x, w2)"
    and s: "ldap_search h (auth_search_request lc1 u) w2 = (Inr es, w3)"
    and o: "one_entry es = Inr e'"
    and a: "authenticate lc u p w = (case auth_check lc1 h e' p w3 of (res, w4) \<Rightarrow> (res, lc1, w4))"
    by (auto simp: authenticate_def split: option.splits prod.splits sum.splits)
  have s2: "srv w2 = srv w" using srv_bind_read_only [OF b] s1 by simp
  have es: "es = map (project (Attributes lc @ [''dn''])) (user_matches lc u w)"
    using ldap_search_Inr [OF s] s2 sc same_config_fields [OF sc]
    by (simp add: auth_search_matches user_matches_same_config [OF sc])
  then obtain e where m: "user_matches lc u w = [e]" and e': "e' = project (Attributes lc @ [''dn'']) e"
    using o by (auto simp: one_entry_cases split: list.splits)
  have s3: "srv w3 = srv w" using ldap_search_world [OF s] s2 by simp
  from assms a obtain y w5 where "ldap_bind h (entry_dn e') p w3 = (Inr y, w5)"
    and "fst (snd (fst (authenticate lc u p w))) = Some (user_of_entry (Attributes lc1) e')"
    by (auto simp: auth_check_def Let_def split: prod.splits sum.splits)
  then show ?thesis
    using m e' s3 ldap_bind_Inr same_config_fields [OF sc] by fastforce
qed

end
