(* ===== verification/Client_Machine.thy ===== *)
theory Client_Machine
  imports Client_Auth
begin

text \<open>
  The client as a state machine driven by its caller: one operation per public
  method of \<open>LDAPClient\<close>, a step function on the client and the world, runs of
  operation lists, and the states reachable from a freshly configured client. The
  session is the only state (the specification's \<^emph>\<open>Unconnected\<close> and
  \<^emph>\<open>Connected\<close>); what the code does to it over any sequence of calls is
  proved by induction over runs and by rule induction over reachable states.
\<close>

datatype op =
    Op_Connect
  | Op_Close
  | Op_SearchUser string
  | Op_Authenticate string string
  | Op_GetGroupsOfUser string
  | Op_FindUsers string

datatype reply =
    R_Error "error option"
  | R_Unit
  | R_User "error + attr_map"
  | R_Auth auth_result
  | R_Groups "error + string list"
  | R_Users "error + attr_map list"

fun exec_op :: "op \<Rightarrow> ldap_client \<Rightarrow> world \<Rightarrow> reply \<times> ldap_client \<times> world" where
  "exec_op Op_Connect lc w = (case connect lc w of (r, lc', w') \<Rightarrow> (R_Error r, lc', w'))"
| "exec_op Op_Close lc w = (case close lc w of (lc', w') \<Rightarrow> (R_Unit, lc', w'))"
| "exec_op (Op_SearchUser u) lc w = (case search_user lc u w of (r, lc', w') \<Rightarrow> (R_User r, lc', w'))"
| "exec_op (Op_Authenticate u p) lc w = (case authenticate lc u p w of (r, lc', w') \<Rightarrow> (R_Auth r, lc', w'))"
| "exec_op (Op_GetGroupsOfUser u) lc w =
     (case get_groups_of_user lc u w of (r, lc', w') \<Rightarrow> (R_Groups r, lc', w'))"
| "exec_op (Op_FindUsers t) lc w = (case find_users lc t w of (r, lc', w') \<Rightarrow> (R_Users r, lc', w'))"

fun run :: "op list \<Rightarrow> ldap_client \<Rightarrow> world \<Rightarrow> reply list \<times> ldap_client \<times> world" where
  "run [] lc w = ([], lc, w)"
| "run (op # ops) lc w =
     (case exec_op op lc w of
        (r, lc1, w1) \<Rightarrow> (case run ops lc1 w1 of (rs, lc2, w2) \<Rightarrow> (r # rs, lc2, w2)))"

text \<open>The one method that binds.\<close>

fun is_authenticate :: "op \<Rightarrow> bool" where
  "is_authenticate (Op_Authenticate u p) = True"
| "is_authenticate _ = False"

text \<open>States reachable from the client \<open>lc0\<close> as configured, before any call.\<close>

inductive reachable :: "ldap_client \<Rightarrow> ldap_client \<Rightarrow> world \<Rightarrow> bool" for lc0 where
  init: "Conn lc0 = None \<Longrightarrow> reachable lc0 lc0 w"
| step: "reachable lc0 lc w \<Longrightarrow> exec_op op lc w = (r, lc', w') \<Longrightarrow> reachable lc0 lc' w'"

inductive_cases reachable_stepE: "reachable lc0 lc' w'"

text \<open>
  A stretch of calls that opens no connection: no dial in the trace, the same number
  of connections, the same server. Every method of a client that already holds a
  connection runs quietly.
\<close>

definition quiet :: "world \<Rightarrow> world \<Rightarrow> bool" where
  "quiet w w' \<longleftrightarrow> filter is_dial (trace w') = filter is_dial (trace w) \<and>
     length (conns w') = length (conns w) \<and> srv w' = srv w"

subsection \<open>Quiet stretches\<close>

named_theorems quiet_intros "primitives and compositions that open no connection"

lemma quiet_refl [quiet_intros]: "quiet w w"
  by (simp add: quiet_def)

lemma quiet_trans: "quiet w1 w2 \<Longrightarrow> quiet w2 w3 \<Longrightarrow> quiet w1 w3"
  by (simp add: quiet_def)

lemma quiet_prims [quiet_intros]:
  "quiet w (snd (ldap_search h req w))"
  "quiet w (snd (ldap_bind h dn pw w))"
  "quiet w (go_sleep d w)" "quiet w (go_log_retry req r w)"
  "quiet w (ldap_close h w)"
  by (simp_all add: quiet_def world_simps)

lemma quiet_search_with_retry [quiet_intros]: "quiet w (snd (search_with_retry h req w))"
  by (auto simp: search_with_retry_unfold quiet_def world_simps split: prod.splits sum.splits
      dest!: ldap_search_world)

lemma quiet_bind_read_only [quiet_intros]: "quiet w (snd (bind_read_only lc h w))"
  by (simp add: bind_read_only_def quiet_intros)

lemma quiet_auth_check [quiet_intros]: "quiet w (snd (auth_check lc h e p w))"
proof -
  have q1: "quiet w (snd (ldap_bind h (entry_dn e) p w))" by (rule quiet_prims)
  have "quiet (snd (ldap_bind h (entry_dn e) p w))
          (snd (bind_read_only lc h (snd (ldap_bind h (entry_dn e) p w))))"
    by (rule quiet_bind_read_only)
  with q1 have q2: "quiet w (snd (bind_read_only lc h (snd (ldap_bind h (entry_dn e) p w))))"
    by (rule quiet_trans)
  show ?thesis
    using q1 q2 by (simp add: auth_check_def Let_def split_beta split: sum.split)
qed

text \<open>
  Every method but \<open>Close\<close> is \<open>Connect\<close> followed by a quiet stretch, and the
  client it returns is the one \<open>Connect\<close> returned.
\<close>

lemma query_decomp:
  assumes "query mk k lc w = (r, lc', w')"
  shows "\<exists>r1 w1. connect lc w = (r1, lc', w1) \<and> quiet w1 w'"
proof -
  obtain r1 lc1 w1 where c: "connect lc w = (r1, lc1, w1)" by (cases "connect lc w") auto
  have "quiet w1 (snd (search_with_retry h (mk lc1) w1))" for h by (rule quiet_search_with_retry)
  with assms c have "lc' = lc1 \<and> quiet w1 w'"
    by (auto simp: query_def quiet_refl split_beta split: option.splits sum.splits)
  with c show ?thesis by blast
qed

lemma authenticate_decomp:
  assumes "authenticate lc u p w = (r, lc', w')"
  shows "\<exists>r1 w1. connect lc w = (r1, lc', w1) \<and> quiet w1 w'"
proof -
  obtain r1 lc1 w1 where c: "connect lc w = (r1, lc1, w1)" by (cases "connect lc w") auto
  let ?w2 = "\<lambda>h. snd (bind_read_only lc1 h w1)"
  let ?w3 = "\<lambda>h. snd (ldap_search h (auth_search_request lc1 u) (?w2 h))"
  have q2: "quiet w1 (?w2 h)" for h by (rule quiet_bind_read_only)
  have q3: "quiet w1 (?w3 h)" for h using q2 quiet_prims(1) by (rule quiet_trans)
  have q4: "quiet w1 (snd (auth_check lc1 h e p (?w3 h)))" for h e
    using q3 quiet_auth_check by (rule quiet_trans)
  from assms c q2 q3 q4 have "lc' = lc1 \<and> quiet w1 w'"
    by (auto simp: authenticate_def quiet_refl split_beta split: option.splits sum.splits)
  with c show ?thesis by blast
qed

lemma exec_op_decomp:
  assumes "exec_op op lc w = (r, lc', w')"
  shows "(\<exists>r1 w1. connect lc w = (r1, lc', w1) \<and> quiet w1 w') \<or> (lc' = lc \<and> quiet w w')"
proof (cases op)
  case Op_Connect
  with assms show ?thesis by (auto simp: quiet_refl split: prod.splits)
next
  case Op_Close
  with assms show ?thesis by (auto simp: close_def quiet_prims quiet_refl split: option.splits)
next
  case (Op_SearchUser u)
  with assms show ?thesis by (auto simp: search_user_def split: prod.splits dest: query_decomp)
next
  case (Op_Authenticate u p)
  with assms show ?thesis by (auto split: prod.splits dest: authenticate_decomp)
next
  case (Op_GetGroupsOfUser u)
  with assms show ?thesis by (auto simp: get_groups_of_user_def split: prod.splits dest: query_decomp)
next
  case (Op_FindUsers t)
  with assms show ?thesis by (auto simp: find_users_def split: prod.splits dest: query_decomp)
qed

text \<open>With a connection held, no method touches the client and each runs quietly.\<close>

lemma exec_op_connected:
  assumes "Conn lc = Some h" and "exec_op op lc w = (r, lc', w')"
  shows "lc' = lc \<and> quiet w w'"
  using exec_op_decomp [OF assms(2)] assms(1) by (auto simp: connect_Some)

lemma connect_inv:
  assumes "client_inv lc w" and "connect lc w = (r, lc1, w1)"
  shows "client_inv lc1 w1"
proof (cases "Conn lc")
  case None
  with assms show ?thesis
    by (auto simp: connect_def client_inv_def split: prod.splits sum.splits dest: dial_conn_Inr)
next
  case (Some h)
  with assms show ?thesis by (simp add: connect_Some)
qed

lemma exec_op_inv:
  assumes "client_inv lc w" and "exec_op op lc w = (r, lc', w')"
  shows "client_inv lc' w' \<and> same_config lc lc'"
  using exec_op_decomp [OF assms(2)]
proof
  assume "\<exists>r1 w1. connect lc w = (r1, lc', w1) \<and> quiet w1 w'"
  then obtain r1 w1 where c: "connect lc w = (r1, lc', w1)" and q: "quiet w1 w'" by blast
  from connect_inv [OF assms(1) c] q have "client_inv lc' w'"
    by (simp add: client_inv_def quiet_def split: option.splits)
  with connect_result [OF c] show ?thesis by blast
next
  assume "lc' = lc \<and> quiet w w'"
  with assms(1) show ?thesis by (simp add: client_inv_def quiet_def split: option.splits)
qed

subsection \<open>Bind state\<close>

text \<open>
  Only \<open>Authenticate\<close> binds: the queries search, log and sleep, \<open>Close\<close> marks
  the connection closed, and \<open>Connect\<close> on a connected client does nothing, so the
  bind state of every connection is left as it was.
\<close>

lemma search_with_retry_conns: "search_with_retry h req w = (r, w') \<Longrightarrow> conns w' = conns w"
  by (auto simp: search_with_retry_unfold world_simps split: prod.splits sum.splits dest!: ldap_search_world)

lemma query_connected_conns:
  assumes "Conn lc = Some h" and "query mk k lc w = (r, lc', w')"
  shows "conns w' = conns w"
  using assms by (auto simp: query_def connect_Some split: prod.splits sum.splits dest: search_with_retry_conns)

lemma ldap_close_binds: "map cs_bound (conns (ldap_close h w)) = map cs_bound (conns w)"
proof (rule nth_equalityI)
  fix i assume "i < length (map cs_bound (conns (ldap_close h w)))"
  then show "map cs_bound (conns (ldap_close h w)) ! i = map cs_bound (conns w) ! i"
    by (cases "i = h") (simp_all add: ldap_close_def set_conn_def nth_list_update)
qed (simp add: world_simps)

lemma exec_op_binds_kept:
  assumes "Conn lc = Some h" and "\<not> is_authenticate op" and "exec_op op lc w = (r, lc', w')"
  shows "map cs_bound (conns w') = map cs_bound (conns w)"
  using assms
  by (cases op)
     (auto simp: connect_Some close_def ldap_close_binds search_user_def get_groups_of_user_def find_users_def
        split: prod.splits dest: query_connected_conns)

lemma run_binds_kept:
  assumes "Conn lc = Some h" and "\<forall>op\<in>set ops. \<not> is_authenticate op" and "run ops lc w = (rs, lc', w')"
  shows "map cs_bound (conns w') = map cs_bound (conns w)"
  using assms
proof (induction ops arbitrary: lc w rs)
  case Nil
  then show ?case by simp
next
  case (Cons op ops)
  obtain r lc1 w1 where e: "exec_op op lc w = (r, lc1, w1)" by (cases "exec_op op lc w") auto
  have lc1: "lc1 = lc" using exec_op_connected [OF Cons.prems(1) e] by simp
  obtain rs1 where r: "run ops lc1 w1 = (rs1, lc', w')"
    using Cons.prems(3) e by (auto split: prod.splits)
  have "map cs_bound (conns w') = map cs_bound (conns w1)"
    using Cons.IH [of lc1 w1 rs1] Cons.prems(1,2) lc1 r by simp
  also have "\<dots> = map cs_bound (conns w)"
    using exec_op_binds_kept [OF Cons.prems(1) _ e] Cons.prems(2) by simp
  finally show ?case .
qed

subsection \<open>Properties\<close>

text \<open>
  Claim C17. Once the client holds a connection it keeps that same connection
  through any sequence of calls, \<open>Close\<close> included, and never dials again: the
  session is established at most once, and never re-established.
\<close>

theorem run_keeps_session:
  assumes "Conn lc = Some h" and "run ops lc w = (rs, lc', w')"
  shows "Conn lc' = Some h \<and> filter is_dial (trace w') = filter is_dial (trace w)"
  using assms
proof (induction ops arbitrary: lc w rs)
  case Nil
  then show ?case by simp
next
  case (Cons op ops)
  obtain r lc1 w1 where e: "exec_op op lc w = (r, lc1, w1)" by (cases "exec_op op lc w") auto
  from exec_op_connected [OF Cons.prems(1) e] have "lc1 = lc" and q: "quiet w w1" by auto
  with Cons.prems e obtain rs' where "run ops lc w1 = (rs', lc', w')"
    by (auto split: prod.splits)
  with Cons.IH [OF Cons.prems(1)] q show ?case by (simp add: quiet_def)
qed

text \<open>
  Claim C18. In every state reachable from a configured, unconnected client, the
  configuration is unchanged and the connection the client holds, if any, is one
  the collaborator has opened.
\<close>

theorem reachable_inv:
  assumes "reachable lc0 lc w"
  shows "same_config lc0 lc \<and> client_inv lc w"
  using assms
proof (induction rule: reachable.induct)
  case (init w)
  then show ?case by (simp add: client_inv_def)
next
  case (step lc w op r lc' w')
  with exec_op_inv [OF _ step.hyps(2)] show ?case by (blast intro: same_config_trans)
qed

text \<open>
  Claim C19. \<open>Close\<close> leaves \<open>Conn\<close> set to the closed connection, so a later query
  does not reconnect: \<open>SearchUser\<close> after \<open>Close\<close> fails with "connection closed"
  (both of its attempts), instead of opening a new session on demand.
\<close>

theorem close_then_search_user:
  assumes "Conn lc = Some h" and "h < length (conns w)" and "close lc w = (lc1, w1)"
    and "filter_ok (go_sprintf (UserFilter lc) [Go_String u])"
  shows "Conn lc1 = Some h \<and> fst (search_user lc1 u w1) = Inl err_closed"
proof -
  from assms have lc1: "lc1 = lc" and w1: "w1 = ldap_close h w" by (simp_all add: close_def)
  have closed: "\<not> conn_open w1 h"
    using assms(2) by (simp add: w1 ldap_close_def set_conn_def conn_open_def)
  have "fst (search_user lc u w1) =
          (case fst (search_with_retry h (user_search_request lc u (Attributes lc)) w1) of
             Inl err \<Rightarrow> Inl err
           | Inr es \<Rightarrow> (case one_entry es of Inl err \<Rightarrow> Inl err
                       | Inr e \<Rightarrow> Inr (user_of_entry (Attributes lc) e)))"
    using assms(1) by (simp add: search_user_def query_connected split: prod.splits sum.splits)
  with closed assms(1) assms(4) show ?thesis
    by (simp add: lc1 search_with_retry_unfold ldap_search_closed)
qed

text \<open>
  Claim C20. \<open>Close\<close> on an unconnected client makes no call; on a connected one,
  closing twice calls the connection's \<open>Close\<close> twice and leaves the connection
  table as the first call left it.
\<close>

theorem close_idempotent:
  "(case Conn lc of
      None \<Rightarrow> close lc w = (lc, w)
    | Some h \<Rightarrow>
        (let (lc1, w1) = close lc w; (lc2, w2) = close lc1 w1 in
         lc2 = lc \<and> conns w2 = conns w1 \<and> trace w2 = trace w @ [Ev_Close h, Ev_Close h]))"
proof -
  have "conns w2 = conns w1" if "w1 = ldap_close h w" and "w2 = ldap_close h w1" for h w1 w2
    using that by (cases "h < length (conns w)") (simp_all add: ldap_close_def set_conn_def not_less list_update_beyond)
  then show ?thesis by (auto simp: close_def Let_def world_simps split: option.split)
qed


text \<open>
  Claim C34. The identity later queries run under is the one \<open>Authenticate\<close> left:
  on a connected client whose read-only credentials (if configured) are valid and a
  name matching one entry, after \<open>Authenticate\<close> and any calls that do not bind,
  \<open>Close\<close> and \<open>Connect\<close> included, the connection is bound as the read-only
  identity (or as the user, when none is configured) if the password was right, and
  is anonymous if it was wrong: the wrong-password return (line 152) comes before the
  rebind "for any further queries" (lines 154--160), and no query binds.
\<close>

theorem later_calls_bind_state:
  assumes "Conn lc = Some h" and "conn_open w h" and "srv_bind_busy (srv w) = {}"
    and "search_count w \<notin> srv_busy (srv w)"
    and "privileged lc \<longrightarrow> bind_ok (srv w) (BindDN lc) (BindPassword lc)"
    and "user_matches lc u w = [e]" and "\<forall>op\<in>set ops. \<not> is_authenticate op"
  shows "cs_bound (conns (snd (snd (run (Op_Authenticate u p # ops) lc w))) ! h) =
           (if bind_ok (srv w) (entry_dn e) p then Some (if privileged lc then BindDN lc else entry_dn e)
            else None)"
proof -
  obtain r lc1 w1 where a: "authenticate lc u p w = (r, lc1, w1)" by (cases "authenticate lc u p w") auto
  have lc1: "lc1 = lc" using authenticate_decomp [OF a] assms(1) by (auto simp: connect_Some)
  have hl: "h < length (conns w)" using assms(2) by (simp add: conn_open_def)
  have b: "cs_bound (conns w1 ! h) =
             (if bind_ok (srv w) (entry_dn e) p then Some (if privileged lc then BindDN lc else entry_dn e)
              else None)"
    using assms(1-6) hl a [symmetric] user_matches_filter_ok [of lc u w]
    by (cases "privileged lc"; cases "bind_ok (srv w) (entry_dn e) p")
       (simp_all add: auth_open_simps bind_succeeds_def)
  have hl1: "h < length (conns w1)"
    using authenticate_decomp [OF a] assms(1) hl by (auto simp: connect_Some quiet_def)
  obtain rs lc2 w2 where r: "run ops lc1 w1 = (rs, lc2, w2)" by (cases "run ops lc1 w1") auto
  have "map cs_bound (conns w2) = map cs_bound (conns w1)"
    using run_binds_kept [OF _ assms(7) r] assms(1) lc1 by simp
  then have "cs_bound (conns w2 ! h) = cs_bound (conns w1 ! h)"
    using hl1 by (metis length_map nth_map)
  then show ?thesis using a r b by simp
qed

end
