(* ===== verification/Client_Session.thy ===== *)
theory Client_Session
  imports Client_Machine
begin

text \<open>
  The session state machine of the specification (section 4.1, "State machine
  (session only)"): \<^emph>\<open>Unconnected\<close> \<open>\<rightarrow>\<close> \<^emph>\<open>Connected\<close> by \<open>connect\<close>, back by
  \<open>close\<close>, and every query establishes the session on demand. The client's state
  is mapped to it by \<open>sess_abs\<close>: connected when \<open>Conn\<close> names an open connection.
  The refinement theorem shows that every operation of \<open>exec_op\<close> moves the
  abstract state as \<open>spec_step\<close> prescribes, from every state but one kind: the
  \<^emph>\<open>stale\<close> state that \<open>Close\<close> leaves behind, where \<open>Conn\<close> still names the
  closed connection (line 62 does not reset it), so the specification's
  reconnect on demand never happens.
\<close>

datatype session_state = Unconnected | Connected

definition sess_abs :: "ldap_client \<Rightarrow> world \<Rightarrow> session_state" where
  "sess_abs lc w =
     (case Conn lc of None \<Rightarrow> Unconnected | Some h \<Rightarrow> if conn_open w h then Connected else Unconnected)"

definition stale :: "ldap_client \<Rightarrow> world \<Rightarrow> bool" where
  "stale lc w = (case Conn lc of None \<Rightarrow> False | Some h \<Rightarrow> \<not> conn_open w h)"

text \<open>
  The abstract step. Its flag is the collaborator's answer to establishing a
  session (dial and upgrade succeed); it only matters when there is no session.
\<close>

fun spec_step :: "op \<Rightarrow> bool \<Rightarrow> session_state \<Rightarrow> session_state" where
  "spec_step Op_Close ok s = Unconnected"
| "spec_step op ok Connected = Connected"
| "spec_step op ok Unconnected = (if ok then Connected else Unconnected)"

text \<open>A stretch of calls that opens or closes none of the connections it started with.\<close>

definition same_open :: "world \<Rightarrow> world \<Rightarrow> bool" where
  "same_open w w' \<longleftrightarrow> length (conns w) \<le> length (conns w') \<and>
     (\<forall>h < length (conns w). conn_open w' h = conn_open w h)"

subsection \<open>Stretches that keep every connection as it was\<close>

named_theorems same_open_intros "calls that open or close no existing connection"

lemma same_open_refl [same_open_intros]: "same_open w w"
  by (simp add: same_open_def)

lemma same_open_trans: "same_open w1 w2 \<Longrightarrow> same_open w2 w3 \<Longrightarrow> same_open w1 w3"
  by (auto simp: same_open_def)

lemma same_open_conn_open: "same_open w w' \<Longrightarrow> conn_open w h \<Longrightarrow> conn_open w' h"
  by (auto simp: same_open_def conn_open_def)

lemma same_open_closed:
  "same_open w w' \<Longrightarrow> h < length (conns w) \<Longrightarrow> \<not> conn_open w h \<Longrightarrow> \<not> conn_open w' h"
  by (simp add: same_open_def)

lemma conn_open_set_bound [simp]: "conn_open (set_bound h' b w) h = conn_open w h"
  by (cases "h = h'") (auto simp: set_bound_def conn_open_def set_conn_def)

lemma length_set_bound [simp]: "length (conns (set_bound h b w)) = length (conns w)"
  by (simp add: set_bound_def set_conn_def)

lemma same_open_emit [simp]: "same_open w (emit ev w)"
  by (simp add: same_open_def)

lemma same_open_prims [same_open_intros]:
  "same_open w (snd (ldap_search h req w))"
  "same_open w (snd (ldap_bind h dn pw w))"
  "same_open w (go_sleep d w)" "same_open w (go_log_retry req r w)"
  by (simp_all add: same_open_def ldap_bind_def Let_def go_sleep_def go_log_retry_def)

lemma same_open_search_with_retry [same_open_intros]:
  "same_open w (snd (search_with_retry h req w))"
  by (auto simp: search_with_retry_unfold same_open_def go_sleep_def go_log_retry_def
      split: prod.splits sum.splits dest!: ldap_search_world)

lemma same_open_bind_read_only [same_open_intros]: "same_open w (snd (bind_read_only lc h w))"
  by (simp add: bind_read_only_def same_open_intros)

lemma same_open_auth_check [same_open_intros]: "same_open w (snd (auth_check lc h e p w))"
  by (auto simp: auth_check_def Let_def same_open_def ldap_bind_def bind_read_only_def
      split: prod.splits sum.splits if_splits)

text \<open>A successful dial returns an open connection; a failed one leaves the client as it was.\<close>

lemma dial_conn_open:
  assumes "dial_conn lc w = (Inr h, w')" shows "conn_open w' h"
  using assms
  by (auto simp: dial_conn_def Let_def ldap_dial_def ldap_dial_tls_def ldap_start_tls_def new_conn_def
      conn_open_def set_conn_def split: prod.splits sum.splits if_splits)

lemma connect_outcome:
  assumes "Conn lc = None" and "connect lc w = (r, lc', w')"
  shows "if r = None then (\<exists>h. Conn lc' = Some h \<and> conn_open w' h) else lc' = lc"
  using assms dial_conn_open by (auto simp: connect_None split: prod.splits sum.splits)

text \<open>Every method but \<open>Close\<close> is \<open>Connect\<close> followed by a stretch that keeps every connection.\<close>

lemma query_same_open:
  assumes "query mk k lc w = (r, lc', w')"
  shows "\<exists>r1 w1. connect lc w = (r1, lc', w1) \<and> same_open w1 w'"
proof -
  obtain r1 lc1 w1 where c: "connect lc w = (r1, lc1, w1)" by (cases "connect lc w") auto
  have "same_open w1 (snd (search_with_retry h (mk lc1) w1))" for h by (rule same_open_search_with_retry)
  with assms c have "lc' = lc1 \<and> same_open w1 w'"
    by (auto simp: query_def same_open_refl split_beta split: option.splits sum.splits)
  with c show ?thesis by blast
qed

lemma authenticate_same_open:
  assumes "authenticate lc u p w = (r, lc', w')"
  shows "\<exists>r1 w1. connect lc w = (r1, lc', w1) \<and> same_open w1 w'"
proof -
  obtain r1 lc1 w1 where c: "connect lc w = (r1, lc1, w1)" by (cases "connect lc w") auto
  let ?w2 = "\<lambda>h. snd (bind_read_only lc1 h w1)"
  let ?w3 = "\<lambda>h. snd (ldap_search h (auth_search_request lc1 u) (?w2 h))"
  have s2: "same_open w1 (?w2 h)" for h by (rule same_open_bind_read_only)
  have s3: "same_open w1 (?w3 h)" for h using s2 same_open_prims(1) by (rule same_open_trans)
  have s4: "same_open w1 (snd (auth_check lc1 h e p (?w3 h)))" for h e
    using s3 same_open_auth_check by (rule same_open_trans)
  from assms c s2 s3 s4 have "lc' = lc1 \<and> same_open w1 w'"
    by (auto simp: authenticate_def same_open_refl split_beta split: option.splits sum.splits)
  with c show ?thesis by blast
qed

lemma exec_op_same_open:
  assumes "op \<noteq> Op_Close" and "exec_op op lc w = (r, lc', w')"
  shows "\<exists>r1 w1. connect lc w = (r1, lc', w1) \<and> same_open w1 w'"
proof (cases op)
  case Op_Connect
  with assms show ?thesis by (auto simp: same_open_refl split: prod.splits)
next
  case Op_Close
  with assms show ?thesis by simp
next
  case (Op_SearchUser u)
  with assms show ?thesis by (auto simp: search_user_def split: prod.splits dest: query_same_open)
next
  case (Op_Authenticate u p)
  with assms show ?thesis by (auto split: prod.splits dest: authenticate_same_open)
next
  case (Op_GetGroupsOfUser u)
  with assms show ?thesis by (auto simp: get_groups_of_user_def split: prod.splits dest: query_same_open)
next
  case (Op_FindUsers t)
  with assms show ?thesis by (auto simp: find_users_def split: prod.splits dest: query_same_open)
qed

lemma spec_step_not_close:
  "op \<noteq> Op_Close \<Longrightarrow>
   spec_step op ok s = (case s of Connected \<Rightarrow> Connected | Unconnected \<Rightarrow> if ok then Connected else Unconnected)"
  by (cases op; cases s) simp_all

text \<open>
  From a state that is not stale, a method other than \<open>Close\<close> leaves a state that
  is not stale, connected exactly when the client held a connection or
  establishing one succeeded.
\<close>

lemma exec_op_session:
  assumes "op \<noteq> Op_Close" and "\<not> stale lc w" and "exec_op op lc w = (r, lc', w')"
  shows "\<not> stale lc' w' \<and> (sess_abs lc' w' = Connected \<longleftrightarrow> Conn lc \<noteq> None \<or> fst (connect lc w) = None)"
proof -
  obtain r1 w1 where c: "connect lc w = (r1, lc', w1)" and so: "same_open w1 w'"
    using exec_op_same_open [OF assms(1,3)] by blast
  show ?thesis
  proof (cases "Conn lc")
    case None
    show ?thesis
    proof (cases "r1 = None")
      case True
      then obtain h where "Conn lc' = Some h" "conn_open w1 h"
        using connect_outcome [OF None c] by auto
      then show ?thesis using so c True by (simp add: sess_abs_def stale_def same_open_conn_open)
    next
      case False
      then have "lc' = lc" using connect_outcome [OF None c] by simp
      then show ?thesis using None c False by (simp add: sess_abs_def stale_def)
    qed
  next
    case (Some h)
    then have "lc' = lc" "w1 = w" using c by (simp_all add: connect_Some)
    moreover have "conn_open w h" using assms(2) Some by (simp add: stale_def)
    ultimately show ?thesis using so Some by (simp add: sess_abs_def stale_def same_open_conn_open)
  qed
qed

lemma close_session:
  assumes "Conn lc = Some h" and "h < length (conns w)" and "exec_op Op_Close lc w = (r, lc', w')"
  shows "lc' = lc \<and> length (conns w') = length (conns w) \<and>
         (\<forall>h'. conn_open w' h' \<longleftrightarrow> conn_open w h' \<and> h' \<noteq> h)"
  using assms
  by (auto simp: close_def ldap_close_def conn_open_set_conn split: prod.splits if_splits)

lemma close_closes:
  assumes "Conn lc = Some h" and "h < length (conns w)" and "exec_op Op_Close lc w = (r, lc', w')"
  shows "lc' = lc \<and> \<not> conn_open w' h"
  using close_session [OF assms] by blast

lemma stale_Unconnected: "stale lc w \<Longrightarrow> sess_abs lc w = Unconnected"
  by (cases "Conn lc") (simp_all add: stale_def sess_abs_def)

lemma exec_op_stale:
  assumes "client_inv lc w" and "stale lc w" and "exec_op op lc w = (r, lc', w')"
  shows "stale lc' w'"
proof -
  obtain h where h: "Conn lc = Some h" "h < length (conns w)" "\<not> conn_open w h"
    using assms(1,2) by (auto simp: stale_def client_inv_def split: option.splits)
  have lc': "lc' = lc" using exec_op_connected [OF h(1) assms(3)] by simp
  show ?thesis
  proof (cases "op = Op_Close")
    case True
    then have "\<not> conn_open w' h" using close_closes [OF h(1,2)] assms(3) by blast
    then show ?thesis using lc' h(1) by (simp add: stale_def)
  next
    case False
    then obtain r1 w1 where "connect lc w = (r1, lc', w1)" "same_open w1 w'"
      using exec_op_same_open [OF False assms(3)] by blast
    then have "same_open w w'" using h(1) by (simp add: connect_Some)
    then show ?thesis using same_open_closed h lc' by (simp add: stale_def)
  qed
qed

lemma run_connected_stays:
  assumes "\<not> stale lc w" and "sess_abs lc w = Connected" and "Op_Close \<notin> set ops"
    and "run ops lc w = (rs, lc', w')"
  shows "\<not> stale lc' w' \<and> sess_abs lc' w' = Connected"
  using assms
proof (induction ops arbitrary: lc w rs)
  case Nil
  then show ?case by simp
next
  case (Cons op ops)
  obtain r lc1 w1 where e: "exec_op op lc w = (r, lc1, w1)" by (cases "exec_op op lc w") auto
  then obtain rs' where rs': "run ops lc1 w1 = (rs', lc', w')"
    using Cons.prems(4) by (auto split: prod.splits)
  have "Conn lc \<noteq> None" using Cons.prems(2) by (auto simp: sess_abs_def split: option.splits)
  moreover have "op \<noteq> Op_Close" using Cons.prems(3) by auto
  ultimately have "\<not> stale lc1 w1 \<and> sess_abs lc1 w1 = Connected"
    using exec_op_session [OF _ Cons.prems(1) e] by simp
  then show ?case using Cons.IH rs' Cons.prems(3) by auto
qed

subsection \<open>Properties\<close>

text \<open>
  Claim C27. Refinement of the specification's session state machine: from any
  state but a stale one, every method moves the abstract session state exactly as
  the specification's step does. \<open>Close\<close> leads to \<^emph>\<open>Unconnected\<close>; every other
  method keeps \<^emph>\<open>Connected\<close>, and from \<^emph>\<open>Unconnected\<close> reaches \<^emph>\<open>Connected\<close>
  exactly when establishing the session succeeds.
\<close>

theorem exec_op_refines_session:
  assumes "\<not> stale lc w" and "exec_op op lc w = (r, lc', w')"
  shows "sess_abs lc' w' = spec_step op (fst (connect lc w) = None) (sess_abs lc w)"
proof (cases "op = Op_Close")
  case True
  show ?thesis
  proof (cases "Conn lc")
    case None
    then show ?thesis using True assms(2) by (auto simp: close_def sess_abs_def)
  next
    case (Some h)
    then have "h < length (conns w)" using assms(1) by (simp add: stale_def conn_open_def)
    then have "lc' = lc \<and> \<not> conn_open w' h" using close_closes [OF Some] True assms(2) by blast
    then show ?thesis using True Some by (simp add: sess_abs_def)
  qed
next
  case False
  have "sess_abs lc w = (if Conn lc = None then Unconnected else Connected)"
    using assms(1) by (cases "Conn lc") (simp_all add: sess_abs_def stale_def)
  then show ?thesis
    using exec_op_session [OF False assms] False
    by (cases "sess_abs lc' w'") (simp_all add: spec_step_not_close split: if_splits)
qed

text \<open>
  Claim C28. The only way out of the specification's two states: a method leaves
  a stale state, \<open>Conn\<close> naming a closed connection, exactly when it is \<open>Close\<close>
  on a client that holds a connection.
\<close>

theorem stale_exactly_after_close:
  assumes "\<not> stale lc w" and "exec_op op lc w = (r, lc', w')"
  shows "stale lc' w' \<longleftrightarrow> op = Op_Close \<and> Conn lc \<noteq> None"
proof (cases "op = Op_Close")
  case True
  show ?thesis
  proof (cases "Conn lc")
    case None
    then show ?thesis using True assms(2) by (auto simp: close_def stale_def)
  next
    case (Some h)
    then have "h < length (conns w)" using assms(1) by (simp add: stale_def conn_open_def)
    then have "lc' = lc \<and> \<not> conn_open w' h" using close_closes [OF Some] True assms(2) by blast
    then show ?thesis using True Some by (simp add: stale_def)
  qed
next
  case False
  then show ?thesis using exec_op_session [OF False assms] by simp
qed

text \<open>
  Claim C29. The session is never re-established: once stale, the client stays
  stale and \<^emph>\<open>Unconnected\<close> through any sequence of calls, although the
  specification has every query establish a session on demand.
\<close>

theorem stale_absorbing:
  assumes "client_inv lc w" and "stale lc w" and "run ops lc w = (rs, lc', w')"
  shows "stale lc' w' \<and> sess_abs lc' w' = Unconnected"
  using assms
proof (induction ops arbitrary: lc w rs)
  case Nil
  then show ?case by (simp add: stale_Unconnected)
next
  case (Cons op ops)
  obtain r lc1 w1 where e: "exec_op op lc w = (r, lc1, w1)" by (cases "exec_op op lc w") auto
  then obtain rs' where rs': "run ops lc1 w1 = (rs', lc', w')"
    using Cons.prems(3) by (auto split: prod.splits)
  have "client_inv lc1 w1" using exec_op_inv [OF Cons.prems(1) e] by simp
  moreover have "stale lc1 w1" by (rule exec_op_stale [OF Cons.prems(1,2) e])
  ultimately show ?case using Cons.IH rs' by blast
qed

text \<open>
  Claim C30. Without \<open>Close\<close>, the session comes and stays: a fresh client whose
  server accepts the connection is \<^emph>\<open>Connected\<close> after its first call and after
  every later call of any sequence that does not close it.
\<close>

theorem connected_until_close:
  assumes "Conn lc = None" and "fst (connect lc w) = None" and "Op_Close \<notin> set (op # ops)"
    and "run (op # ops) lc w = (rs, lc', w')"
  shows "sess_abs lc' w' = Connected"
proof -
  obtain r lc1 w1 where e: "exec_op op lc w = (r, lc1, w1)" by (cases "exec_op op lc w") auto
  then obtain rs' where rs': "run ops lc1 w1 = (rs', lc', w')"
    using assms(4) by (auto split: prod.splits)
  have "\<not> stale lc w" using assms(1) by (simp add: stale_def)
  moreover have "op \<noteq> Op_Close" using assms(3) by auto
  ultimately have "\<not> stale lc1 w1 \<and> sess_abs lc1 w1 = Connected"
    using exec_op_session [OF _ _ e] assms(2) by simp
  then show ?thesis using run_connected_stays [OF _ _ _ rs'] assms(3) by simp
qed

end
