(* ===== verification/Client_Filter.thy ===== *)
theory Client_Filter
  imports Client_Auth
begin

text \<open>
  What the filter templates of the client mean once the library compiles them
  (\<open>Ldap_Filter\<close>): the search term is formatted into \<open>UserFilter\<close> by
  \<open>fmt.Sprintf\<close> (lines 76, 131, 215) and is never escaped, so a term holding filter
  syntax changes which entries the search selects; a template without a verb makes
  every query fail with a compile error that the retry loop retries. The lemmas are
  stated for the template \<open>(uid=%s)\<close> of the specification's scenarios, and for
  the two-verb template \<open>(|(a=%s)(b=%s))\<close>, which never compiles.
\<close>

subsection \<open>The template \<open>(uid=%s)\<close>\<close>

lemma uid_template:
  "UserFilter lc = ''(uid=%s)'' \<Longrightarrow> go_sprintf (UserFilter lc) [Go_String t] = ''(uid='' @ t @ '')''"
  using go_sprintf_one_s [of "''(uid=''" "'')''" t] by simp

lemma compile_uid:
  "CHR '')'' \<notin> set v \<Longrightarrow> compile_filter (''(uid='' @ v @ '')'') = item_filter ''uid'' ''='' v"
  using compile_filter_item [of "''uid''" v] by (simp add: filter_special_def)

text \<open>The entries under the base for which a compiled filter holds.\<close>

lemma user_matches_compiled:
  assumes "UserFilter lc = ''(uid=%s)''" and "compile_filter (''(uid='' @ t @ '')'') = Inr f"
  shows "user_matches lc t w =
           filter (\<lambda>e. in_scope (Base lc) ScopeWholeSubtree (entry_dn e) \<and> filt_eval (get_attribute_values e) f)
             (srv_entries (srv w))"
proof -
  have "go_sprintf (UserFilter lc) [Go_String t] = ''(uid='' @ t @ '')''" by (rule uid_template [OF assms(1)])
  then show ?thesis using assms(2) by (simp add: user_matches_def matching_entries_def filter_matches_def)
qed

lemma user_matches_star:
  assumes "UserFilter lc = ''(uid=%s)''"
  shows "user_matches lc ''*'' w =
           filter (\<lambda>e. in_scope (Base lc) ScopeWholeSubtree (entry_dn e) \<and> get_attribute_values e ''uid'' \<noteq> [])
             (srv_entries (srv w))"
proof -
  have "compile_filter (''(uid='' @ ''*'' @ '')'') = Inr (F_Present ''uid'')"
    using compile_uid [of "''*''"] by (simp add: item_filter_present)
  then show ?thesis using user_matches_compiled [OF assms] by simp
qed

lemma compile_uid_escaped:
  "compile_filter (''(uid='' @ escape_filter u @ '')'') = Inr (F_Equal ''uid'' u)"
  using compile_uid [of "escape_filter u"] escape_filter_plain [of u]
  by (simp add: item_filter_equal unescape_escape_filter)

text \<open>A term with no special character followed by a star is a prefix assertion.\<close>

lemma split_star_Cons: "split_star r \<noteq> []"
  by (induction r) (auto split: list.splits)

lemma split_star_plain: "CHR ''*'' \<notin> set t \<Longrightarrow> split_star (t @ r) = (case split_star r of p # ps \<Rightarrow> (t @ p) # ps)"
  by (induction t) (auto simp: split_star_Cons split: list.splits)

lemma compile_uid_prefix:
  assumes "\<forall>x\<in>set t. \<not> filter_special x" and "t \<noteq> []"
  shows "compile_filter (''(uid='' @ (t @ ''*'') @ '')'') = Inr (F_Substrings ''uid'' t [] [])"
proof -
  have nstar: "CHR ''*'' \<notin> set t" and nbs: "CHR 0x5C \<notin> set t" and np: "CHR '')'' \<notin> set t"
    using assms(1) by (auto simp: filter_special_def)
  have "split_star (t @ ''*'') = [t, []]" using split_star_plain [OF nstar, of "''*''"] by simp
  moreover have "t @ ''*'' \<noteq> ''*''" using assms(2) by simp
  ultimately show ?thesis
    using compile_uid [of "t @ ''*''"] np nstar
    by (simp add: item_filter_def substrings_filter_def unescape_all_def unescape_plain [OF nbs])
qed

text \<open>A disjunctive template \<open>(|(a=%s)(b=%s))\<close> formatted with the one argument
the client passes: the second operand's value becomes \<open>%!s(MISSING\<close>, whose
parenthesis closes it, and one parenthesis is left over.\<close>

lemma or_template_compile:
  assumes "UserFilter lc = ''(|('' @ a @ ''=%s)('' @ b @ ''=%s))''"
    and "\<forall>x\<in>set a. \<not> filter_special x" and "\<forall>x\<in>set b. \<not> filter_special x"
    and "CHR ''%'' \<notin> set (a @ b)" and "\<forall>x\<in>set u. \<not> filter_special x"
  shows "compile_filter (go_sprintf (UserFilter lc) [Go_String u]) = Inl (err_extra @ '')'')"
proof -
  let ?p = "CHR ''('' # CHR ''|'' # CHR ''('' # a @ CHR ''='' # u @ CHR '')'' #
              CHR ''('' # b @ CHR ''='' # ''%!s(MISSING'' @ ''))''"
  have "go_sprintf (UserFilter lc) [Go_String u] =
          (''(|('' @ a @ ''='') @ u @ ('')('' @ b @ ''='') @ ''%!s(MISSING)'' @ ''))''"
    using assms(1,4) go_sprintf_two_s [of "''(|('' @ a @ ''=''" "'')('' @ b @ ''=''" "''))''" u] by simp
  then have f: "go_sprintf (UserFilter lc) [Go_String u] = ?p @ '')''" by simp
  have "compile_filter ?p = Inr (F_Or [F_Equal a u, F_Equal b ''%!s(MISSING''])"
    by (rule compile_filter_or_pair [OF assms(2,5,3)]) simp_all
  then have "compile_filter (?p @ '')'') = Inl (err_extra @ '')'')"
    by (rule compile_filter_extra) simp
  then show ?thesis by (simp only: f)
qed

subsection \<open>Properties\<close>

text \<open>
  Claim C23. Filter injection through the user name: with the template
  \<open>(uid=%s)\<close>, \<open>Authenticate\<close> called with the user name \<open>*\<close> searches for every
  entry that has a \<open>uid\<close>; where exactly one such entry lies under the base, its
  password authenticates the caller, who never named that user.
\<close>

theorem authenticate_star_injection:
  assumes "Conn lc = Some h" and "conn_open w h" and "srv_bind_busy (srv w) = {}"
    and "search_count w \<notin> srv_busy (srv w)"
    and "privileged lc \<longrightarrow> bind_ok (srv w) (BindDN lc) (BindPassword lc)"
    and "UserFilter lc = ''(uid=%s)''"
    and "filter (\<lambda>e. in_scope (Base lc) ScopeWholeSubtree (entry_dn e) \<and> get_attribute_values e ''uid'' \<noteq> [])
           (srv_entries (srv w)) = [e]"
    and "bind_ok (srv w) (entry_dn e) p"
  shows "fst (authenticate lc ''*'' p w) = (True, Some (user_of_entry (Attributes lc) e), None)"
proof -
  have m: "user_matches lc ''*'' w = [e]" using user_matches_star [OF assms(6)] assms(7) by simp
  show ?thesis
    using assms(1-5,8) m user_matches_filter_ok [of lc "''*''" w]
    by (cases "privileged lc") (simp_all add: auth_open_simps bind_succeeds_def)
qed

text \<open>
  Claim C24. What escaping would give: formatting the escaped term
  (\<open>ldap.EscapeFilter\<close>) into \<open>(uid=%s)\<close> makes \<open>SearchUser\<close> look up exactly the
  entries whose \<open>uid\<close> is the term, for every term: no compile error and no change
  of the filter's structure, whatever the term holds.
\<close>

theorem search_user_escaped:
  assumes "Conn lc = Some h" and "conn_open w h" and "answered w" and "UserFilter lc = ''(uid=%s)''"
  shows "fst (search_user lc (escape_filter u) w) =
    (case filter (\<lambda>e. in_scope (Base lc) ScopeWholeSubtree (entry_dn e) \<and> u \<in> set (get_attribute_values e ''uid''))
            (srv_entries (srv w)) of
       [] \<Rightarrow> Inl (Errors_New ''User does not exist'')
     | [e] \<Rightarrow> Inr (user_of_entry (Attributes lc) e)
     | _ \<Rightarrow> Inl (Errors_New ''Too many entries returned''))"
proof -
  have c: "compile_filter (go_sprintf (UserFilter lc) [Go_String (escape_filter u)]) = Inr (F_Equal ''uid'' u)"
    using uid_template [OF assms(4)] compile_uid_escaped by simp
  have m: "user_matches lc (escape_filter u) w =
     filter (\<lambda>e. in_scope (Base lc) ScopeWholeSubtree (entry_dn e) \<and> u \<in> set (get_attribute_values e ''uid''))
       (srv_entries (srv w))"
    using user_matches_compiled [OF assms(4) compile_uid_escaped] by simp
  have "fst (search_user lc (escape_filter u) w) =
          (case one_entry (server_search (srv w) (user_search_request lc (escape_filter u) (Attributes lc))) of
             Inl err \<Rightarrow> Inl err | Inr e \<Rightarrow> Inr (user_of_entry (Attributes lc) e))"
    unfolding search_user_def by (subst query_answered [OF assms(1-3)]) (simp add: c)
  then show ?thesis
    by (simp add: server_search_user one_entry_map one_entry_cases m split: list.splits sum.splits)
qed

text \<open>
  Claim C25. A user filter without a \<open>%s\<close> verb, such as a fixed valid filter,
  makes every \<open>SearchUser\<close> fail: \<open>fmt.Sprintf\<close> appends
  \<open>%!(EXTRA string=\<dots>)\<close>, the library rejects the text after the filter
  (\<open>ErrorFilterCompile\<close>), and the retry loop sends the same request a second time
  after logging and sleeping, although no retry can cure the error.
\<close>

theorem search_user_no_verb:
  assumes "Conn lc = Some h" and "CHR ''%'' \<notin> set (UserFilter lc)" and "compile_filter (UserFilter lc) = Inr f"
  shows "fst (search_user lc u w) = Inl (filter_error (err_extra @ ''%!(EXTRA string='' @ u @ '')''))
       \<and> search_count (snd (snd (search_user lc u w))) = search_count w + 2"
proof -
  let ?req = "user_search_request lc u (Attributes lc)"
  have c: "compile_filter (sr_Filter ?req) = Inl (err_extra @ ''%!(EXTRA string='' @ u @ '')'')"
    using go_sprintf_no_verb [OF assms(2), of u] compile_filter_extra [OF assms(3)] by simp
  have r: "search_user lc u w =
     (Inl (filter_error (err_extra @ ''%!(EXTRA string='' @ u @ '')'')), lc,
      go_sleep (time_Second * 3) (go_log_retry ?req 3 (emit (Ev_Search h ?req) (emit (Ev_Search h ?req) w))))"
    by (simp add: search_user_def query_connected [OF assms(1)] search_with_retry_bad_filter [OF c])
  show ?thesis by (simp add: r go_sleep_def go_log_retry_def)
qed

text \<open>
  Claim C26. The wildcard search \<open>FindUsers\<close> is meant for: with the template
  \<open>(uid=%s)\<close>, a term \<open>t*\<close> whose \<open>t\<close> holds no special character compiles to a
  substring filter with initial part \<open>t\<close>, and \<open>FindUsers\<close> returns one map per entry
  under the base with a \<open>uid\<close> starting with \<open>t\<close>, or "User does not exist".
\<close>

theorem find_users_prefix:
  assumes "Conn lc = Some h" and "conn_open w h" and "answered w" and "UserFilter lc = ''(uid=%s)''"
    and "\<forall>x\<in>set t. \<not> filter_special x" and "t \<noteq> []"
  shows "fst (find_users lc (t @ ''*'') w) =
    (let es = filter (\<lambda>e. in_scope (Base lc) ScopeWholeSubtree (entry_dn e) \<and>
                          (\<exists>v\<in>set (get_attribute_values e ''uid''). prefix t v)) (srv_entries (srv w))
     in if es = [] then Inl (Errors_New ''User does not exist'') else Inr (map (user_of_entry (Attributes lc)) es))"
proof -
  have c: "compile_filter (go_sprintf (UserFilter lc) [Go_String (t @ ''*'')]) = Inr (F_Substrings ''uid'' t [] [])"
    using uid_template [OF assms(4)] compile_uid_prefix [OF assms(5,6)] by simp
  have m: "user_matches lc (t @ ''*'') w =
     filter (\<lambda>e. in_scope (Base lc) ScopeWholeSubtree (entry_dn e) \<and>
                  (\<exists>v\<in>set (get_attribute_values e ''uid''). prefix t v)) (srv_entries (srv w))"
    using user_matches_compiled [OF assms(4) compile_uid_prefix [OF assms(5,6)]]
    by (simp add: substr_match_def)
  show ?thesis
    unfolding find_users_def
    by (subst query_answered [OF assms(1-3)])
       (simp add: c server_search_user users_of_entries_map comp_def m Let_def)
qed

text \<open>
  Claim C31. Filter injection through the group query: with the template
  \<open>(memberUid=%s)\<close>, \<open>GetGroupsOfUser("*")\<close> lists the \<open>cn\<close> of every group under
  the base that has a member, whoever asks.
\<close>

theorem get_groups_star_injection:
  assumes "Conn lc = Some h" and "conn_open w h" and "answered w"
    and "GroupFilter lc = ''(memberUid=%s)''"
  shows "fst (get_groups_of_user lc ''*'' w) =
    Inr (map (\<lambda>e. get_attribute_value e ''cn'')
      (filter (\<lambda>e. in_scope (Base lc) ScopeWholeSubtree (entry_dn e) \<and> get_attribute_values e ''memberUid'' \<noteq> [])
         (srv_entries (srv w))))"
proof -
  have f: "go_sprintf (GroupFilter lc) [Go_String ''*''] = ''(memberUid=*)''"
    using assms(4) go_sprintf_one_s [of "''(memberUid=''" "'')''" "''*''"] by simp
  have c: "compile_filter ''(memberUid=*)'' = Inr (F_Present ''memberUid'')"
    using compile_filter_item [of "''memberUid''" "''*''"] by (simp add: filter_special_def item_filter_present)
  have m: "group_matches lc ''*'' w =
     filter (\<lambda>e. in_scope (Base lc) ScopeWholeSubtree (entry_dn e) \<and> get_attribute_values e ''memberUid'' \<noteq> [])
       (srv_entries (srv w))"
    using f c by (simp add: group_matches_def matching_entries_def filter_matches_def)
  show ?thesis
    unfolding get_groups_of_user_def
    by (subst query_answered [OF assms(1-3)]) (simp add: f c server_search_group groups_of_entries_map m)
qed


text \<open>
  Claim C33. A user filter with two \<open>%s\<close> verbs, such as \<open>(|(uid=%s)(mail=%s))\<close>
  to look users up by either attribute, makes every \<open>SearchUser\<close> with a plain
  term fail: the client passes one argument, \<open>fmt.Sprintf\<close> renders the second verb
  as \<open>%!s(MISSING)\<close>, whose parenthesis ends the second operand, the library
  rejects the parenthesis left after the filter (\<open>ErrorFilterCompile\<close>), and the
  retry loop sends the same request a second time.
\<close>

theorem search_user_two_verbs:
  assumes "Conn lc = Some h" and "UserFilter lc = ''(|('' @ a @ ''=%s)('' @ b @ ''=%s))''"
    and "\<forall>x\<in>set a. \<not> filter_special x" and "\<forall>x\<in>set b. \<not> filter_special x"
    and "CHR ''%'' \<notin> set (a @ b)" and "\<forall>x\<in>set u. \<not> filter_special x"
  shows "fst (search_user lc u w) = Inl (filter_error (err_extra @ '')''))
       \<and> search_count (snd (snd (search_user lc u w))) = search_count w + 2"
proof -
  let ?req = "user_search_request lc u (Attributes lc)"
  have c: "compile_filter (sr_Filter ?req) = Inl (err_extra @ '')'')"
    using or_template_compile [OF assms(2-6)] by simp
  have r: "search_user lc u w =
     (Inl (filter_error (err_extra @ '')'')), lc,
      go_sleep (time_Second * 3) (go_log_retry ?req 3 (emit (Ev_Search h ?req) (emit (Ev_Search h ?req) w))))"
    by (simp add: search_user_def query_connected [OF assms(1)] search_with_retry_bad_filter [OF c])
  show ?thesis by (simp add: r go_sleep_def go_log_retry_def)
qed

end
