(* ===== verification/Spec2Isabelle.thy ===== *)
theory Spec2Isabelle
  imports Client_Session Client_Filter
begin

text \<open>
  \<^bold>\<open>A verification model of \<open>go-ldap-client\<close>.\<close>

  The repository is one Go file, \<open>src/ldap-client.go\<close>: a struct \<open>LDAPClient\<close>
  (lines 14--26) holding a configuration and a lazily opened \<open>*ldap.Conn\<close>, and
  six methods: \<open>Connect\<close> (29--58), \<open>Close\<close> (61--65), \<open>SearchUser\<close> (67--109),
  \<open>Authenticate\<close> (112--170), \<open>GetGroupsOfUser\<close> (173--204) and \<open>FindUsers\<close>
  (206--248). Every method but \<open>Close\<close> first calls \<open>Connect\<close>; the three query
  methods share a search-and-retry loop; all of them reach the directory only
  through the session object of \<open>gopkg.in/ldap.v2\<close>, whose bind state is shared
  by all calls on one client.

  \<^bold>\<open>Theories and what models what.\<close>
  \<^item> \<open>LDAP_Prelude\<close>: the rule collections \<open>world_simps\<close> and \<open>client_simps\<close>, the
    type \<open>attr_map\<close> of Go's \<open>map[string]string\<close>, and \<open>fill_map\<close>, the Go loop
    that fills a map key by key.
  \<^item> \<open>Go_Fmt\<close>: \<open>fmt.Sprintf\<close> (\<open>go_sprintf\<close>, \<open>do_printf\<close>) for \<open>%s %v %d %%\<close> with
    Go's renderings of missing, ill-typed and extra arguments, and decimal printing
    (\<open>go_itoa\<close>). Library code, modelled from its documented behaviour.
  \<^item> \<open>Ldap_Lib\<close>: the collaborator. ldap.v2's \<open>Entry\<close> (\<open>entry\<close>,
    \<open>get_attribute_value\<close>), \<open>SearchRequest\<close> (\<open>search_request\<close>,
    \<open>new_search_request\<close>), the session primitives \<open>ldap_dial\<close>, \<open>ldap_start_tls\<close>,
    \<open>ldap_dial_tls\<close>, \<open>ldap_bind\<close>, \<open>ldap_search\<close>, \<open>ldap_close\<close>, and the Go
    runtime's \<open>go_log_retry\<close> and \<open>go_sleep\<close>. They act on a \<open>world\<close>: a \<open>server\<close>
    (address, StartTLS support, certificate names, entries, passwords, whether
    unauthenticated binds are accepted, and the indices of the searches and binds
    that fail transiently with \<open>busy\<close>), the table of connections (open, TLS, bound
    DN) and the trace of every call in order. \<open>ldap_search\<close> first compiles the
    request's filter, failing with \<open>filter_error\<close> (\<open>ErrorFilterCompile\<close>, 201)
    before any other check, as \<open>Conn.Search\<close> encodes the request before sending
    it; the server evaluates the compiled filter (\<open>filter_matches\<close>).
  \<^item> \<open>Ldap_Filter\<close>: ldap.v2's filter compiler (\<open>compile_filter\<close>: \<open>CompileFilter\<close>;
    \<open>compile_filt\<close>, \<open>compile_set\<close>: \<open>compileFilter\<close>, \<open>compileFilterSet\<close>;
    \<open>compile_item\<close>: the item state machine; \<open>unescape\<close>:
    \<open>escapedStringToEncodedBytes\<close>), \<open>escape_filter\<close> (\<open>EscapeFilter\<close>), and the
    server's evaluation \<open>filt_eval\<close> of a compiled filter (RFC 4511 4.5.1.7), with
    the leftmost-occurrence substring matcher \<open>substr_match\<close> and its reference
    \<open>glob_ref\<close>. Library code, modelled from RFC 4515 and the library's behaviour.
  \<^item> \<open>Client_Connect\<close>: \<open>ldap_client\<close> (the struct, field for field; \<open>Conn\<close> is a
    handle or \<open>None\<close> for \<open>nil\<close>), \<open>server_address\<close> (line 33), \<open>dial_conn\<close> (the two
    dial branches, 34--53), \<open>connect\<close> (29--58), \<open>close\<close> (61--65), and \<open>tls_name\<close>, the name the
    certificate is checked against (\<open>ServerName\<close>, or the address's host when it is
    empty, as \<open>crypto/tls\<close> infers it; used by the certificate property C16).
  \<^item> \<open>Client_Search\<close>: \<open>retry_search\<close> and \<open>search_with_retry\<close> (the loop of 81--89,
    repeated at 186--194 and 220--228), \<open>one_entry\<close> (95--101), \<open>user_of_entry\<close>
    (103--106), \<open>groups_of_entries\<close> (199--202), \<open>users_of_entries\<close> (238--245), the
    request builders, and \<open>search_user\<close>, \<open>get_groups_of_user\<close>, \<open>find_users\<close>, which
    share the skeleton \<open>query\<close> as the three Go methods share their code.
  \<^item> \<open>Client_Auth\<close>: \<open>privileged\<close> (the condition of lines 119 and 162),
    \<open>bind_read_only\<close>, \<open>auth_search_request\<close>, \<open>auth_check\<close> (149--169) and
    \<open>authenticate\<close> (112--170).
  \<^item> \<open>Client_Machine\<close>: the caller's view: a datatype \<open>op\<close> of the six methods,
    \<open>exec_op\<close>, \<open>run\<close> over operation lists, and the inductive \<open>reachable\<close> states of
    one client; \<open>quiet\<close> stretches of calls that open no connection; the bind
    state of the connections, which only \<open>Authenticate\<close> (\<open>is_authenticate\<close>)
    changes (\<open>run_binds_kept\<close>).
  \<^item> \<open>Client_Filter\<close>: what the client's templates mean once compiled: the
    template \<open>(uid=%s)\<close> with a plain term, with \<open>*\<close>, with an escaped term, with
    \<open>t*\<close>, and a template without a verb; the two-verb template
    \<open>(|(a=%s)(b=%s))\<close> (\<open>or_template_compile\<close>, on \<open>compile_filter_or_pair\<close> of
    \<open>Ldap_Filter\<close>).
  \<^item> \<open>Client_Session\<close>: the specification's session state machine (section 4.1):
    \<open>session_state\<close>, its step \<open>spec_step\<close>, the abstraction \<open>sess_abs\<close> of a
    client and world, the \<open>stale\<close> state, and \<open>same_open\<close> stretches of calls
    that neither open nor close an existing connection.
  \<^item> This theory: the header, the example directory of the specification's scenarios
    (alice, the groups admins and devs, a read-only identity) and one witness per
    property with a hypothesis.

  \<^bold>\<open>Correspondence.\<close> A method \<open>func (lc *LDAPClient) M(args) (results)\<close> is a
  function \<open>m lc args w\<close> returning the results, the client and the world. A Go
  \<open>error\<close> is \<open>error option\<close> or the left of a sum; every early \<open>return\<close> is a
  branch; \<open>errors.New(s)\<close> is \<open>Errors_New s\<close>; a nil dereference would be a
  \<open>Go_Panic\<close> (it is unreachable: \<open>connect_result\<close>).

  \<^bold>\<open>What is shown\<close> (claim ids as in the manifest).
  \<^item> Queries: the contracts of \<open>SearchUser\<close>, \<open>GetGroupsOfUser\<close>, \<open>FindUsers\<close> on an
    open connection (C1, C4, C5); \<open>SearchUser\<close> equals \<open>FindUsers\<close> plus the
    uniqueness check (C22); absent attributes map to the empty string (C21).
  \<^item> Retry loop: at most two attempts, one log line and one three-second sleep after a
    failed first attempt (C2); termination within \<open>4 - retry\<close> attempts from any
    counter (C6); so a collaborator failing twice fails the query (C3), against the
    specification's three retries with 1, 2, 3 seconds of backoff.
  \<^item> Authentication: right password (C7), wrong password with attributes and the bind
    error (C8), failed rebind as partial success (C9), no retry of its search (C10),
    the bind state left behind (C11), unknown or ambiguous users (C12), a failed
    read-only bind (C13); in every state, \<open>Authenticate\<close> reports success only
    for the one entry its search found and a password the server accepts for that
    entry's DN, with that entry's attributes (C32); the bind state every later call
    runs under: the read-only identity after a right password, anonymous after a
    wrong one, since the wrong-password return precedes the rebind and no query
    binds (C34).
  \<^item> Connection lifecycle: \<open>Connect\<close> is idempotent (C14), leaks the dialled
    connection when StartTLS fails (C15), verifies certificates only with \<open>UseSSL\<close>
    (C16); once connected the client never dials again, \<open>Close\<close> included (C17);
    reachable states keep the configuration and a valid handle (C18); after
    \<open>Close\<close> queries fail on the closed connection instead of reconnecting (C19);
    \<open>Close\<close> twice (C20).
  \<^item> Filters: the search term is spliced into the template unescaped, so with
    \<open>(uid=%s)\<close> the name \<open>*\<close> selects every user and \<open>Authenticate("*", pw)\<close>
    authenticates as the only user of a directory (C23); an escaped term would
    select exactly its uid (C24); a template without \<open>%s\<close> makes every query fail
    with the compile error, retried once (C25); \<open>t*\<close> is a prefix search (C26);
    with \<open>(memberUid=%s)\<close>, \<open>GetGroupsOfUser("*")\<close> lists every group with a
    member (C31); a template with two verbs, \<open>(|(a=%s)(b=%s))\<close>, makes every
    \<open>SearchUser\<close> fail with the compile error, since the client passes one argument
    and the second verb prints \<open>%!s(MISSING)\<close> (C33). A filter that does not
    compile gives the error 201 in every query contract (C1, C4, C5).
  \<^item> Session state machine: outside the stale state every method refines the
    specification's step (C27); the stale state arises exactly from \<open>Close\<close> on a
    connected client (C28) and is never left (C29); without \<open>Close\<close> a client whose
    server accepts it is connected after its first call and stays so (C30).

  \<^bold>\<open>Bounds and fuel.\<close> The only loop of the client is the retry loop, defined
  with \<open>function\<close> and the measure \<open>4 - retry\<close>; the other loops range over lists
  (folds). The library's filter compiler is a mutual recursion whose calls after a
  nested filter continue on the rest it returns; it is given fuel, and
  \<open>compile_filter\<close> gives it one more than the length of the filter, which is
  enough: every successful step consumes input (\<open>compile_shorter\<close>), so the
  out-of-fuel result never arises (\<open>compile_enough_fuel\<close>), and more fuel never
  changes a result (\<open>compile_fuel_mono\<close>). Transient failures are scheduled by index sets in the
  server, so every schedule (none, the first attempt, both attempts, the rebind) is a
  concrete world.

  \<^bold>\<open>Further work.\<close> Every line of \<open>src/ldap-client.go\<close> that is code is
  modelled. What remains are properties of the library side: the results of the
  queries over a whole run of operations against an abstract directory, and
  templates with verbs in other positions than the ones of C23--C26, C31 and
  C33.

  \<^bold>\<open>Not modelled.\<close> The wire protocol, BER encoding and TLS handshakes (the
  library's); extensible-match filter items (\<open>attr:dn:rule:=value\<close>), which the
  model rejects with a compile error where the library compiles them, UTF-8
  decoding of filters (bytes are taken as runes), server matching rules other
  than exact string comparison and RFC 4511's Undefined filter value; the
  aliasing of \<open>append(lc.Attributes, "dn")\<close> (line 126), which could only be
  observed by a concurrent caller appending to the same slice; the text of log lines (the event keeps the request and counter); the
  wall clock (a sleep is an event with its duration); concurrency (the specification
  assumes one caller per client); DN case-folding and access control on the server;
  \<open>fmt\<close> flags, widths and the verbs other than \<open>%s %v %d %%\<close>.
\<close>

subsection \<open>The example directory of the specification's scenarios\<close>

definition alice :: entry where
  "alice = \<lparr>entry_dn = ''uid=alice,ou=people,dc=example,dc=com'',
            entry_attributes = [(''uid'', [''alice'']), (''cn'', [''Alice A'']),
                                (''mail'', [''alice@example.com''])]\<rparr>"

definition admins :: entry where
  "admins = \<lparr>entry_dn = ''cn=admins,ou=groups,dc=example,dc=com'',
             entry_attributes = [(''cn'', [''admins'']), (''memberUid'', [''bob'', ''carol''])]\<rparr>"

definition devs :: entry where
  "devs = \<lparr>entry_dn = ''cn=devs,ou=groups,dc=example,dc=com'',
           entry_attributes = [(''cn'', [''devs'']), (''memberUid'', [''bob''])]\<rparr>"

definition example_server :: server where
  "example_server =
     \<lparr>srv_address = ''ldap.example.com:389'', srv_start_tls = True,
      srv_cert_names = [''ldap.example.com''], srv_entries = [alice, admins, devs],
      srv_passwords = [(''uid=alice,ou=people,dc=example,dc=com'', ''wonderland''),
                       (''cn=reader,dc=example,dc=com'', ''read-only'')],
      srv_unauth_bind = False, srv_busy = {}, srv_bind_busy = {}\<rparr>"

text \<open>A client connected over connection 0, which is open and upgraded to TLS.\<close>

definition example_client :: ldap_client where
  "example_client =
     \<lparr>Conn = Some 0, Host = ''ldap.example.com'', Port = 389, UseSSL = False,
      BindDN = [], BindPassword = [], GroupFilter = ''(memberUid=%s)'',
      UserFilter = ''(uid=%s)'', Base = ''dc=example,dc=com'', Attributes = [''cn'', ''mail''],
      ServerName = []\<rparr>"

definition example_world :: world where
  "example_world =
     \<lparr>srv = example_server, conns = [\<lparr>cs_open = True, cs_tls = True, cs_bound = None\<rparr>], trace = []\<rparr>"

text \<open>The same world with the first two searches answered \<open>busy\<close>.\<close>

definition flaky_world :: world where
  "flaky_world = example_world\<lparr>srv := example_server\<lparr>srv_busy := {0, 1}\<rparr>\<rparr>"

text \<open>The example client configured with the read-only identity, and with a wrong password for it.\<close>

definition reader_client :: ldap_client where
  "reader_client = example_client\<lparr>BindDN := ''cn=reader,dc=example,dc=com'', BindPassword := ''read-only''\<rparr>"

definition bad_reader_client :: ldap_client where
  "bad_reader_client = reader_client\<lparr>BindPassword := ''guess''\<rparr>"

text \<open>Worlds with one scheduled fault, and a server that accepts unauthenticated binds.\<close>

definition rebind_busy_world :: world where
  "rebind_busy_world = example_world\<lparr>srv := example_server\<lparr>srv_bind_busy := {2}\<rparr>\<rparr>"

definition search_busy_once_world :: world where
  "search_busy_once_world = example_world\<lparr>srv := example_server\<lparr>srv_busy := {0}\<rparr>\<rparr>"

definition unauth_world :: world where
  "unauth_world = example_world\<lparr>srv := example_server\<lparr>srv_unauth_bind := True\<rparr>\<rparr>"

text \<open>
  A freshly configured client before any call, a world with no connection yet, and
  the same world whose server refuses StartTLS; the same client configured for TLS.
\<close>

definition fresh_client :: ldap_client where
  "fresh_client = example_client\<lparr>Conn := None\<rparr>"

definition tls_client :: ldap_client where
  "tls_client = fresh_client\<lparr>UseSSL := True\<rparr>"

definition fresh_world :: world where
  "fresh_world = example_world\<lparr>conns := []\<rparr>"

definition no_start_tls_world :: world where
  "no_start_tls_world = fresh_world\<lparr>srv := example_server\<lparr>srv_start_tls := False\<rparr>\<rparr>"

text \<open>The example client misconfigured with a fixed filter in place of a template.\<close>

definition fixed_filter_client :: ldap_client where
  "fixed_filter_client = example_client\<lparr>UserFilter := ''(objectClass=person)''\<rparr>"

text \<open>The example world after the client's connection was closed.\<close>

definition closed_world :: world where
  "closed_world = ldap_close 0 example_world"

text \<open>The example client with a template that looks users up by uid or mail.\<close>

definition two_verb_client :: ldap_client where
  "two_verb_client = example_client\<lparr>UserFilter := ''(|(uid=%s)(mail=%s))''\<rparr>"

lemmas example_defs = example_client_def example_world_def example_server_def flaky_world_def
  fresh_client_def tls_client_def fresh_world_def no_start_tls_world_def
  reader_client_def bad_reader_client_def rebind_busy_world_def search_busy_once_world_def unauth_world_def
  alice_def admins_def devs_def fixed_filter_client_def two_verb_client_def

lemmas eval_simps = go_sprintf_def go_fmt_verb_def go_extra_def
  filter_matches_def filter_ok_def compile_filter_def compile_item_def item_filter_def
  get_attribute_values_def get_attribute_value_def matching_entries_def in_scope_def ends_with_def
  user_matches_def group_matches_def conn_open_def search_count_def bind_count_def privileged_def
  bind_ok_def bind_succeeds_def server_address_def go_itoa_def nat_digits.simps digit_char_def

text \<open>The example templates compile, for the names the witnesses use, to equality filters.\<close>

lemma example_filters:
  "compile_filter (go_sprintf (UserFilter example_client) [Go_String ''alice'']) = Inr (F_Equal ''uid'' ''alice'')"
  "compile_filter (go_sprintf (UserFilter example_client) [Go_String ''carol'']) = Inr (F_Equal ''uid'' ''carol'')"
  "compile_filter (go_sprintf (UserFilter example_client) [Go_String ''mallory'']) = Inr (F_Equal ''uid'' ''mallory'')"
  "compile_filter (go_sprintf (GroupFilter example_client) [Go_String ''bob'']) = Inr (F_Equal ''memberUid'' ''bob'')"
  by (simp_all add: example_defs eval_simps)

lemma example_filters_ok:
  "filter_ok (go_sprintf (UserFilter example_client) [Go_String ''alice''])"
  "filter_ok (go_sprintf (UserFilter example_client) [Go_String ''mallory''])"
  by (simp_all add: filter_ok_def example_filters)

subsection \<open>Witnesses\<close>

theorem search_user_contract_witness:
  "Conn example_client = Some 0 \<and> conn_open example_world 0 \<and> answered example_world \<and>
   fst (search_user example_client ''alice'' example_world) =
     Inr [''cn'' \<mapsto> ''Alice A'', ''mail'' \<mapsto> ''alice@example.com'']"
proof -
  have h: "Conn example_client = Some 0" "conn_open example_world 0" "answered example_world"
    by (simp_all add: example_defs eval_simps)
  have "user_matches example_client ''alice'' example_world = [alice]"
    by (simp add: example_defs eval_simps)
  then have "fst (search_user example_client ''alice'' example_world) =
               Inr (user_of_entry [''cn'', ''mail''] alice)"
    using Client_Search.search_user_contract [OF h] example_filters(1) by (simp add: example_client_def)
  also have "\<dots> = Inr [''cn'' \<mapsto> ''Alice A'', ''mail'' \<mapsto> ''alice@example.com'']"
    by (simp add: user_of_entry_def alice_def get_attribute_value_def get_attribute_values_def)
  finally show ?thesis using h by simp
qed

theorem search_user_busy_twice_witness:
  "Conn example_client = Some 0 \<and> filter_ok (go_sprintf (UserFilter example_client) [Go_String ''alice'']) \<and>
   conn_open flaky_world 0 \<and>
   search_count flaky_world \<in> srv_busy (srv flaky_world) \<and>
   Suc (search_count flaky_world) \<in> srv_busy (srv flaky_world) \<and>
   Suc (Suc (search_count flaky_world)) \<notin> srv_busy (srv flaky_world) \<and>
   fst (search_user example_client ''alice'' flaky_world) = Inl busy_err"
proof -
  have h: "Conn example_client = Some 0" "filter_ok (go_sprintf (UserFilter example_client) [Go_String ''alice''])"
    "conn_open flaky_world 0"
    "search_count flaky_world \<in> srv_busy (srv flaky_world)"
    "Suc (search_count flaky_world) \<in> srv_busy (srv flaky_world)"
    "Suc (Suc (search_count flaky_world)) \<notin> srv_busy (srv flaky_world)"
    by (simp_all add: example_defs eval_simps example_filters_ok)
  show ?thesis using h Client_Search.search_user_busy_twice [OF h] by simp
qed

theorem get_groups_of_user_contract_witness:
  "Conn example_client = Some 0 \<and> conn_open example_world 0 \<and> answered example_world \<and>
   fst (get_groups_of_user example_client ''bob'' example_world) = Inr [''admins'', ''devs'']"
proof -
  have h: "Conn example_client = Some 0" "conn_open example_world 0" "answered example_world"
    by (simp_all add: example_defs eval_simps)
  have "group_matches example_client ''bob'' example_world = [admins, devs]"
    by (simp add: example_defs eval_simps)
  then have "fst (get_groups_of_user example_client ''bob'' example_world) =
               Inr (map (\<lambda>e. get_attribute_value e ''cn'') [admins, devs])"
    using Client_Search.get_groups_of_user_contract [OF h] example_filters(4) by simp
  also have "\<dots> = Inr [''admins'', ''devs'']"
    by (simp add: admins_def devs_def get_attribute_value_def get_attribute_values_def)
  finally show ?thesis using h by simp
qed

theorem find_users_contract_witness:
  "Conn example_client = Some 0 \<and> conn_open example_world 0 \<and> answered example_world \<and>
   fst (find_users example_client ''carol'' example_world) = Inl (Errors_New ''User does not exist'') \<and>
   fst (find_users example_client ''alice'' example_world) =
     Inr [[''cn'' \<mapsto> ''Alice A'', ''mail'' \<mapsto> ''alice@example.com'']]"
proof -
  have h: "Conn example_client = Some 0" "conn_open example_world 0" "answered example_world"
    by (simp_all add: example_defs eval_simps)
  have "user_matches example_client ''carol'' example_world = []"
    "user_matches example_client ''alice'' example_world = [alice]"
    by (simp_all add: example_defs eval_simps)
  moreover have "user_of_entry [''cn'', ''mail''] alice = [''cn'' \<mapsto> ''Alice A'', ''mail'' \<mapsto> ''alice@example.com'']"
    by (simp add: user_of_entry_def alice_def get_attribute_value_def get_attribute_values_def)
  ultimately show ?thesis
    using h Client_Search.find_users_contract [OF h, of "''carol''"]
      Client_Search.find_users_contract [OF h, of "''alice''"] example_filters(1,2)
    by (simp add: example_client_def)
qed

theorem authenticate_correct_password_witness:
  "Conn example_client = Some 0 \<and> conn_open example_world 0 \<and> srv_bind_busy (srv example_world) = {} \<and>
   search_count example_world \<notin> srv_busy (srv example_world) \<and>
   \<not> privileged example_client \<and>
   user_matches example_client ''alice'' example_world = [alice] \<and>
   bind_ok (srv example_world) (entry_dn alice) ''wonderland'' \<and>
   fst (authenticate example_client ''alice'' ''wonderland'' example_world) =
     (True, Some (user_of_entry (Attributes example_client) alice), None)"
proof -
  have h: "Conn example_client = Some 0" "conn_open example_world 0"
    "srv_bind_busy (srv example_world) = {}" "search_count example_world \<notin> srv_busy (srv example_world)"
    "privileged example_client \<longrightarrow>
       bind_ok (srv example_world) (BindDN example_client) (BindPassword example_client)"
    "user_matches example_client ''alice'' example_world = [alice]"
    "bind_ok (srv example_world) (entry_dn alice) ''wonderland''"
    by (simp_all add: example_defs eval_simps)
  have np: "\<not> privileged example_client" by (simp add: example_defs privileged_def)
  show ?thesis using np h Client_Auth.authenticate_correct_password [OF h] by simp
qed

theorem authenticate_wrong_password_witness:
  "Conn example_client = Some 0 \<and> conn_open example_world 0 \<and> srv_bind_busy (srv example_world) = {} \<and>
   search_count example_world \<notin> srv_busy (srv example_world) \<and>
   \<not> privileged example_client \<and>
   user_matches example_client ''alice'' example_world = [alice] \<and>
   \<not> bind_ok (srv example_world) (entry_dn alice) ''looking-glass'' \<and>
   fst (authenticate example_client ''alice'' ''looking-glass'' example_world) =
     (False, Some (user_of_entry (Attributes example_client) alice), Some invalid_credentials)"
proof -
  have h: "Conn example_client = Some 0" "conn_open example_world 0"
    "srv_bind_busy (srv example_world) = {}" "search_count example_world \<notin> srv_busy (srv example_world)"
    "privileged example_client \<longrightarrow>
       bind_ok (srv example_world) (BindDN example_client) (BindPassword example_client)"
    "user_matches example_client ''alice'' example_world = [alice]"
    "\<not> bind_ok (srv example_world) (entry_dn alice) ''looking-glass''"
    by (simp_all add: example_defs eval_simps)
  have np: "\<not> privileged example_client" by (simp add: example_defs privileged_def)
  show ?thesis using np h Client_Auth.authenticate_wrong_password [OF h] by simp
qed

theorem authenticate_rebind_fails_witness:
  "Conn reader_client = Some 0 \<and> conn_open rebind_busy_world 0 \<and> privileged reader_client \<and>
   bind_count rebind_busy_world \<notin> srv_bind_busy (srv rebind_busy_world) \<and>
   Suc (bind_count rebind_busy_world) \<notin> srv_bind_busy (srv rebind_busy_world) \<and>
   Suc (Suc (bind_count rebind_busy_world)) \<in> srv_bind_busy (srv rebind_busy_world) \<and>
   search_count rebind_busy_world \<notin> srv_busy (srv rebind_busy_world) \<and>
   bind_ok (srv rebind_busy_world) (BindDN reader_client) (BindPassword reader_client) \<and>
   user_matches reader_client ''alice'' rebind_busy_world = [alice] \<and>
   bind_ok (srv rebind_busy_world) (entry_dn alice) ''wonderland'' \<and>
   fst (authenticate reader_client ''alice'' ''wonderland'' rebind_busy_world) =
     (True, Some (user_of_entry (Attributes reader_client) alice), Some busy_err)"
proof -
  have h: "Conn reader_client = Some 0" "conn_open rebind_busy_world 0" "privileged reader_client"
    "bind_count rebind_busy_world \<notin> srv_bind_busy (srv rebind_busy_world)"
    "Suc (bind_count rebind_busy_world) \<notin> srv_bind_busy (srv rebind_busy_world)"
    "Suc (Suc (bind_count rebind_busy_world)) \<in> srv_bind_busy (srv rebind_busy_world)"
    "search_count rebind_busy_world \<notin> srv_busy (srv rebind_busy_world)"
    "bind_ok (srv rebind_busy_world) (BindDN reader_client) (BindPassword reader_client)"
    "user_matches reader_client ''alice'' rebind_busy_world = [alice]"
    "bind_ok (srv rebind_busy_world) (entry_dn alice) ''wonderland''"
    by (simp_all add: example_defs eval_simps)
  show ?thesis using h Client_Auth.authenticate_rebind_fails [OF h] by simp
qed

theorem authenticate_search_not_retried_witness:
  "Conn example_client = Some 0 \<and> conn_open search_busy_once_world 0 \<and>
   srv_bind_busy (srv search_busy_once_world) = {} \<and>
   \<not> privileged example_client \<and> filter_ok (go_sprintf (UserFilter example_client) [Go_String ''alice'']) \<and>
   search_count search_busy_once_world \<in> srv_busy (srv search_busy_once_world) \<and>
   Suc (search_count search_busy_once_world) \<notin> srv_busy (srv search_busy_once_world) \<and>
   fst (authenticate example_client ''alice'' ''wonderland'' search_busy_once_world) = (False, None, Some busy_err)"
proof -
  have h: "Conn example_client = Some 0" "conn_open search_busy_once_world 0"
    "srv_bind_busy (srv search_busy_once_world) = {}"
    "privileged example_client \<longrightarrow>
      bind_ok (srv search_busy_once_world) (BindDN example_client) (BindPassword example_client)"
    "filter_ok (go_sprintf (UserFilter example_client) [Go_String ''alice''])"
    "search_count search_busy_once_world \<in> srv_busy (srv search_busy_once_world)"
    "Suc (search_count search_busy_once_world) \<notin> srv_busy (srv search_busy_once_world)"
    by (simp_all add: example_defs eval_simps example_filters_ok)
  have np: "\<not> privileged example_client" by (simp add: example_defs privileged_def)
  show ?thesis using np h Client_Auth.authenticate_search_not_retried [OF h] by simp
qed


theorem authenticate_lookup_errors_witness:
  "Conn example_client = Some 0 \<and> conn_open example_world 0 \<and> srv_bind_busy (srv example_world) = {} \<and>
   search_count example_world \<notin> srv_busy (srv example_world) \<and>
   \<not> privileged example_client \<and> filter_ok (go_sprintf (UserFilter example_client) [Go_String ''mallory'']) \<and>
   length (user_matches example_client ''mallory'' example_world) \<noteq> 1 \<and>
   fst (authenticate example_client ''mallory'' ''x'' example_world) =
     (False, None, Some (Errors_New ''User does not exist''))"
proof -
  have h: "Conn example_client = Some 0" "conn_open example_world 0"
    "srv_bind_busy (srv example_world) = {}" "search_count example_world \<notin> srv_busy (srv example_world)"
    "privileged example_client \<longrightarrow>
       bind_ok (srv example_world) (BindDN example_client) (BindPassword example_client)"
    "filter_ok (go_sprintf (UserFilter example_client) [Go_String ''mallory''])"
    "length (user_matches example_client ''mallory'' example_world) \<noteq> 1"
    by (simp_all add: example_defs eval_simps example_filters_ok)
  have m: "user_matches example_client ''mallory'' example_world = []"
    by (simp add: example_defs eval_simps)
  have np: "\<not> privileged example_client" by (simp add: example_defs privileged_def)
  show ?thesis using np h m Client_Auth.authenticate_lookup_errors [OF h] by simp
qed

theorem authenticate_privileged_bind_fails_witness:
  "Conn bad_reader_client = Some 0 \<and> conn_open example_world 0 \<and> privileged bad_reader_client \<and>
   \<not> bind_succeeds example_world (BindDN bad_reader_client) (BindPassword bad_reader_client) \<and>
   fst (fst (authenticate bad_reader_client ''alice'' ''wonderland'' example_world)) = False"
proof -
  have h: "Conn bad_reader_client = Some 0" "conn_open example_world 0" "privileged bad_reader_client"
    "\<not> bind_succeeds example_world (BindDN bad_reader_client) (BindPassword bad_reader_client)"
    by (simp_all add: example_defs eval_simps)
  show ?thesis using h Client_Auth.authenticate_privileged_bind_fails [OF h] by simp
qed

theorem connect_twice_witness:
  "connect fresh_client fresh_world =
     (None, fst (snd (connect fresh_client fresh_world)), snd (snd (connect fresh_client fresh_world))) \<and>
   length (filter is_dial (trace (snd (snd (connect fresh_client fresh_world))))) = 1 \<and>
   connect (fst (snd (connect fresh_client fresh_world))) (snd (snd (connect fresh_client fresh_world)))
     = (None, fst (snd (connect fresh_client fresh_world)), snd (snd (connect fresh_client fresh_world)))"
proof -
  have r: "fst (connect fresh_client fresh_world) = None"
    by (simp add: example_defs eval_simps connect_None dial_conn_def ldap_dial_def ldap_start_tls_def
        new_conn_def Let_def)
  then have h: "connect fresh_client fresh_world =
     (None, fst (snd (connect fresh_client fresh_world)), snd (snd (connect fresh_client fresh_world)))"
    by (metis prod.collapse)
  have c: "Conn fresh_client = None" and t: "trace fresh_world = []" by (simp_all add: example_defs)
  show ?thesis using h c t Client_Connect.connect_twice [OF h] by simp
qed

theorem connect_starttls_leak_witness:
  "Conn fresh_client = None \<and> \<not> UseSSL fresh_client \<and>
   server_address fresh_client = srv_address (srv no_start_tls_world) \<and>
   \<not> srv_start_tls (srv no_start_tls_world) \<and>
   fst (connect fresh_client no_start_tls_world) \<noteq> None \<and>
   Conn (fst (snd (connect fresh_client no_start_tls_world))) = None \<and>
   conn_open (snd (snd (connect fresh_client no_start_tls_world))) 0"
proof -
  have h: "Conn fresh_client = None" "\<not> UseSSL fresh_client"
    "server_address fresh_client = srv_address (srv no_start_tls_world)"
    "\<not> srv_start_tls (srv no_start_tls_world)"
    by (simp_all add: example_defs eval_simps)
  have "length (conns no_start_tls_world) = 0" by (simp add: example_defs)
  then show ?thesis using h Client_Connect.connect_starttls_leak [OF h] by simp
qed

theorem connect_certificate_check_witness:
  "Conn tls_client = None \<and> server_address tls_client = srv_address (srv fresh_world) \<and>
   tls_name tls_client \<in> set (srv_cert_names (srv fresh_world)) \<and>
   fst (connect tls_client fresh_world) = None"
proof -
  have h: "Conn tls_client = None" "server_address tls_client = srv_address (srv fresh_world)"
    by (simp_all add: example_defs eval_simps)
  have n: "UseSSL tls_client" "tls_name tls_client \<in> set (srv_cert_names (srv fresh_world))"
    by (simp_all add: example_defs eval_simps tls_name_def host_of_def)
  show ?thesis using h n Client_Connect.connect_certificate_check [OF h] by simp
qed

theorem run_keeps_session_witness:
  "Conn example_client = Some 0 \<and>
   Conn (fst (snd (run [Op_SearchUser ''alice'', Op_Close, Op_SearchUser ''alice''] example_client example_world)))
     = Some 0 \<and>
   filter is_dial (trace (snd (snd (run [Op_SearchUser ''alice'', Op_Close, Op_SearchUser ''alice'']
     example_client example_world)))) = []"
proof -
  let ?r = "run [Op_SearchUser ''alice'', Op_Close, Op_SearchUser ''alice''] example_client example_world"
  have c: "Conn example_client = Some 0" by (simp add: example_defs)
  have h: "?r = (fst ?r, fst (snd ?r), snd (snd ?r))" by simp
  have t: "trace example_world = []" by (simp add: example_defs)
  show ?thesis using c t Client_Machine.run_keeps_session [OF c h] by simp
qed

theorem reachable_inv_witness:
  "reachable fresh_client (fst (snd (exec_op Op_Connect fresh_client fresh_world)))
     (snd (snd (exec_op Op_Connect fresh_client fresh_world))) \<and>
   client_inv (fst (snd (exec_op Op_Connect fresh_client fresh_world)))
     (snd (snd (exec_op Op_Connect fresh_client fresh_world)))"
proof -
  have i: "reachable fresh_client fresh_client fresh_world"
    by (rule reachable.init) (simp add: example_defs)
  have r: "reachable fresh_client (fst (snd (exec_op Op_Connect fresh_client fresh_world)))
             (snd (snd (exec_op Op_Connect fresh_client fresh_world)))"
    by (rule reachable.step [OF i, where op = Op_Connect
          and r = "fst (exec_op Op_Connect fresh_client fresh_world)"]) simp
  show ?thesis using r Client_Machine.reachable_inv [OF r] by simp
qed

theorem close_then_search_user_witness:
  "Conn example_client = Some 0 \<and> 0 < length (conns example_world) \<and>
   filter_ok (go_sprintf (UserFilter example_client) [Go_String ''alice'']) \<and>
   fst (search_user (fst (close example_client example_world)) ''alice'' (snd (close example_client example_world)))
     = Inl err_closed"
proof -
  have h: "Conn example_client = Some 0" "0 < length (conns example_world)"
    "close example_client example_world = (fst (close example_client example_world), snd (close example_client example_world))"
    by (simp_all add: example_defs)
  have f: "filter_ok (go_sprintf (UserFilter example_client) [Go_String ''alice''])"
    by (rule example_filters_ok(1))
  show ?thesis using h f Client_Machine.close_then_search_user [OF h f] by simp
qed

theorem user_of_entry_missing_witness:
  "''telephoneNumber'' \<in> set [''cn'', ''telephoneNumber''] \<and>
   ''telephoneNumber'' \<notin> fst ` set (entry_attributes alice) \<and>
   user_of_entry [''cn'', ''telephoneNumber''] alice ''telephoneNumber'' = Some []"
proof -
  have h: "''telephoneNumber'' \<in> set [''cn'', ''telephoneNumber'']"
    "''telephoneNumber'' \<notin> fst ` set (entry_attributes alice)"
    by (simp_all add: alice_def)
  show ?thesis using h Client_Search.user_of_entry_missing [OF h] by simp
qed

theorem authenticate_star_injection_witness:
  "UserFilter example_client = ''(uid=%s)'' \<and> \<not> privileged example_client \<and>
   filter (\<lambda>e. in_scope (Base example_client) ScopeWholeSubtree (entry_dn e) \<and> get_attribute_values e ''uid'' \<noteq> [])
     (srv_entries (srv example_world)) = [alice] \<and>
   fst (authenticate example_client ''*'' ''wonderland'' example_world) =
     (True, Some (user_of_entry (Attributes example_client) alice), None)"
proof -
  have h: "Conn example_client = Some 0" "conn_open example_world 0"
    "srv_bind_busy (srv example_world) = {}" "search_count example_world \<notin> srv_busy (srv example_world)"
    "privileged example_client \<longrightarrow>
       bind_ok (srv example_world) (BindDN example_client) (BindPassword example_client)"
    "UserFilter example_client = ''(uid=%s)''"
    "filter (\<lambda>e. in_scope (Base example_client) ScopeWholeSubtree (entry_dn e) \<and> get_attribute_values e ''uid'' \<noteq> [])
       (srv_entries (srv example_world)) = [alice]"
    "bind_ok (srv example_world) (entry_dn alice) ''wonderland''"
    by (simp_all add: example_defs eval_simps)
  have np: "\<not> privileged example_client" by (simp add: example_defs privileged_def)
  show ?thesis using np h Client_Filter.authenticate_star_injection [OF h] by simp
qed

theorem search_user_escaped_witness:
  "Conn example_client = Some 0 \<and> conn_open example_world 0 \<and> answered example_world \<and>
   UserFilter example_client = ''(uid=%s)'' \<and>
   fst (search_user example_client (escape_filter ''*'') example_world) = Inl (Errors_New ''User does not exist'')"
proof -
  have h: "Conn example_client = Some 0" "conn_open example_world 0" "answered example_world"
    "UserFilter example_client = ''(uid=%s)''"
    by (simp_all add: example_defs eval_simps)
  have "filter (\<lambda>e. in_scope (Base example_client) ScopeWholeSubtree (entry_dn e) \<and>
          ''*'' \<in> set (get_attribute_values e ''uid'')) (srv_entries (srv example_world)) = []"
    by (simp add: example_defs eval_simps)
  then show ?thesis using h Client_Filter.search_user_escaped [OF h, of "''*''"] by simp
qed

theorem search_user_no_verb_witness:
  "Conn fixed_filter_client = Some 0 \<and> CHR ''%'' \<notin> set (UserFilter fixed_filter_client) \<and>
   compile_filter (UserFilter fixed_filter_client) = Inr (F_Equal ''objectClass'' ''person'') \<and>
   fst (search_user fixed_filter_client ''alice'' example_world) =
     Inl (filter_error (err_extra @ ''%!(EXTRA string=alice)''))"
proof -
  have h: "Conn fixed_filter_client = Some 0" "CHR ''%'' \<notin> set (UserFilter fixed_filter_client)"
    "compile_filter (UserFilter fixed_filter_client) = Inr (F_Equal ''objectClass'' ''person'')"
    by (simp_all add: example_defs eval_simps)
  show ?thesis using h Client_Filter.search_user_no_verb [OF h, of "''alice''" example_world] by simp
qed

theorem find_users_prefix_witness:
  "Conn example_client = Some 0 \<and> conn_open example_world 0 \<and> answered example_world \<and>
   UserFilter example_client = ''(uid=%s)'' \<and>
   fst (find_users example_client (''ali'' @ ''*'') example_world) = Inr [user_of_entry [''cn'', ''mail''] alice]"
proof -
  have h: "Conn example_client = Some 0" "conn_open example_world 0" "answered example_world"
    "UserFilter example_client = ''(uid=%s)''" "\<forall>x\<in>set ''ali''. \<not> filter_special x" "''ali'' \<noteq> []"
    by (simp_all add: example_defs eval_simps filter_special_def)
  have "filter (\<lambda>e. in_scope (Base example_client) ScopeWholeSubtree (entry_dn e) \<and>
          (\<exists>v\<in>set (get_attribute_values e ''uid''). prefix ''ali'' v)) (srv_entries (srv example_world)) = [alice]"
    by (simp add: example_defs eval_simps)
  then show ?thesis using h Client_Filter.find_users_prefix [OF h] by (simp add: example_client_def)
qed

theorem exec_op_refines_session_witness:
  "\<not> stale example_client example_world \<and>
   sess_abs (fst (snd (exec_op Op_Close example_client example_world)))
     (snd (snd (exec_op Op_Close example_client example_world))) = Unconnected"
proof -
  have h: "\<not> stale example_client example_world" by (simp add: example_defs stale_def conn_open_def)
  have e: "exec_op Op_Close example_client example_world =
     (fst (exec_op Op_Close example_client example_world), fst (snd (exec_op Op_Close example_client example_world)),
      snd (snd (exec_op Op_Close example_client example_world)))" by simp
  show ?thesis using h Client_Session.exec_op_refines_session [OF h e] by simp
qed

theorem stale_exactly_after_close_witness:
  "\<not> stale example_client example_world \<and>
   stale (fst (snd (exec_op Op_Close example_client example_world)))
     (snd (snd (exec_op Op_Close example_client example_world)))"
proof -
  have h: "\<not> stale example_client example_world" by (simp add: example_defs stale_def conn_open_def)
  have e: "exec_op Op_Close example_client example_world =
     (fst (exec_op Op_Close example_client example_world), fst (snd (exec_op Op_Close example_client example_world)),
      snd (snd (exec_op Op_Close example_client example_world)))" by simp
  have c: "Conn example_client \<noteq> None" by (simp add: example_defs)
  show ?thesis using h c Client_Session.stale_exactly_after_close [OF h e] by simp
qed

theorem stale_absorbing_witness:
  "client_inv example_client closed_world \<and> stale example_client closed_world \<and>
   sess_abs (fst (snd (run [Op_SearchUser ''alice'', Op_Connect] example_client closed_world)))
     (snd (snd (run [Op_SearchUser ''alice'', Op_Connect] example_client closed_world))) = Unconnected"
proof -
  have h: "client_inv example_client closed_world" "stale example_client closed_world"
    by (simp_all add: example_defs closed_world_def ldap_close_def set_conn_def client_inv_def
        stale_def conn_open_def)
  have r: "run [Op_SearchUser ''alice'', Op_Connect] example_client closed_world =
     (fst (run [Op_SearchUser ''alice'', Op_Connect] example_client closed_world),
      fst (snd (run [Op_SearchUser ''alice'', Op_Connect] example_client closed_world)),
      snd (snd (run [Op_SearchUser ''alice'', Op_Connect] example_client closed_world)))" by simp
  show ?thesis using h Client_Session.stale_absorbing [OF h r] by simp
qed

theorem connected_until_close_witness:
  "Conn fresh_client = None \<and> fst (connect fresh_client fresh_world) = None \<and>
   sess_abs (fst (snd (run [Op_Connect, Op_SearchUser ''alice''] fresh_client fresh_world)))
     (snd (snd (run [Op_Connect, Op_SearchUser ''alice''] fresh_client fresh_world))) = Connected"
proof -
  have h: "Conn fresh_client = None" by (simp add: example_defs)
  have c: "fst (connect fresh_client fresh_world) = None"
    by (simp add: example_defs eval_simps connect_None dial_conn_def ldap_dial_def ldap_start_tls_def
        new_conn_def Let_def)
  have n: "Op_Close \<notin> set [Op_Connect, Op_SearchUser ''alice'']" by simp
  have r: "run [Op_Connect, Op_SearchUser ''alice''] fresh_client fresh_world =
     (fst (run [Op_Connect, Op_SearchUser ''alice''] fresh_client fresh_world),
      fst (snd (run [Op_Connect, Op_SearchUser ''alice''] fresh_client fresh_world)),
      snd (snd (run [Op_Connect, Op_SearchUser ''alice''] fresh_client fresh_world)))" by simp
  show ?thesis using h c Client_Session.connected_until_close [OF h c n r] by simp
qed

theorem get_groups_star_injection_witness:
  "GroupFilter example_client = ''(memberUid=%s)'' \<and>
   fst (get_groups_of_user example_client ''*'' example_world) = Inr [''admins'', ''devs'']"
proof -
  have h: "Conn example_client = Some 0" "conn_open example_world 0" "answered example_world"
    "GroupFilter example_client = ''(memberUid=%s)''"
    by (simp_all add: example_defs eval_simps)
  have "map (\<lambda>e. get_attribute_value e ''cn'')
      (filter (\<lambda>e. in_scope (Base example_client) ScopeWholeSubtree (entry_dn e) \<and>
                   get_attribute_values e ''memberUid'' \<noteq> []) (srv_entries (srv example_world))) =
      [''admins'', ''devs'']"
    by (simp add: example_defs eval_simps)
  then show ?thesis using h Client_Filter.get_groups_star_injection [OF h] by simp
qed

theorem authenticate_sound_witness:
  "fst (fst (authenticate example_client ''alice'' ''wonderland'' example_world)) \<and>
   user_matches example_client ''alice'' example_world = [alice] \<and>
   bind_ok (srv example_world) (entry_dn alice) ''wonderland''"
proof -
  have f: "Conn example_client = Some 0" "conn_open example_world 0" "\<not> privileged example_client"
    "search_count example_world \<notin> srv_busy (srv example_world)"
    "user_matches example_client ''alice'' example_world = [alice]"
    "filter_ok (go_sprintf (UserFilter example_client) [Go_String ''alice''])"
    "bind_count example_world \<notin> srv_bind_busy (srv example_world)"
    "bind_ok (srv example_world) (entry_dn alice) ''wonderland''"
    by (simp_all add: example_defs eval_simps)
  then have h: "fst (fst (authenticate example_client ''alice'' ''wonderland'' example_world))"
    by (simp add: auth_open_simps bind_succeeds_def)
  show ?thesis using h f(5,8) Client_Auth.authenticate_sound [OF h] by auto
qed


theorem search_user_two_verbs_witness:
  "UserFilter two_verb_client = ''(|('' @ ''uid'' @ ''=%s)('' @ ''mail'' @ ''=%s))'' \<and>
   fst (search_user two_verb_client ''alice'' example_world) = Inl (filter_error (err_extra @ '')'')) \<and>
   search_count (snd (snd (search_user two_verb_client ''alice'' example_world))) = 2"
proof -
  have h: "Conn two_verb_client = Some 0" "UserFilter two_verb_client = ''(|('' @ ''uid'' @ ''=%s)('' @ ''mail'' @ ''=%s))''"
    "\<forall>x\<in>set ''uid''. \<not> filter_special x" "\<forall>x\<in>set ''mail''. \<not> filter_special x"
    "CHR ''%'' \<notin> set (''uid'' @ ''mail'')" "\<forall>x\<in>set ''alice''. \<not> filter_special x"
    by (simp_all add: example_defs filter_special_def)
  have "search_count example_world = 0" by (simp add: example_defs eval_simps)
  then show ?thesis using h(2) Client_Filter.search_user_two_verbs [OF h, of example_world] by simp
qed


theorem later_calls_bind_state_witness:
  "\<not> bind_ok (srv example_world) (entry_dn alice) ''guess'' \<and>
   cs_bound (conns (snd (snd (run [Op_Authenticate ''alice'' ''guess'', Op_SearchUser ''alice'', Op_Close]
     reader_client example_world))) ! 0) = None"
proof -
  have h: "Conn reader_client = Some 0" "conn_open example_world 0" "srv_bind_busy (srv example_world) = {}"
    "search_count example_world \<notin> srv_busy (srv example_world)"
    "privileged reader_client \<longrightarrow>
       bind_ok (srv example_world) (BindDN reader_client) (BindPassword reader_client)"
    "user_matches reader_client ''alice'' example_world = [alice]"
    "\<forall>op\<in>set [Op_SearchUser ''alice'', Op_Close]. \<not> is_authenticate op"
    by (simp_all add: example_defs eval_simps)
  have nb: "\<not> bind_ok (srv example_world) (entry_dn alice) ''guess''" by (simp add: example_defs eval_simps)
  show ?thesis using nb Client_Machine.later_calls_bind_state [OF h, of "''guess''"] by simp
qed

end
